(* ===== verification/Falak_Prelude.thy ===== *)
theory Falak_Prelude
  imports Main "HOL-Library.AList" "HOL-Library.Char_ord" "HOL-Library.List_Lexorder"
begin

text \<open>
  Shared vocabulary of the development.

  \<^item> Time: an instant (\<^verbatim>\<open>time.Time\<close>) is the number of nanoseconds since the Unix epoch, a
    \<^verbatim>\<open>time.Duration\<close> a number of nanoseconds; both are \<open>int\<close>.
  \<^item> Fixed-width integers: \<open>s32\<close> and \<open>s64\<close> are the two's complement wrap-around of
    \<^verbatim>\<open>int32\<close> and \<^verbatim>\<open>int64\<close> arithmetic on \<open>int\<close>.
  \<^item> Go maps: an association list whose order is the order in which one \<^verbatim>\<open>range\<close> loop visits
    the entries. A theorem about every such list is a theorem about every iteration order.
    \<open>mput\<close> is \<^verbatim>\<open>m[k] = v\<close>, \<open>mdel\<close> is \<^verbatim>\<open>delete(m, k)\<close>, \<open>map_of m k\<close> is
    \<^verbatim>\<open>v, ok := m[k]\<close>, \<open>length m\<close> is \<^verbatim>\<open>len(m)\<close> (for maps with \<open>wf_map\<close>).
  \<^item> The locale \<open>keyed_map\<close> states what clients of such a map rely on; it is interpreted on
    \<open>mput\<close> and \<open>mdel\<close> here and on the stores built over them in the component theories.
\<close>

named_theorems falak_defs "definitions unfolded by the component proofs"
named_theorems inv_intros "preservation lemmas of the component invariants"

section \<open>Types\<close>

type_synonym time = int
type_synonym duration = int
type_synonym ('k, 'v) gomap = "('k \<times> 'v) list"

abbreviation Second :: duration where "Second \<equiv> 1000000000"
abbreviation Millisecond :: duration where "Millisecond \<equiv> 1000000"
abbreviation Microsecond :: duration where "Microsecond \<equiv> 1000"

section \<open>Definitions\<close>

subsection \<open>Fixed-width integers\<close>

definition s32 :: "int \<Rightarrow> int" where
  "s32 x = (x + 2147483648) mod 4294967296 - 2147483648"

definition s64 :: "int \<Rightarrow> int" where
  "s64 x = (x + 9223372036854775808) mod 18446744073709551616 - 9223372036854775808"

definition in_s32 :: "int \<Rightarrow> bool" where
  "in_s32 x \<longleftrightarrow> - 2147483648 \<le> x \<and> x < 2147483648"

definition in_s64 :: "int \<Rightarrow> bool" where
  "in_s64 x \<longleftrightarrow> - 9223372036854775808 \<le> x \<and> x < 9223372036854775808"

subsection \<open>Go maps\<close>

definition mput :: "'k \<Rightarrow> 'v \<Rightarrow> ('k, 'v) gomap \<Rightarrow> ('k, 'v) gomap" where
  "mput k v m = AList.update k v m"

definition mdel :: "'k \<Rightarrow> ('k, 'v) gomap \<Rightarrow> ('k, 'v) gomap" where
  "mdel k m = AList.delete k m"

definition wf_map :: "('k, 'v) gomap \<Rightarrow> bool" where
  "wf_map m \<longleftrightarrow> distinct (map fst m)"

section \<open>Lemmas\<close>

subsection \<open>Fixed-width integers\<close>

lemma s32_id [simp]: "in_s32 x \<Longrightarrow> s32 x = x"
  by (simp add: s32_def in_s32_def)

lemma s64_id [simp]: "in_s64 x \<Longrightarrow> s64 x = x"
  by (simp add: s64_def in_s64_def)

lemma s32_range: "in_s32 (s32 x)"
proof -
  have "0 \<le> (x + 2147483648) mod 4294967296" "(x + 2147483648) mod 4294967296 < 4294967296"
    by simp_all
  then show ?thesis by (simp add: s32_def in_s32_def)
qed

lemma s64_range: "in_s64 (s64 x)"
proof -
  have "0 \<le> (x + 9223372036854775808) mod 18446744073709551616"
    "(x + 9223372036854775808) mod 18446744073709551616 < 18446744073709551616"
    by simp_all
  then show ?thesis by (simp add: s64_def in_s64_def)
qed

subsection \<open>Go maps\<close>

lemma map_of_mput [simp]: "map_of (mput k v m) = (map_of m)(k \<mapsto> v)"
  by (simp add: mput_def update_conv')

lemma map_of_mdel [simp]: "map_of (mdel k m) = (map_of m)(k := None)"
  by (simp add: mdel_def delete_conv')

lemma wf_map_Nil [simp]: "wf_map []"
  by (simp add: wf_map_def)

lemma wf_map_mput [simp, intro]: "wf_map m \<Longrightarrow> wf_map (mput k v m)"
  by (simp add: wf_map_def mput_def distinct_update)

lemma wf_map_mdel [simp, intro]: "wf_map m \<Longrightarrow> wf_map (mdel k m)"
  by (simp add: wf_map_def mdel_def distinct_delete)

lemma wf_map_filter [simp, intro]: "wf_map m \<Longrightarrow> wf_map (filter P m)"
  by (induction m) (auto simp: wf_map_def)

lemma wf_map_Cons: "wf_map ((k, v) # m) \<longleftrightarrow> k \<notin> fst ` set m \<and> wf_map m"
  by (simp add: wf_map_def)

lemma keys_mput: "fst ` set (mput k v m) = insert k (fst ` set m)"
  by (simp add: mput_def dom_update)

lemma keys_mdel: "fst ` set (mdel k m) = fst ` set m - {k}"
  by (simp add: mdel_def delete_keys image_set [symmetric] flip: set_map)

lemma map_of_mem: "wf_map m \<Longrightarrow> (k, v) \<in> set m \<longleftrightarrow> map_of m k = Some v"
  by (auto simp: wf_map_def dest: map_of_SomeD intro: map_of_is_SomeI)

lemma ball_entries_map_le:
  "wf_map m \<Longrightarrow> (\<forall>(k, v) \<in> set m. f k = Some v) \<longleftrightarrow> map_of m \<subseteq>\<^sub>m f"
  by (auto simp: map_le_def dom_def map_of_mem dest!: map_of_SomeD)

lemma map_le_card_eq:
  assumes "f \<subseteq>\<^sub>m g" "finite (dom g)" "card (dom f) = card (dom g)"
  shows "f = g"
proof -
  have "dom f = dom g"
    using map_le_implies_dom_le [OF assms(1)] assms(2,3) by (intro card_subset_eq)
  with assms(1) show ?thesis by (metis map_le_antisym map_le_def)
qed

lemma map_of_filter_value:
  "wf_map m \<Longrightarrow>
   map_of (filter (\<lambda>(k, v). P k v) m) k =
     (case map_of m k of None \<Rightarrow> None | Some v \<Rightarrow> if P k v then Some v else None)"
proof (induction m)
  case Nil
  then show ?case by simp
next
  case (Cons kv m)
  obtain k' v' where kv: "kv = (k', v')" by force
  with Cons.prems have notin: "k' \<notin> fst ` set m" and wf: "wf_map m"
    by (simp_all add: wf_map_Cons)
  then have "map_of m k' = None" by (simp add: map_of_eq_None_iff)
  then show ?case using Cons.IH [OF wf] kv by (auto split: option.splits)
qed

lemma length_dom: "wf_map m \<Longrightarrow> length m = card (dom (map_of m))"
  using distinct_card [of "map fst m"] by (simp add: wf_map_def dom_map_of_conv_image_fst)

lemma find_None_filter: "find P xs = None \<longleftrightarrow> filter P xs = []"
  by (induction xs) auto

lemma find_append: "find P (xs @ ys) = (case find P xs of None \<Rightarrow> find P ys | Some x \<Rightarrow> Some x)"
  by (induction xs) auto

lemma find_unique:
  assumes "x \<in> set xs" "P x" "\<And>y. y \<in> set xs \<Longrightarrow> P y \<Longrightarrow> y = x"
  shows "find P xs = Some x"
proof (cases "find P xs")
  case None
  then show ?thesis using assms(1,2) by (auto simp: find_None_iff)
next
  case (Some y)
  then have "y \<in> set xs" "P y" by (auto simp: find_Some_iff)
  then show ?thesis using assms(3) Some by blast
qed

section \<open>The keyed-map interface\<close>

locale keyed_map =
  fixes get :: "'m \<Rightarrow> 'k \<Rightarrow> 'v option"
    and put :: "'k \<Rightarrow> 'v \<Rightarrow> 'm \<Rightarrow> 'm"
    and del :: "'k \<Rightarrow> 'm \<Rightarrow> 'm"
    and wf :: "'m \<Rightarrow> bool"
  assumes get_put: "wf m \<Longrightarrow> get (put k v m) = (get m)(k \<mapsto> v)"
    and get_del: "wf m \<Longrightarrow> get (del k m) = (get m)(k := None)"
    and wf_put: "wf m \<Longrightarrow> wf (put k v m)"
    and wf_del: "wf m \<Longrightarrow> wf (del k m)"
begin

lemma get_put_same: "wf m \<Longrightarrow> get (put k v m) k = Some v"
  by (simp add: get_put)

lemma get_put_other: "wf m \<Longrightarrow> k' \<noteq> k \<Longrightarrow> get (put k v m) k' = get m k'"
  by (simp add: get_put)

lemma get_del_same: "wf m \<Longrightarrow> get (del k m) k = None"
  by (simp add: get_del)

lemma del_put_absent: "wf m \<Longrightarrow> get m k = None \<Longrightarrow> get (del k (put k v m)) = get m"
  by (simp add: get_del get_put wf_put fun_upd_idem)

lemma put_put_same: "wf m \<Longrightarrow> get (put k w (put k v m)) = get (put k w m)"
  by (simp add: get_put wf_put)

end

interpretation go_map: keyed_map map_of mput mdel wf_map
  by unfold_locales auto

end
