(* ===== verification/Capsule_Types.thy ===== *)
theory Capsule_Types
  imports Falak_Prelude
begin

text \<open>
  The data model of \<^verbatim>\<open>src/capsule/capsule.go\<close> and the label operations of
  \<^verbatim>\<open>src/capsule/labels.go\<close>.

  The enums of the source (\<^verbatim>\<open>CapsuleStatus\<close>, \<^verbatim>\<open>Tier\<close>, \<^verbatim>\<open>TriggerMode\<close>, ...) are Go string types:
  a value received from the mesh or read from the database can be any string, and the code calls
  \<^verbatim>\<open>Valid\<close> to find out. The model keeps them strings. A \<^verbatim>\<open>Labels\<close> map is \<open>None\<close> when the Go map
  is \<^verbatim>\<open>nil\<close>; \<open>lbl\<close> gives its entries (a nil map reads as an empty one). Pointers to optional
  structs (\<^verbatim>\<open>*HealthCheck\<close>, \<^verbatim>\<open>*RegistryAuth\<close>) are options.
\<close>

section \<open>Definitions\<close>

subsection \<open>Enums\<close>

type_synonym CapsuleID = string
type_synonym ReplicaID = string
type_synonym CapsuleStatus = string
type_synonym Tier = string
type_synonym labels = "(string, string) gomap option"

definition capsuleStatusCreated :: CapsuleStatus where "capsuleStatusCreated = ''created''"
definition capsuleStatusAnnounced :: CapsuleStatus where "capsuleStatusAnnounced = ''announced''"
definition capsuleStatusElecting :: CapsuleStatus where "capsuleStatusElecting = ''electing''"
definition capsuleStatusAssigned :: CapsuleStatus where "capsuleStatusAssigned = ''assigned''"
definition capsuleStatusExecuting :: CapsuleStatus where "capsuleStatusExecuting = ''executing''"
definition capsuleStatusRunning :: CapsuleStatus where "capsuleStatusRunning = ''running''"
definition capsuleStatusStopping :: CapsuleStatus where "capsuleStatusStopping = ''stopping''"
definition capsuleStatusStopped :: CapsuleStatus where "capsuleStatusStopped = ''stopped''"

definition Status_Valid :: "CapsuleStatus \<Rightarrow> bool" where
  "Status_Valid s \<longleftrightarrow> List.member [capsuleStatusCreated, capsuleStatusAnnounced,
     capsuleStatusElecting, capsuleStatusAssigned, capsuleStatusExecuting, capsuleStatusRunning,
     capsuleStatusStopping, capsuleStatusStopped] s"

definition tierCritical :: Tier where "tierCritical = ''critical''"
definition tierStandard :: Tier where "tierStandard = ''standard''"
definition tierBackground :: Tier where "tierBackground = ''background''"

definition BaseMomentum :: "Tier \<Rightarrow> int" where
  "BaseMomentum t = (if t = tierCritical then 90 else if t = tierStandard then 50
     else if t = tierBackground then 20 else 50)"

definition Tier_Valid :: "Tier \<Rightarrow> bool" where
  "Tier_Valid t \<longleftrightarrow> t = tierCritical \<or> t = tierStandard \<or> t = tierBackground"

definition scalingActionScaleUp :: string where "scalingActionScaleUp = ''scaleUp''"
definition scalingActionScaleDown :: string where "scalingActionScaleDown = ''scaleDown''"
definition scalingActionScaleToZero :: string where "scalingActionScaleToZero = ''scaleToZero''"

definition ScalingAction_Valid :: "string \<Rightarrow> bool" where
  "ScalingAction_Valid a \<longleftrightarrow> a = scalingActionScaleUp \<or> a = scalingActionScaleDown \<or> a = scalingActionScaleToZero"

definition triggerModeAny :: string where "triggerModeAny = ''any''"
definition triggerModeAll :: string where "triggerModeAll = ''all''"

definition TriggerMode_Valid :: "string \<Rightarrow> bool" where
  "TriggerMode_Valid m \<longleftrightarrow> m = triggerModeAny \<or> m = triggerModeAll"

definition placementTypeNode :: string where "placementTypeNode = ''node''"
definition placementTypeCluster :: string where "placementTypeCluster = ''cluster''"
definition placementTypeDatacenter :: string where "placementTypeDatacenter = ''datacenter''"
definition placementTypeCapsule :: string where "placementTypeCapsule = ''capsule''"

definition PlacementType_Valid :: "string \<Rightarrow> bool" where
  "PlacementType_Valid t \<longleftrightarrow> t = placementTypeNode \<or> t = placementTypeCluster \<or>
     t = placementTypeDatacenter \<or> t = placementTypeCapsule"

definition placementModeNear :: string where "placementModeNear = ''near''"
definition placementModeAway :: string where "placementModeAway = ''away''"

definition PlacementMode_Valid :: "string \<Rightarrow> bool" where
  "PlacementMode_Valid m \<longleftrightarrow> m = placementModeNear \<or> m = placementModeAway"

definition networkModeBridge :: string where "networkModeBridge = ''bridge''"
definition networkModeHost :: string where "networkModeHost = ''host''"

definition SameKeyword :: string where "SameKeyword = ''same''"

subsection \<open>Records\<close>

record ResourceRequirements =
  res_CPUCores :: int
  res_CPUCoresMax :: int
  res_MemoryMB :: int
  res_MemoryMBMax :: int
  res_DiskMB :: int

definition EffectiveCPUMax :: "ResourceRequirements \<Rightarrow> int" where
  "EffectiveCPUMax r = (if res_CPUCoresMax r > 0 then res_CPUCoresMax r else res_CPUCores r)"

definition EffectiveMemoryMax :: "ResourceRequirements \<Rightarrow> int" where
  "EffectiveMemoryMax r = (if res_MemoryMBMax r > 0 then res_MemoryMBMax r else res_MemoryMB r)"

record ReplicaConfig =
  rc_Min :: int
  rc_Max :: int
  rc_Exact :: int

record ScalingRule =
  sr_Name :: string
  sr_Trigger :: string
  sr_Conditions :: "string list"
  sr_Action :: string
  sr_Cooldown :: duration

record PlacementRule =
  pr_Name :: string
  pr_Type :: string
  pr_Mode :: string
  pr_Names :: "string list"
  pr_Labels :: labels
  pr_Required :: bool

record PortMapping =
  pm_Name :: string
  pm_ContainerPort :: int
  pm_HostPort :: int
  pm_Protocol :: string

record NetworkConfig =
  net_Mode :: string
  net_Ports :: "PortMapping list"

record HealthCheck =
  hc_Type :: string
  hc_Path :: string
  hc_Port :: int
  hc_Interval :: duration
  hc_Timeout :: duration
  hc_Retries :: int
  hc_InitialDelay :: duration

record RegistryAuth =
  ra_URL :: string
  ra_UsernameEncrypted :: string
  ra_PasswordEncrypted :: string

record FailurePolicy =
  fp_RestartLimit :: int
  fp_MaxNodeAttempts :: int
  fp_GracefulTimeout :: duration

record LogRetention =
  lr_MaxFileSizeMB :: int
  lr_MaxFiles :: int

record SnapshotConfig =
  sc_MaxPerCapsule :: int
  sc_TTL :: duration

record RuntimeConfig =
  rt_Env :: labels
  rt_Network :: NetworkConfig
  rt_HealthCheck :: "HealthCheck option"
  rt_FailurePolicy :: FailurePolicy
  rt_LogRetention :: LogRetention
  rt_StatsInterval :: duration
  rt_Registry :: "RegistryAuth option"
  rt_SnapshotConfig :: SnapshotConfig

record MomentumConfig =
  mc_Base :: int
  mc_BoostOnTraffic :: bool
  mc_ReduceOnIdle :: bool
  mc_IdleTimeout :: duration

record MomentumState =
  ms_Current :: int
  ms_Base :: int
  ms_LastAdjusted :: time

record ReplicaState =
  rs_ReplicaID :: ReplicaID
  rs_NodeID :: string
  rs_Status :: CapsuleStatus
  rs_StartedAt :: time

record CapsuleSpec =
  spec_Name :: string
  spec_Image :: string
  spec_ImageAlias :: string
  spec_ImageDigest :: string
  spec_Orbit :: string
  spec_Tier :: Tier
  spec_Labels :: labels
  spec_Resources :: ResourceRequirements
  spec_Replicas :: ReplicaConfig
  spec_ScalingRules :: "ScalingRule list"
  spec_PlacementRules :: "PlacementRule list"
  spec_Runtime :: RuntimeConfig
  spec_MomentumConfig :: MomentumConfig
  spec_Command :: "string list"

record Capsule =
  cap_ID :: CapsuleID
  cap_ClusterID :: string
  cap_Spec :: CapsuleSpec
  cap_Status :: CapsuleStatus
  cap_Replicas :: "ReplicaState list"
  cap_Momentum :: MomentumState
  cap_Version :: string
  cap_CreatedAt :: time
  cap_UpdatedAt :: time

subsection \<open>Labels\<close>

definition lbl :: "labels \<Rightarrow> (string, string) gomap" where
  "lbl m = (case m of None \<Rightarrow> [] | Some es \<Rightarrow> es)"

definition wf_labels :: "labels \<Rightarrow> bool" where
  "wf_labels m \<longleftrightarrow> wf_map (lbl m)"

fun labels_match_loop :: "labels \<Rightarrow> (string, string) gomap \<Rightarrow> bool" where
  "labels_match_loop cand [] = True"
| "labels_match_loop cand ((key, reqVal) # rest) =
     (case map_of (lbl cand) key of
        None \<Rightarrow> False
      | Some candVal \<Rightarrow> if reqVal \<noteq> candVal then False else labels_match_loop cand rest)"

definition LabelsMatch :: "labels \<Rightarrow> labels \<Rightarrow> bool" where
  "LabelsMatch candidate required = labels_match_loop candidate (lbl required)"

fun labels_share_loop :: "labels \<Rightarrow> labels \<Rightarrow> (string, string) gomap \<Rightarrow> bool" where
  "labels_share_loop src tgt [] = True"
| "labels_share_loop src tgt ((key, val) # rest) =
     (if val \<noteq> SameKeyword then labels_share_loop src tgt rest
      else case (map_of (lbl src) key, map_of (lbl tgt) key) of
        (Some sv, Some tv) \<Rightarrow> if sv \<noteq> tv then False else labels_share_loop src tgt rest
      | _ \<Rightarrow> False)"

definition LabelsShareMatch :: "labels \<Rightarrow> labels \<Rightarrow> labels \<Rightarrow> bool" where
  "LabelsShareMatch sourceLabels targetLabels ruleLabels =
     labels_share_loop sourceLabels targetLabels (lbl ruleLabels)"

definition LabelsMatchAnyValue :: "labels \<Rightarrow> string \<Rightarrow> string list \<Rightarrow> bool" where
  "LabelsMatchAnyValue candidate key allowedValues =
     (case map_of (lbl candidate) key of
        None \<Rightarrow> False
      | Some candVal \<Rightarrow> List.member allowedValues candVal)"

definition LabelsContains :: "labels \<Rightarrow> string \<Rightarrow> bool" where
  "LabelsContains ls key = (map_of (lbl ls) key \<noteq> None)"

definition LabelsMerge :: "labels \<Rightarrow> labels \<Rightarrow> labels" where
  "LabelsMerge base overrides =
     Some (fold (\<lambda>(k, v) m. mput k v m) (lbl overrides)
            (fold (\<lambda>(k, v) m. mput k v m) (lbl base) []))"

fun labels_equal_loop :: "labels \<Rightarrow> (string, string) gomap \<Rightarrow> bool" where
  "labels_equal_loop b [] = True"
| "labels_equal_loop b ((k, v) # rest) =
     (case map_of (lbl b) k of
        None \<Rightarrow> False
      | Some bv \<Rightarrow> if bv \<noteq> v then False else labels_equal_loop b rest)"

definition LabelsEqual :: "labels \<Rightarrow> labels \<Rightarrow> bool" where
  "LabelsEqual a b = (if length (lbl a) \<noteq> length (lbl b) then False
                      else labels_equal_loop b (lbl a))"

subsection \<open>Zero values\<close>

text \<open>The zero values of the Go types, and a capsule for the concrete runs.\<close>

definition zeroTime :: time where
  "zeroTime = - 62135596800 * Second"

definition zeroSpec :: CapsuleSpec where
  "zeroSpec = \<lparr>spec_Name = '''', spec_Image = '''', spec_ImageAlias = '''', spec_ImageDigest = '''',
     spec_Orbit = '''', spec_Tier = '''', spec_Labels = None,
     spec_Resources = \<lparr>res_CPUCores = 0, res_CPUCoresMax = 0, res_MemoryMB = 0, res_MemoryMBMax = 0,
       res_DiskMB = 0\<rparr>,
     spec_Replicas = \<lparr>rc_Min = 0, rc_Max = 0, rc_Exact = 0\<rparr>, spec_ScalingRules = [],
     spec_PlacementRules = [],
     spec_Runtime = \<lparr>rt_Env = None, rt_Network = \<lparr>net_Mode = '''', net_Ports = []\<rparr>,
       rt_HealthCheck = None,
       rt_FailurePolicy = \<lparr>fp_RestartLimit = 0, fp_MaxNodeAttempts = 0, fp_GracefulTimeout = 0\<rparr>,
       rt_LogRetention = \<lparr>lr_MaxFileSizeMB = 0, lr_MaxFiles = 0\<rparr>, rt_StatsInterval = 0,
       rt_Registry = None, rt_SnapshotConfig = \<lparr>sc_MaxPerCapsule = 0, sc_TTL = 0\<rparr>\<rparr>,
     spec_MomentumConfig = \<lparr>mc_Base = 0, mc_BoostOnTraffic = False, mc_ReduceOnIdle = False,
       mc_IdleTimeout = 0\<rparr>,
     spec_Command = []\<rparr>"

definition zeroMomentum :: MomentumState where
  "zeroMomentum = \<lparr>ms_Current = 0, ms_Base = 0, ms_LastAdjusted = zeroTime\<rparr>"

definition sample_capsule :: Capsule where
  "sample_capsule = \<lparr>cap_ID = ''c1'', cap_ClusterID = ''eu/dc1/prod'', cap_Spec = zeroSpec,
     cap_Status = capsuleStatusCreated, cap_Replicas = [], cap_Momentum = zeroMomentum, cap_Version = ''1'',
     cap_CreatedAt = 5, cap_UpdatedAt = 5\<rparr>"

section \<open>Lemmas\<close>

lemmas status_defs = capsuleStatusCreated_def capsuleStatusAnnounced_def capsuleStatusElecting_def capsuleStatusAssigned_def
  capsuleStatusExecuting_def capsuleStatusRunning_def capsuleStatusStopping_def capsuleStatusStopped_def

lemmas tier_defs = tierCritical_def tierStandard_def tierBackground_def

lemmas placement_defs = placementTypeNode_def placementTypeCluster_def placementTypeDatacenter_def
  placementTypeCapsule_def placementModeNear_def placementModeAway_def

lemma distinct_statuses:
  "distinct [capsuleStatusCreated, capsuleStatusAnnounced, capsuleStatusElecting,
     capsuleStatusAssigned, capsuleStatusExecuting, capsuleStatusRunning, capsuleStatusStopping,
     capsuleStatusStopped]"
  by (simp add: status_defs)

lemmas status_neq = distinct_statuses [unfolded distinct.simps list.set insert_iff empty_iff
    de_Morgan_disj simp_thms]

lemma Status_Valid_consts [simp]:
  "Status_Valid capsuleStatusCreated" "Status_Valid capsuleStatusAnnounced" "Status_Valid capsuleStatusElecting"
  "Status_Valid capsuleStatusAssigned" "Status_Valid capsuleStatusExecuting" "Status_Valid capsuleStatusRunning"
  "Status_Valid capsuleStatusStopping" "Status_Valid capsuleStatusStopped"
  by (simp_all add: Status_Valid_def)

lemma Status_Valid_iff:
  "Status_Valid s \<longleftrightarrow> s \<in> {capsuleStatusCreated, capsuleStatusAnnounced, capsuleStatusElecting,
     capsuleStatusAssigned, capsuleStatusExecuting, capsuleStatusRunning, capsuleStatusStopping,
     capsuleStatusStopped}"
  by (simp add: Status_Valid_def)

lemma Status_Valid_empty [simp]: "\<not> Status_Valid ''''"
  by (simp add: Status_Valid_iff status_defs)

lemma lbl_simps [simp]: "lbl None = []" "lbl (Some es) = es"
  by (simp_all add: lbl_def)

subsection \<open>Labels\<close>

lemma labels_match_loop_iff:
  "labels_match_loop cand es \<longleftrightarrow> (\<forall>(k, v) \<in> set es. map_of (lbl cand) k = Some v)"
  by (induction es) (auto split: option.splits if_splits)

lemma LabelsMatch_iff:
  "LabelsMatch cand req \<longleftrightarrow> (\<forall>(k, v) \<in> set (lbl req). map_of (lbl cand) k = Some v)"
  by (simp add: LabelsMatch_def labels_match_loop_iff)

lemma LabelsMatch_map_le:
  "wf_labels req \<Longrightarrow> LabelsMatch cand req \<longleftrightarrow> map_of (lbl req) \<subseteq>\<^sub>m map_of (lbl cand)"
  by (simp add: LabelsMatch_iff wf_labels_def ball_entries_map_le)

lemma LabelsMatch_refl: "wf_labels m \<Longrightarrow> LabelsMatch m m"
  by (simp add: LabelsMatch_map_le)

lemma LabelsMatch_trans:
  "wf_labels b \<Longrightarrow> wf_labels c \<Longrightarrow> LabelsMatch a b \<Longrightarrow> LabelsMatch b c \<Longrightarrow> LabelsMatch a c"
  by (auto simp: LabelsMatch_map_le intro: map_le_trans)

lemma labels_share_loop_iff:
  "labels_share_loop src tgt es \<longleftrightarrow>
   (\<forall>(k, v) \<in> set es. v = SameKeyword \<longrightarrow>
      (\<exists>w. map_of (lbl src) k = Some w \<and> map_of (lbl tgt) k = Some w))"
  by (induction es) (auto split: option.splits if_splits)

lemma LabelsShareMatch_sym: "LabelsShareMatch a b r = LabelsShareMatch b a r"
  by (auto simp: LabelsShareMatch_def labels_share_loop_iff)

lemma map_of_fold_mput:
  "map_of (fold (\<lambda>(k, v) m. mput k v m) es acc) = map_of acc ++ map_of (rev es)"
proof (induction es arbitrary: acc)
  case Nil
  then show ?case by simp
next
  case (Cons e es)
  obtain k v where "e = (k, v)" by force
  with Cons show ?case by (simp add: map_add_def fun_eq_iff split: option.splits)
qed

lemma wf_fold_mput: "wf_map acc \<Longrightarrow> wf_map (fold (\<lambda>(k, v) m. mput k v m) es acc)"
  by (induction es arbitrary: acc) auto

lemma map_of_rev_wf: "wf_map m \<Longrightarrow> map_of (rev m) = map_of m"
  by (rule map_of_inject_set [THEN iffD2]) (simp_all add: wf_map_def rev_map [symmetric])

lemma labels_equal_loop_iff:
  "labels_equal_loop b es \<longleftrightarrow> (\<forall>(k, v) \<in> set es. map_of (lbl b) k = Some v)"
  by (induction es) (auto split: option.splits if_splits)

lemma LabelsMerge_wf: "wf_labels (LabelsMerge a b)"
  by (simp add: LabelsMerge_def wf_labels_def wf_fold_mput)

lemma LabelsMerge_map:
  "wf_labels a \<Longrightarrow> wf_labels b \<Longrightarrow>
   map_of (lbl (LabelsMerge a b)) = map_of (lbl a) ++ map_of (lbl b)"
  by (simp add: LabelsMerge_def wf_labels_def map_of_fold_mput map_of_rev_wf)

lemma labels_equal_loop_map_le:
  "wf_labels a \<Longrightarrow> labels_equal_loop b (lbl a) \<longleftrightarrow> map_of (lbl a) \<subseteq>\<^sub>m map_of (lbl b)"
  by (simp add: labels_equal_loop_iff wf_labels_def ball_entries_map_le)

lemma LabelsEqual_map_iff:
  "wf_labels a \<Longrightarrow> wf_labels b \<Longrightarrow> LabelsEqual a b \<longleftrightarrow> map_of (lbl a) = map_of (lbl b)"
  by (auto simp: LabelsEqual_def labels_equal_loop_map_le length_dom wf_labels_def finite_dom_map_of
      intro: map_le_card_eq)

section \<open>Properties\<close>

text \<open>
  \<open>LabelsEqual\<close> decides equality of the two maps, whatever order the loop visits the entries in,
  although the loop looks only at the keys of the first map; a nil map equals an empty one.
\<close>

theorem LabelsEqual_iff_same_map:
  "wf_labels a \<Longrightarrow> wf_labels b \<Longrightarrow> LabelsEqual a b = (map_of (lbl a) = map_of (lbl b))"
  by (rule LabelsEqual_map_iff)

theorem LabelsEqual_iff_same_map_witness:
  "LabelsEqual (Some [(''a'', ''1''), (''b'', ''2'')]) (Some [(''b'', ''2''), (''a'', ''1'')]) =
   (map_of [(''a'', ''1''), (''b'', ''2'')] = map_of [(''b'', ''2''), (''a'', ''1'')])"
  using LabelsEqual_iff_same_map [of "Some [(''a'', ''1''), (''b'', ''2'')]"
      "Some [(''b'', ''2''), (''a'', ''1'')]"]
  by (simp add: wf_labels_def wf_map_def)

end
