(* ===== verification/Capsule_Spec.thy ===== *)
theory Capsule_Spec
  imports Capsule_Types
begin

text \<open>
  \<^verbatim>\<open>src/capsule/spec.go\<close>: the defaults a specification receives (\<open>DefaultSpec\<close>) and its validation
  (\<open>ValidateSpec\<close>). \<open>ValidateSpec\<close> returns the list of errors that the code joins with
  \<^verbatim>\<open>errors.Join\<close>; the empty list is the nil error. The errors made by \<^verbatim>\<open>fmt.Errorf\<close> are
  constructors that carry the formatted values.
\<close>

section \<open>Definitions\<close>

datatype specError =
    ErrNameRequired
  | ErrImageRequired
  | ErrOrbitRequired
  | ErrInvalidTier
  | ErrInvalidCPU
  | ErrInvalidMemory
  | ErrInvalidDisk
  | ErrInvalidReplicas
  | ErrInvalidExactReplicas
  | ErrReplicaConflict
  | PlacementInvalidType nat string
  | PlacementModeMissing nat
  | PlacementModeForbidden nat
  | PlacementNoSelector nat
  | PlacementLabelNotSame nat string string
  | ScalingNameRequired nat
  | ScalingInvalidTrigger nat string
  | ScalingInvalidAction nat string
  | ScalingNoCondition nat
  | ScalingNegativeCooldown nat

subsection \<open>Defaults\<close>

definition dflt :: "'a \<Rightarrow> 'a \<Rightarrow> 'a \<Rightarrow> 'a" where
  "dflt zero d x = (if x = zero then d else x)"

definition defaultPlacementRule :: "PlacementRule \<Rightarrow> PlacementRule" where
  "defaultPlacementRule rule = (let
     rule = (if \<not> pr_Required rule then rule\<lparr>pr_Required := True\<rparr> else rule)
     in if pr_Labels rule = None then rule\<lparr>pr_Labels := Some []\<rparr> else rule)"

definition defaultScalingRule :: "ScalingRule \<Rightarrow> ScalingRule" where
  "defaultScalingRule rule = (let
     rule = (if sr_Trigger rule = '''' then rule\<lparr>sr_Trigger := triggerModeAll\<rparr> else rule)
     in if sr_Cooldown rule = 0 then rule\<lparr>sr_Cooldown := 60 * Second\<rparr> else rule)"

definition defaultHealthCheck :: "HealthCheck \<Rightarrow> HealthCheck" where
  "defaultHealthCheck h = h\<lparr>
     hc_Interval := dflt 0 (10 * Second) (hc_Interval h),
     hc_Timeout := dflt 0 (3 * Second) (hc_Timeout h),
     hc_Retries := dflt 0 3 (hc_Retries h),
     hc_InitialDelay := dflt 0 (5 * Second) (hc_InitialDelay h)\<rparr>"

definition defaultFailurePolicy :: "FailurePolicy \<Rightarrow> FailurePolicy" where
  "defaultFailurePolicy p = p\<lparr>
     fp_RestartLimit := dflt 0 3 (fp_RestartLimit p),
     fp_MaxNodeAttempts := dflt 0 3 (fp_MaxNodeAttempts p),
     fp_GracefulTimeout := dflt 0 (10 * Second) (fp_GracefulTimeout p)\<rparr>"

definition defaultRuntime :: "RuntimeConfig \<Rightarrow> RuntimeConfig" where
  "defaultRuntime r = r\<lparr>
     rt_Env := dflt None (Some []) (rt_Env r),
     rt_Network := (rt_Network r)\<lparr>net_Mode := dflt '''' networkModeBridge (net_Mode (rt_Network r))\<rparr>,
     rt_StatsInterval := dflt 0 (5 * Second) (rt_StatsInterval r),
     rt_FailurePolicy := defaultFailurePolicy (rt_FailurePolicy r),
     rt_LogRetention := (rt_LogRetention r)\<lparr>
       lr_MaxFileSizeMB := dflt 0 10 (lr_MaxFileSizeMB (rt_LogRetention r)),
       lr_MaxFiles := dflt 0 10 (lr_MaxFiles (rt_LogRetention r))\<rparr>,
     rt_HealthCheck := map_option defaultHealthCheck (rt_HealthCheck r),
     rt_SnapshotConfig := (rt_SnapshotConfig r)\<lparr>
       sc_MaxPerCapsule := dflt 0 3 (sc_MaxPerCapsule (rt_SnapshotConfig r)),
       sc_TTL := dflt 0 (72 * 3600 * Second) (sc_TTL (rt_SnapshotConfig r))\<rparr>\<rparr>"

definition defaultReplicas :: "ReplicaConfig \<Rightarrow> ReplicaConfig" where
  "defaultReplicas r = (if rc_Exact r = 0 \<and> rc_Min r = 0 \<and> rc_Max r = 0
     then r\<lparr>rc_Min := 1, rc_Max := 1\<rparr> else r)"

definition DefaultSpec :: "CapsuleSpec \<Rightarrow> CapsuleSpec" where
  "DefaultSpec spec = (let
     spec = spec\<lparr>spec_Tier := dflt '''' tierStandard (spec_Tier spec)\<rparr>;
     spec = spec\<lparr>spec_Labels := dflt None (Some []) (spec_Labels spec)\<rparr>;
     spec = spec\<lparr>spec_Replicas := defaultReplicas (spec_Replicas spec)\<rparr>;
     spec = spec\<lparr>spec_MomentumConfig := (spec_MomentumConfig spec)\<lparr>
       mc_Base := dflt 0 (BaseMomentum (spec_Tier spec)) (mc_Base (spec_MomentumConfig spec))\<rparr>\<rparr>;
     spec = spec\<lparr>spec_PlacementRules := map defaultPlacementRule (spec_PlacementRules spec)\<rparr>;
     spec = spec\<lparr>spec_ScalingRules := map defaultScalingRule (spec_ScalingRules spec)\<rparr>
     in spec\<lparr>spec_Runtime := defaultRuntime (spec_Runtime spec)\<rparr>)"

subsection \<open>Validation\<close>

definition validateReplicas :: "ReplicaConfig \<Rightarrow> specError option" where
  "validateReplicas r =
     (if rc_Exact r > 0 \<and> (rc_Min r > 0 \<or> rc_Max r > 0) then Some ErrReplicaConflict
      else if rc_Exact r < 0 then Some ErrInvalidExactReplicas
      else if rc_Exact r = 0 \<and> (rc_Min r < 0 \<or> rc_Max r < 0) then Some ErrInvalidReplicas
      else if rc_Exact r = 0 \<and> rc_Min r > rc_Max r then Some ErrInvalidReplicas
      else None)"

fun firstNotSame :: "nat \<Rightarrow> (string, string) gomap \<Rightarrow> specError option" where
  "firstNotSame index [] = None"
| "firstNotSame index ((key, val) # rest) =
     (if val \<noteq> SameKeyword then Some (PlacementLabelNotSame index key val)
      else firstNotSame index rest)"

definition validatePlacementRule :: "PlacementRule \<Rightarrow> nat \<Rightarrow> specError option" where
  "validatePlacementRule rule index =
     (if \<not> PlacementType_Valid (pr_Type rule) then Some (PlacementInvalidType index (pr_Type rule))
      else if pr_Type rule = placementTypeCapsule \<and> \<not> PlacementMode_Valid (pr_Mode rule)
        then Some (PlacementModeMissing index)
      else if pr_Type rule \<noteq> placementTypeCapsule \<and> pr_Mode rule \<noteq> ''''
        then Some (PlacementModeForbidden index)
      else if pr_Names rule = [] \<and> lbl (pr_Labels rule) = [] then Some (PlacementNoSelector index)
      else if pr_Type rule = placementTypeCapsule then firstNotSame index (lbl (pr_Labels rule))
      else None)"

definition validateScalingRule :: "ScalingRule \<Rightarrow> nat \<Rightarrow> specError option" where
  "validateScalingRule rule index =
     (if sr_Name rule = '''' then Some (ScalingNameRequired index)
      else if \<not> TriggerMode_Valid (sr_Trigger rule)
        then Some (ScalingInvalidTrigger index (sr_Trigger rule))
      else if \<not> ScalingAction_Valid (sr_Action rule)
        then Some (ScalingInvalidAction index (sr_Action rule))
      else if sr_Conditions rule = [] then Some (ScalingNoCondition index)
      else if sr_Cooldown rule < 0 then Some (ScalingNegativeCooldown index)
      else None)"

fun validate_rules :: "('r \<Rightarrow> nat \<Rightarrow> specError option) \<Rightarrow> nat \<Rightarrow> 'r list \<Rightarrow> specError list" where
  "validate_rules f i [] = []"
| "validate_rules f i (rule # rest) =
     (case f rule i of None \<Rightarrow> [] | Some e \<Rightarrow> [e]) @ validate_rules f (Suc i) rest"

definition errIf :: "bool \<Rightarrow> specError \<Rightarrow> specError list" where
  "errIf b e = (if b then [e] else [])"

definition ValidateSpec :: "CapsuleSpec \<Rightarrow> specError list" where
  "ValidateSpec spec =
     errIf (spec_Name spec = '''') ErrNameRequired @
     errIf (spec_Image spec = '''') ErrImageRequired @
     errIf (spec_Orbit spec = '''') ErrOrbitRequired @
     errIf (spec_Tier spec \<noteq> '''' \<and> \<not> Tier_Valid (spec_Tier spec)) ErrInvalidTier @
     errIf (res_CPUCores (spec_Resources spec) < 0) ErrInvalidCPU @
     errIf (res_MemoryMB (spec_Resources spec) < 0) ErrInvalidMemory @
     errIf (res_DiskMB (spec_Resources spec) < 0) ErrInvalidDisk @
     (case validateReplicas (spec_Replicas spec) of None \<Rightarrow> [] | Some e \<Rightarrow> [e]) @
     validate_rules validatePlacementRule 0 (spec_PlacementRules spec) @
     validate_rules validateScalingRule 0 (spec_ScalingRules spec)"

subsection \<open>Specification\<close>

text \<open>What a deployable specification is, stated without the code's order of checks.\<close>

definition replicas_ok :: "ReplicaConfig \<Rightarrow> bool" where
  "replicas_ok r \<longleftrightarrow>
     (rc_Exact r = 0 \<and> 0 \<le> rc_Min r \<and> rc_Min r \<le> rc_Max r) \<or>
     (rc_Exact r > 0 \<and> rc_Min r \<le> 0 \<and> rc_Max r \<le> 0)"

definition placement_ok :: "PlacementRule \<Rightarrow> bool" where
  "placement_ok r \<longleftrightarrow> (pr_Names r \<noteq> [] \<or> lbl (pr_Labels r) \<noteq> []) \<and>
     (if pr_Type r = placementTypeCapsule
      then PlacementMode_Valid (pr_Mode r) \<and> (\<forall>(k, v) \<in> set (lbl (pr_Labels r)). v = SameKeyword)
      else pr_Type r \<in> {placementTypeNode, placementTypeCluster, placementTypeDatacenter} \<and>
           pr_Mode r = '''')"

definition scaling_ok :: "ScalingRule \<Rightarrow> bool" where
  "scaling_ok r \<longleftrightarrow> sr_Name r \<noteq> '''' \<and> TriggerMode_Valid (sr_Trigger r) \<and>
     ScalingAction_Valid (sr_Action r) \<and> sr_Conditions r \<noteq> [] \<and> 0 \<le> sr_Cooldown r"

definition spec_ok :: "CapsuleSpec \<Rightarrow> bool" where
  "spec_ok s \<longleftrightarrow> spec_Name s \<noteq> '''' \<and> spec_Image s \<noteq> '''' \<and> spec_Orbit s \<noteq> '''' \<and>
     (spec_Tier s = '''' \<or> Tier_Valid (spec_Tier s)) \<and>
     0 \<le> res_CPUCores (spec_Resources s) \<and> 0 \<le> res_MemoryMB (spec_Resources s) \<and>
     0 \<le> res_DiskMB (spec_Resources s) \<and> replicas_ok (spec_Replicas s) \<and>
     list_all placement_ok (spec_PlacementRules s) \<and> list_all scaling_ok (spec_ScalingRules s)"

definition submitted_ok :: "CapsuleSpec \<Rightarrow> bool" where
  "submitted_ok s \<longleftrightarrow> spec_Name s \<noteq> '''' \<and> spec_Image s \<noteq> '''' \<and> spec_Orbit s \<noteq> '''' \<and>
     spec_Tier s \<in> {'''', ''critical'', ''standard'', ''background''} \<and>
     0 \<le> res_CPUCores (spec_Resources s) \<and> 0 \<le> res_MemoryMB (spec_Resources s) \<and>
     0 \<le> res_DiskMB (spec_Resources s) \<and> replicas_ok (spec_Replicas s) \<and>
     list_all placement_ok (spec_PlacementRules s) \<and>
     list_all (\<lambda>r. sr_Name r \<noteq> '''' \<and> sr_Trigger r \<in> {'''', ''any'', ''all''} \<and>
       sr_Action r \<in> {''scaleUp'', ''scaleDown'', ''scaleToZero''} \<and> sr_Conditions r \<noteq> [] \<and>
       0 \<le> sr_Cooldown r) (spec_ScalingRules s)"

section \<open>Lemmas\<close>

subsection \<open>Defaults\<close>

lemma dflt_idem [simp]: "dflt z d (dflt z d x) = dflt z d x"
  by (simp add: dflt_def)

lemma dflt_keeps: "x \<noteq> z \<Longrightarrow> dflt z d x = x"
  by (simp add: dflt_def)

lemma dflt_not_zero: "d \<noteq> z \<Longrightarrow> dflt z d x \<noteq> z"
  by (simp add: dflt_def)

lemma defaultPlacementRule_alt:
  "defaultPlacementRule r = r\<lparr>pr_Required := True, pr_Labels := dflt None (Some []) (pr_Labels r)\<rparr>"
  by (cases r) (simp add: defaultPlacementRule_def dflt_def Let_def)

lemma defaultScalingRule_alt:
  "defaultScalingRule r = r\<lparr>sr_Trigger := dflt '''' triggerModeAll (sr_Trigger r),
     sr_Cooldown := dflt 0 (60 * Second) (sr_Cooldown r)\<rparr>"
  by (cases r) (simp add: defaultScalingRule_def dflt_def Let_def)

lemma defaultPlacementRule_idem [simp]:
  "defaultPlacementRule (defaultPlacementRule r) = defaultPlacementRule r"
  by (simp add: defaultPlacementRule_alt)

lemma defaultScalingRule_idem [simp]:
  "defaultScalingRule (defaultScalingRule r) = defaultScalingRule r"
  by (simp add: defaultScalingRule_alt)

lemma defaultHealthCheck_idem [simp]:
  "defaultHealthCheck (defaultHealthCheck h) = defaultHealthCheck h"
  by (simp add: defaultHealthCheck_def)

lemma defaultFailurePolicy_idem [simp]:
  "defaultFailurePolicy (defaultFailurePolicy p) = defaultFailurePolicy p"
  by (simp add: defaultFailurePolicy_def)

lemma defaultRuntime_idem [simp]: "defaultRuntime (defaultRuntime r) = defaultRuntime r"
  by (rule RuntimeConfig.equality) (simp_all add: defaultRuntime_def option.map_comp o_def)

lemma defaultReplicas_idem [simp]: "defaultReplicas (defaultReplicas r) = defaultReplicas r"
  by (simp add: defaultReplicas_def)

lemma placement_ok_default: "placement_ok (defaultPlacementRule r) = placement_ok r"
  by (cases "pr_Labels r") (simp_all add: placement_ok_def defaultPlacementRule_alt dflt_def)



subsection \<open>Validation\<close>

lemma errIf_Nil [simp]: "errIf b e = [] \<longleftrightarrow> \<not> b"
  by (simp add: errIf_def)

lemma validate_rules_Nil: "validate_rules f i rs = [] \<longleftrightarrow> (\<forall>j < length rs. f (rs ! j) (i + j) = None)"
proof (induction rs arbitrary: i)
  case Nil
  then show ?case by simp
next
  case (Cons r rs)
  show ?case
    by (auto simp: Cons.IH less_Suc_eq_0_disj split: option.splits)
qed

lemma firstNotSame_None: "firstNotSame i es = None \<longleftrightarrow> (\<forall>(k, v) \<in> set es. v = SameKeyword)"
  by (induction es) (auto split: if_splits)

lemma validateReplicas_None: "validateReplicas r = None \<longleftrightarrow> replicas_ok r"
  by (auto simp: validateReplicas_def replicas_ok_def split: if_splits)

lemma validatePlacementRule_None: "validatePlacementRule r i = None \<longleftrightarrow> placement_ok r"
  by (auto simp: validatePlacementRule_def placement_ok_def firstNotSame_None PlacementType_Valid_def
      split: if_splits)

lemma validateScalingRule_None: "validateScalingRule r i = None \<longleftrightarrow> scaling_ok r"
  by (auto simp: validateScalingRule_def scaling_ok_def split: if_splits)

lemma validate_rules_ok:
  "(\<And>r i. f r i = None \<longleftrightarrow> P r) \<Longrightarrow> validate_rules f i rs = [] \<longleftrightarrow> list_all P rs"
  by (simp add: validate_rules_Nil list_all_length)

lemmas validators_None = validateReplicas_None
  validate_rules_ok [of validatePlacementRule placement_ok, OF validatePlacementRule_None]
  validate_rules_ok [of validateScalingRule scaling_ok, OF validateScalingRule_None]

lemma ValidateSpec_ok: "ValidateSpec s = [] \<longleftrightarrow> spec_ok s"
  by (auto simp: ValidateSpec_def spec_ok_def validators_None
      simp flip: validateReplicas_None split: option.splits)

lemma replicas_ok_default_iff: "replicas_ok (defaultReplicas r) \<longleftrightarrow> replicas_ok r"
  by (auto simp: replicas_ok_def defaultReplicas_def)

lemma scaling_ok_default_iff:
  "scaling_ok (defaultScalingRule r) \<longleftrightarrow> sr_Name r \<noteq> '''' \<and> sr_Trigger r \<in> {'''', ''any'', ''all''} \<and>
     sr_Action r \<in> {''scaleUp'', ''scaleDown'', ''scaleToZero''} \<and> sr_Conditions r \<noteq> [] \<and>
     0 \<le> sr_Cooldown r"
  by (auto simp: scaling_ok_def defaultScalingRule_alt dflt_def TriggerMode_Valid_def
      ScalingAction_Valid_def triggerModeAny_def triggerModeAll_def scalingActionScaleUp_def
      scalingActionScaleDown_def scalingActionScaleToZero_def)

lemma DefaultSpec_sel:
  "spec_Name (DefaultSpec s) = spec_Name s" "spec_Image (DefaultSpec s) = spec_Image s"
  "spec_Orbit (DefaultSpec s) = spec_Orbit s"
  "spec_Tier (DefaultSpec s) = dflt '''' tierStandard (spec_Tier s)"
  "spec_Resources (DefaultSpec s) = spec_Resources s"
  "spec_Replicas (DefaultSpec s) = defaultReplicas (spec_Replicas s)"
  "spec_PlacementRules (DefaultSpec s) = map defaultPlacementRule (spec_PlacementRules s)"
  "spec_ScalingRules (DefaultSpec s) = map defaultScalingRule (spec_ScalingRules s)"
  by (simp_all add: DefaultSpec_def Let_def)

lemma spec_ok_DefaultSpec: "spec_ok (DefaultSpec s) \<longleftrightarrow> submitted_ok s"
  by (auto simp: spec_ok_def submitted_ok_def DefaultSpec_sel list_all_iff
      replicas_ok_default_iff placement_ok_default scaling_ok_default_iff dflt_def Tier_Valid_def tier_defs)

section \<open>Properties\<close>

text \<open>
  Applying the defaults twice is applying them once: a specification that went through
  \<open>DefaultSpec\<close> (on creation, on every update, on the wire) is a fixed point of it.
\<close>

theorem DefaultSpec_idempotent: "DefaultSpec (DefaultSpec s) = DefaultSpec s"
  by (rule CapsuleSpec.equality) (simp_all add: DefaultSpec_def Let_def o_def)

text \<open>
  C29. The pipeline of \<^verbatim>\<open>Manager.Create\<close>, defaults then validation, reports no error exactly for the
  specifications \<open>submitted_ok\<close> describes: name, image and orbit given, a known or absent tier,
  resources that are not negative, either an exact replica count or an ordered min/max pair, placement
  rules with a selector and a mode exactly for the capsule type, and scaling rules with a name, a
  condition, a known action, a known or absent trigger and a cooldown that is not negative.
\<close>

theorem ValidateSpec_DefaultSpec_iff: "ValidateSpec (DefaultSpec s) = [] \<longleftrightarrow> submitted_ok s"
  by (simp add: ValidateSpec_ok spec_ok_DefaultSpec)

text \<open>
  After \<open>DefaultSpec\<close> no placement rule is soft: every rule is required, whatever the user wrote,
  and the rest of the rule is kept. (The comment in the code leaves explicit \<^verbatim>\<open>required: false\<close> to the
  layer above, which cannot express it past this call.)
\<close>

theorem DefaultSpec_all_rules_required:
  "list_all2 (\<lambda>r r'. pr_Required r' \<and> pr_Type r' = pr_Type r \<and> pr_Mode r' = pr_Mode r \<and>
      pr_Names r' = pr_Names r \<and> lbl (pr_Labels r') = lbl (pr_Labels r))
     (spec_PlacementRules s) (spec_PlacementRules (DefaultSpec s))"
  by (simp add: DefaultSpec_sel list_all2_map2 list.rel_refl defaultPlacementRule_alt dflt_def)

end
