(* ===== verification/Capsule_Lifecycle.thy ===== *)
theory Capsule_Lifecycle
  imports Capsule_Types
begin

text \<open>
  \<^verbatim>\<open>src/capsule/lifecycle.go\<close>: the state machine of one capsule. \<open>buildMachine\<close> is the table of
  \<^verbatim>\<open>Permit\<close> calls of the source, in their order. The engine that runs the table is the third-party
  package \<^verbatim>\<open>qmuntal/stateless\<close>: it is the parameter \<open>eng\<close> of the operations, and \<open>stateless_law\<close> is
  what its documentation promises and this code relies on: firing a trigger moves to the destination
  permitted for the current state and is an error when there is none, and \<^verbatim>\<open>CanFire\<close> tells which.

  \<open>Lifecycle_Fire\<close> returns the updated machine and either an error or the \<open>LifecycleEvent\<close> that
  \<^verbatim>\<open>onEntry\<close> hands to the handler; the handler of the source (the manager) is applied to that event in
  \<^verbatim>\<open>Capsule_Manager\<close>.
\<close>

section \<open>Definitions\<close>

definition TriggerAnnounce :: string where "TriggerAnnounce = ''announce''"
definition TriggerElectionStarted :: string where "TriggerElectionStarted = ''election_started''"
definition TriggerElectionWon :: string where "TriggerElectionWon = ''election_won''"
definition TriggerElectionTimeout :: string where "TriggerElectionTimeout = ''election_timeout''"
definition TriggerExecutionStart :: string where "TriggerExecutionStart = ''execution_started''"
definition TriggerExecutionFailed :: string where "TriggerExecutionFailed = ''execution_failed''"
definition TriggerContainerReady :: string where "TriggerContainerReady = ''container_ready''"
definition TriggerStopRequested :: string where "TriggerStopRequested = ''stop_requested''"
definition TriggerContainerStopped :: string where "TriggerContainerStopped = ''container_stopped''"
definition TriggerNodeFailed :: string where "TriggerNodeFailed = ''node_failed''"
definition TriggerScaleUpNeeded :: string where "TriggerScaleUpNeeded = ''scale_up_needed''"
definition TriggerScaleDownNeeded :: string where "TriggerScaleDownNeeded = ''scale_down_needed''"

record LifecycleEvent =
  le_CapsuleID :: CapsuleID
  le_From :: CapsuleStatus
  le_To :: CapsuleStatus
  le_Trigger :: string

type_synonym permits = "((CapsuleStatus \<times> string) \<times> CapsuleStatus) list"

record engine =
  eng_Fire :: "permits \<Rightarrow> CapsuleStatus \<Rightarrow> string \<Rightarrow> CapsuleStatus option"
  eng_CanFire :: "permits \<Rightarrow> CapsuleStatus \<Rightarrow> string \<Rightarrow> bool"

text \<open>The machine is its permit table and its current state.\<close>

record Lifecycle =
  lc_capsuleID :: CapsuleID
  lc_permits :: permits
  lc_state :: CapsuleStatus
  lc_lastTrigger :: string
  lc_prevState :: CapsuleStatus

definition buildMachine :: permits where
  "buildMachine =
    [((capsuleStatusCreated, TriggerAnnounce), capsuleStatusAnnounced),
     ((capsuleStatusAnnounced, TriggerElectionStarted), capsuleStatusElecting),
     ((capsuleStatusElecting, TriggerElectionWon), capsuleStatusAssigned),
     ((capsuleStatusElecting, TriggerElectionTimeout), capsuleStatusAnnounced),
     ((capsuleStatusAssigned, TriggerExecutionStart), capsuleStatusExecuting),
     ((capsuleStatusAssigned, TriggerExecutionFailed), capsuleStatusAnnounced),
     ((capsuleStatusExecuting, TriggerContainerReady), capsuleStatusRunning),
     ((capsuleStatusExecuting, TriggerExecutionFailed), capsuleStatusAnnounced),
     ((capsuleStatusRunning, TriggerStopRequested), capsuleStatusStopping),
     ((capsuleStatusRunning, TriggerNodeFailed), capsuleStatusAnnounced),
     ((capsuleStatusRunning, TriggerScaleUpNeeded), capsuleStatusAnnounced),
     ((capsuleStatusRunning, TriggerScaleDownNeeded), capsuleStatusStopping),
     ((capsuleStatusStopping, TriggerContainerStopped), capsuleStatusStopped),
     ((capsuleStatusStopped, TriggerAnnounce), capsuleStatusAnnounced)]"

definition NewLifecycle :: "CapsuleID \<Rightarrow> CapsuleStatus \<Rightarrow> Lifecycle" where
  "NewLifecycle capsuleID prevState =
     \<lparr>lc_capsuleID = capsuleID, lc_permits = buildMachine,
      lc_state = (if prevState \<noteq> '''' \<and> Status_Valid prevState then prevState else capsuleStatusCreated),
      lc_lastTrigger = '''', lc_prevState = prevState\<rparr>"

definition Lifecycle_State :: "Lifecycle \<Rightarrow> CapsuleStatus" where
  "Lifecycle_State l = lc_state l"

definition onEntry :: "Lifecycle \<Rightarrow> CapsuleStatus \<Rightarrow> LifecycleEvent" where
  "onEntry l state = \<lparr>le_CapsuleID = lc_capsuleID l, le_From = lc_prevState l, le_To = state,
     le_Trigger = lc_lastTrigger l\<rparr>"

datatype lifecycleError = TransitionFailed string

definition Lifecycle_Fire ::
  "engine \<Rightarrow> Lifecycle \<Rightarrow> string \<Rightarrow> Lifecycle \<times> (lifecycleError + LifecycleEvent)" where
  "Lifecycle_Fire eng l trigger = (let
     l = l\<lparr>lc_prevState := lc_state l, lc_lastTrigger := trigger\<rparr>
     in case eng_Fire eng (lc_permits l) (lc_state l) trigger of
          None \<Rightarrow> (l, Inl (TransitionFailed trigger))
        | Some dest \<Rightarrow> (l\<lparr>lc_state := dest\<rparr>, Inr (onEntry (l\<lparr>lc_state := dest\<rparr>) dest)))"

definition Lifecycle_CanFire :: "engine \<Rightarrow> Lifecycle \<Rightarrow> string \<Rightarrow> bool" where
  "Lifecycle_CanFire eng l trigger = eng_CanFire eng (lc_permits l) (lc_state l) trigger"

text \<open>A sequence of triggers, all of which must be accepted.\<close>

fun Fire_all :: "engine \<Rightarrow> Lifecycle \<Rightarrow> string list \<Rightarrow> Lifecycle option" where
  "Fire_all eng l [] = Some l"
| "Fire_all eng l (t # ts) = (case Lifecycle_Fire eng l t of
     (l', Inl e) \<Rightarrow> None
   | (l', Inr ev) \<Rightarrow> Fire_all eng l' ts)"

subsection \<open>The engine\<close>

definition stateless_law :: "engine \<Rightarrow> bool" where
  "stateless_law eng \<longleftrightarrow>
     (\<forall>ps s t. distinct (map fst ps) \<longrightarrow>
        eng_Fire eng ps s t = map_of ps (s, t) \<and> eng_CanFire eng ps s t = (map_of ps (s, t) \<noteq> None))"

definition table_engine :: engine where
  "table_engine = \<lparr>eng_Fire = (\<lambda>ps s t. map_of ps (s, t)),
     eng_CanFire = (\<lambda>ps s t. map_of ps (s, t) \<noteq> None)\<rparr>"

text \<open>One accepted trigger, as a relation on states, and its closure.\<close>

inductive lifecycle_step :: "engine \<Rightarrow> CapsuleStatus \<Rightarrow> CapsuleStatus \<Rightarrow> bool" for eng where
  fire: "Lifecycle_Fire eng (NewLifecycle i s) t = (l', Inr ev) \<Longrightarrow> Status_Valid s \<Longrightarrow>
         lifecycle_step eng s (Lifecycle_State l')"

definition lifecycle_reaches :: "engine \<Rightarrow> CapsuleStatus \<Rightarrow> CapsuleStatus \<Rightarrow> bool" where
  "lifecycle_reaches eng = (lifecycle_step eng)\<^sup>*\<^sup>*"


section \<open>Lemmas\<close>

lemmas trigger_defs = TriggerAnnounce_def TriggerElectionStarted_def TriggerElectionWon_def
  TriggerElectionTimeout_def TriggerExecutionStart_def TriggerExecutionFailed_def
  TriggerContainerReady_def TriggerStopRequested_def TriggerContainerStopped_def
  TriggerNodeFailed_def TriggerScaleUpNeeded_def TriggerScaleDownNeeded_def

lemma table_engine_law [simp]: "stateless_law table_engine"
  by (simp add: stateless_law_def table_engine_def)

lemma distinct_buildMachine [simp]: "distinct (map fst buildMachine)"
  by (simp add: buildMachine_def status_defs trigger_defs)

lemma NewLifecycle_sel [simp]:
  "lc_permits (NewLifecycle i s) = buildMachine" "lc_capsuleID (NewLifecycle i s) = i"
  by (simp_all add: NewLifecycle_def)

lemma NewLifecycle_state:
  "lc_state (NewLifecycle i s) = (if Status_Valid s then s else capsuleStatusCreated)"
  by (auto simp: NewLifecycle_def)

lemma engine_buildMachine:
  assumes "stateless_law eng"
  shows "eng_Fire eng buildMachine s t = map_of buildMachine (s, t)"
    and "eng_CanFire eng buildMachine s t = (map_of buildMachine (s, t) \<noteq> None)"
  using assms by (simp_all add: stateless_law_def)

lemma Lifecycle_Fire_simps:
  assumes "stateless_law eng" "lc_permits l = buildMachine"
  shows "Lifecycle_Fire eng l t =
    (let l' = l\<lparr>lc_prevState := lc_state l, lc_lastTrigger := t\<rparr> in
     case map_of buildMachine (lc_state l, t) of
       None \<Rightarrow> (l', Inl (TransitionFailed t))
     | Some d \<Rightarrow> (l'\<lparr>lc_state := d\<rparr>, Inr \<lparr>le_CapsuleID = lc_capsuleID l, le_From = lc_state l,
                    le_To = d, le_Trigger = t\<rparr>))"
  using assms by (simp add: Lifecycle_Fire_def Let_def engine_buildMachine onEntry_def
      split: option.split)

lemma buildMachine_cases:
  assumes "map_of buildMachine (s, t) = Some d"
  shows "(s, t, d) \<in> (\<lambda>((a, b), c). (a, b, c)) ` set buildMachine"
  using map_of_SomeD [OF assms] by force

lemma buildMachine_valid: "map_of buildMachine (s, t) = Some d \<Longrightarrow> Status_Valid s \<and> Status_Valid d"
  by (drule buildMachine_cases) (auto simp: buildMachine_def)

lemma buildMachine_into:
  assumes "map_of buildMachine (s, t) = Some d"
  shows "d \<noteq> capsuleStatusCreated"
    and "d = capsuleStatusRunning \<Longrightarrow> s = capsuleStatusExecuting \<and> t = TriggerContainerReady"
    and "d = capsuleStatusExecuting \<Longrightarrow> s = capsuleStatusAssigned \<and> t = TriggerExecutionStart"
    and "d = capsuleStatusAssigned \<Longrightarrow> s = capsuleStatusElecting \<and> t = TriggerElectionWon"
    and "d = capsuleStatusElecting \<Longrightarrow> s = capsuleStatusAnnounced \<and> t = TriggerElectionStarted"
  using buildMachine_cases [OF assms] by (auto simp: buildMachine_def status_defs)

lemma Fire_preserves:
  assumes "Lifecycle_Fire eng l t = (l', r)"
  shows "lc_permits l' = lc_permits l" "lc_capsuleID l' = lc_capsuleID l"
  using assms by (auto simp: Lifecycle_Fire_def Let_def split: option.splits)

lemma Fire_Inr:
  assumes "stateless_law eng" "lc_permits l = buildMachine" "Lifecycle_Fire eng l t = (l', Inr ev)"
  shows "map_of buildMachine (lc_state l, t) = Some (lc_state l')" "le_To ev = lc_state l'"
    "le_From ev = lc_state l" "le_CapsuleID ev = lc_capsuleID l" "le_Trigger ev = t"
  using assms by (auto simp: Lifecycle_Fire_simps Let_def split: option.splits)

lemma Fire_Inl:
  assumes "stateless_law eng" "lc_permits l = buildMachine" "Lifecycle_Fire eng l t = (l', Inl e)"
  shows "lc_state l' = lc_state l" "map_of buildMachine (lc_state l, t) = None"
  using assms by (auto simp: Lifecycle_Fire_simps Let_def split: option.splits)

lemma Fire_all_append:
  "Fire_all eng l (ts @ us) = (case Fire_all eng l ts of None \<Rightarrow> None | Some l' \<Rightarrow> Fire_all eng l' us)"
  by (induction ts arbitrary: l) (auto split: prod.splits sum.splits)

lemma Fire_all_permits: "Fire_all eng l ts = Some l' \<Longrightarrow> lc_permits l' = lc_permits l"
  by (induction ts arbitrary: l) (auto split: prod.splits sum.splits dest: Fire_preserves)

lemma Fire_all_snoc_state:
  assumes "stateless_law eng" "lc_permits l = buildMachine" "Fire_all eng l (ts @ [t]) = Some l'"
  obtains m where "Fire_all eng l ts = Some m" "map_of buildMachine (lc_state m, t) = Some (lc_state l')"
  using assms(3) Fire_Inr(1) [OF assms(1)] Fire_all_permits assms(2)
  by (fastforce simp: Fire_all_append split: option.splits prod.splits sum.splits)

lemma Fire_all_enter:
  assumes law: "stateless_law eng" "lc_permits l = buildMachine" and run: "Fire_all eng l ts = Some l'"
    and new: "lc_state l \<noteq> lc_state l'"
    and into: "\<And>s t. map_of buildMachine (s, t) = Some (lc_state l') \<Longrightarrow> s = src \<and> t = u"
  shows "\<exists>us m. ts = us @ [u] \<and> Fire_all eng l us = Some m \<and> lc_state m = src"
proof (cases ts rule: rev_cases)
  case Nil
  then show ?thesis using run new by simp
next
  case (snoc us t)
  obtain m where "Fire_all eng l us = Some m" "map_of buildMachine (lc_state m, t) = Some (lc_state l')"
    using Fire_all_snoc_state [OF law] run snoc by blast
  then show ?thesis using snoc into by blast
qed

subsection \<open>Reachability\<close>

lemma lifecycle_step_iff:
  assumes "stateless_law eng"
  shows "lifecycle_step eng s d \<longleftrightarrow> (\<exists>t. map_of buildMachine (s, t) = Some d)"
proof
  assume "lifecycle_step eng s d"
  then show "\<exists>t. map_of buildMachine (s, t) = Some d"
    by cases (metis Fire_Inr(1) Lifecycle_State_def NewLifecycle_sel(1) NewLifecycle_state assms)
next
  assume "\<exists>t. map_of buildMachine (s, t) = Some d"
  then obtain t where t: "map_of buildMachine (s, t) = Some d" by blast
  then have valid: "Status_Valid s" using buildMachine_valid by blast
  obtain l' r where fire: "Lifecycle_Fire eng (NewLifecycle [] s) t = (l', r)" by force
  then have "lc_state l' = d" "\<exists>ev. r = Inr ev"
    using t valid assms by (auto simp: Lifecycle_Fire_simps NewLifecycle_state Let_def)
  then show "lifecycle_step eng s d"
    using lifecycle_step.fire fire valid by (metis Lifecycle_State_def)
qed

lemma lifecycle_reaches_step:
  assumes "stateless_law eng" "map_of buildMachine (s, t) = Some d" "lifecycle_reaches eng d u"
  shows "lifecycle_reaches eng s u"
  using assms unfolding lifecycle_reaches_def
  by (metis lifecycle_step_iff converse_rtranclp_into_rtranclp)

lemma lifecycle_reaches_refl: "lifecycle_reaches eng s s"
  by (simp add: lifecycle_reaches_def)

lemma buildMachine_forward:
  "map_of buildMachine (capsuleStatusCreated, TriggerAnnounce) = Some capsuleStatusAnnounced"
  "map_of buildMachine (capsuleStatusAnnounced, TriggerElectionStarted) = Some capsuleStatusElecting"
  "map_of buildMachine (capsuleStatusElecting, TriggerElectionWon) = Some capsuleStatusAssigned"
  "map_of buildMachine (capsuleStatusAssigned, TriggerExecutionStart) = Some capsuleStatusExecuting"
  "map_of buildMachine (capsuleStatusExecuting, TriggerContainerReady) = Some capsuleStatusRunning"
  "map_of buildMachine (capsuleStatusRunning, TriggerStopRequested) = Some capsuleStatusStopping"
  "map_of buildMachine (capsuleStatusStopping, TriggerContainerStopped) = Some capsuleStatusStopped"
  "map_of buildMachine (capsuleStatusStopped, TriggerAnnounce) = Some capsuleStatusAnnounced"
  by (simp_all add: buildMachine_def status_defs trigger_defs)

lemma lifecycle_cycle:
  assumes "stateless_law eng" "Status_Valid s"
  shows "lifecycle_reaches eng s capsuleStatusAnnounced"
proof -
  note step = lifecycle_reaches_step [OF assms(1)]
  note r8 = step [OF buildMachine_forward(8) lifecycle_reaches_refl]
  note r7 = step [OF buildMachine_forward(7) r8]
  note r6 = step [OF buildMachine_forward(6) r7]
  note r5 = step [OF buildMachine_forward(5) r6]
  note r4 = step [OF buildMachine_forward(4) r5]
  show ?thesis
    using assms(2) step [OF buildMachine_forward(1) lifecycle_reaches_refl]
      step [OF buildMachine_forward(3) r4] r4 r5 r6 r7 r8 lifecycle_reaches_refl
    by (auto simp: Status_Valid_iff)
qed

lemma lifecycle_from_announced:
  assumes "stateless_law eng" "Status_Valid d" "d \<noteq> capsuleStatusCreated"
  shows "lifecycle_reaches eng capsuleStatusAnnounced d"
proof -
  have step: "lifecycle_reaches eng a c" if "lifecycle_reaches eng a b" "map_of buildMachine (b, t) = Some c"
    for a b c t
    using that assms(1) unfolding lifecycle_reaches_def
    by (metis lifecycle_step_iff rtranclp.rtrancl_into_rtrancl)
  note r2 = step [OF lifecycle_reaches_refl buildMachine_forward(2)]
  note r3 = step [OF r2 buildMachine_forward(3)]
  note r4 = step [OF r3 buildMachine_forward(4)]
  note r5 = step [OF r4 buildMachine_forward(5)]
  note r6 = step [OF r5 buildMachine_forward(6)]
  show ?thesis
    using assms(2,3) r2 r3 r4 r5 r6 step [OF r6 buildMachine_forward(7)] lifecycle_reaches_refl
    by (auto simp: Status_Valid_iff)
qed

lemma lifecycle_reaches_target:
  assumes "stateless_law eng" "lifecycle_reaches eng s d"
  shows "d = s \<or> (Status_Valid d \<and> d \<noteq> capsuleStatusCreated)"
  using assms(2) unfolding lifecycle_reaches_def
  by (induction rule: rtranclp_induct)
    (metis lifecycle_step_iff [OF assms(1)] buildMachine_valid buildMachine_into(1))+

section \<open>Properties\<close>

text \<open>
  A transition happens exactly when the table permits it: firing \<open>t\<close> in a state for which
  \<open>buildMachine\<close> has a destination moves there and reports the true source, destination and trigger; in
  any other case it is an error and the state is kept. \<open>CanFire\<close> predicts which.
\<close>

theorem Lifecycle_Fire_follows_table:
  assumes "stateless_law eng"
  shows "case map_of buildMachine (Lifecycle_State (NewLifecycle i s), t) of
      Some d \<Rightarrow> Lifecycle_CanFire eng (NewLifecycle i s) t \<and>
        (\<exists>l'. Lifecycle_Fire eng (NewLifecycle i s) t =
           (l', Inr \<lparr>le_CapsuleID = i, le_From = Lifecycle_State (NewLifecycle i s), le_To = d, le_Trigger = t\<rparr>)
           \<and> Lifecycle_State l' = d)
    | None \<Rightarrow> \<not> Lifecycle_CanFire eng (NewLifecycle i s) t \<and>
        (\<exists>l'. Lifecycle_Fire eng (NewLifecycle i s) t = (l', Inl (TransitionFailed t))
           \<and> Lifecycle_State l' = Lifecycle_State (NewLifecycle i s))"
  using assms by (simp add: Lifecycle_Fire_simps Lifecycle_State_def Lifecycle_CanFire_def
      engine_buildMachine Let_def split: option.split)

theorem Lifecycle_Fire_follows_table_witness:
  "Lifecycle_CanFire table_engine (NewLifecycle ''c1'' ''running'') ''node_failed'' \<and>
   \<not> Lifecycle_CanFire table_engine (NewLifecycle ''c1'' ''stopping'') ''announce''"
  using Lifecycle_Fire_follows_table [OF table_engine_law, of "''c1''" "''running''" "''node_failed''"]
    Lifecycle_Fire_follows_table [OF table_engine_law, of "''c1''" "''stopping''" "''announce''"]
  by (simp add: NewLifecycle_def Lifecycle_State_def Status_Valid_def buildMachine_def status_defs
      trigger_defs)



text \<open>
  The machine has no dead end and one entry: from every valid status a capsule can be driven to every
  status except \<^verbatim>\<open>created\<close>, which nothing returns to.
\<close>

theorem lifecycle_reachability:
  assumes "stateless_law eng" and "Status_Valid s"
  shows "lifecycle_reaches eng s d \<longleftrightarrow> d = s \<or> (Status_Valid d \<and> d \<noteq> capsuleStatusCreated)"
proof
  show "lifecycle_reaches eng s d \<Longrightarrow> d = s \<or> (Status_Valid d \<and> d \<noteq> capsuleStatusCreated)"
    by (rule lifecycle_reaches_target [OF assms(1)])
  show "d = s \<or> (Status_Valid d \<and> d \<noteq> capsuleStatusCreated) \<Longrightarrow> lifecycle_reaches eng s d"
    using lifecycle_cycle [OF assms] lifecycle_from_announced [OF assms(1)]
    unfolding lifecycle_reaches_def by (metis rtranclp.rtrancl_refl rtranclp_trans)
qed

theorem lifecycle_reachability_witness:
  "lifecycle_reaches table_engine ''stopping'' ''running'' \<and>
   \<not> lifecycle_reaches table_engine ''stopping'' ''created''"
  using lifecycle_reachability [OF table_engine_law, of "''stopping''" "''running''"]
    lifecycle_reachability [OF table_engine_law, of "''stopping''" "''created''"]
  by (simp add: Status_Valid_def status_defs)

end
