(* ===== verification/Capsule_Store.thy ===== *)
theory Capsule_Store
  imports Capsule_Types
begin

text \<open>
  \<^verbatim>\<open>src/capsule/store.go\<close>: the capsule store, an in-memory cache of pointers over an optional SQLite
  table.

  The cache maps identifiers to \<^emph>\<open>pointers\<close>, and the manager mutates the objects it gets from the
  store before it calls \<^verbatim>\<open>Update\<close>; what a failed \<^verbatim>\<open>Update\<close> leaves behind depends on that aliasing. The
  model therefore has a heap: \<open>st_heap\<close> is the list of \<open>Capsule\<close> objects, a pointer is an index in it,
  \<open>new_capsule\<close> allocates, \<open>poke\<close> writes through a pointer.

  The database is third-party code (\<^verbatim>\<open>database/sql\<close> with \<^verbatim>\<open>go-sqlite3\<close>): the parameter \<open>D\<close> executes a
  statement (\<open>None\<close> is an error; a failed statement changes nothing) and answers the one query.
  \<open>sqlite_law\<close> is what the code relies on: the statements of the source act on the rows by primary key
  and the query returns every row once. A JSON column holds the document \<open>encoding/json\<close> writes for a
  value (\<open>JsonOf\<close>), the empty text, or a text it cannot read back (\<open>Malformed\<close>).

  \<open>store_contract\<close> is the interface the manager programs against: what the five ways in which it
  uses the store do to the visible contents, on success and on failure. It is interpreted on the store
  for every database.
\<close>

section \<open>Definitions\<close>

type_synonym addr = nat

datatype 'a json_text = JsonOf 'a | EmptyText | Malformed

record row =
  row_id :: string
  row_cluster_id :: string
  row_name :: string
  row_status :: string
  row_version :: string
  row_orbit :: string
  row_tier :: string
  row_spec_json :: "CapsuleSpec json_text option"
  row_replicas_json :: "ReplicaState list json_text option"
  row_momentum_json :: "MomentumState json_text option"
  row_created_at :: int
  row_updated_at :: int

datatype stmt =
    CreateSchema
  | InsertRow row
  | UpdateWhereID "row \<Rightarrow> row" string
  | DeleteWhereID string

record 'db sqldb =
  db_Exec :: "stmt \<Rightarrow> 'db \<Rightarrow> 'db option"
  db_Query :: "'db \<Rightarrow> row list option"

record 'db Store =
  st_heap :: "Capsule list"
  st_capsules :: "(CapsuleID, addr) gomap"
  st_db :: "'db option"

datatype storeError =
    AlreadyExists CapsuleID
  | StoreNotFound CapsuleID
  | PersistFailed
  | UpdateFailed
  | DeleteFailed
  | MigrationFailed
  | LoadFailed

subsection \<open>The heap\<close>

definition deref :: "'db Store \<Rightarrow> addr \<Rightarrow> Capsule" where
  "deref s a = st_heap s ! a"

definition new_capsule :: "Capsule \<Rightarrow> 'db Store \<Rightarrow> addr \<times> 'db Store" where
  "new_capsule c s = (length (st_heap s), s\<lparr>st_heap := st_heap s @ [c]\<rparr>)"

definition poke :: "addr \<Rightarrow> (Capsule \<Rightarrow> Capsule) \<Rightarrow> 'db Store \<Rightarrow> 'db Store" where
  "poke a f s = s\<lparr>st_heap := (st_heap s)[a := f (deref s a)]\<rparr>"

subsection \<open>Persistence helpers\<close>

definition UnixMilli :: "time \<Rightarrow> int" where
  "UnixMilli t = t div Millisecond"

definition time_UnixMilli :: "int \<Rightarrow> time" where
  "time_UnixMilli ms = ms * Millisecond"

definition insertDB :: "'db sqldb \<Rightarrow> Capsule \<Rightarrow> 'db \<Rightarrow> 'db option" where
  "insertDB D c db = db_Exec D (InsertRow
     \<lparr>row_id = cap_ID c, row_cluster_id = cap_ClusterID c, row_name = spec_Name (cap_Spec c),
      row_status = cap_Status c, row_version = cap_Version c, row_orbit = spec_Orbit (cap_Spec c),
      row_tier = spec_Tier (cap_Spec c), row_spec_json = Some (JsonOf (cap_Spec c)),
      row_replicas_json = Some (JsonOf (cap_Replicas c)),
      row_momentum_json = Some (JsonOf (cap_Momentum c)),
      row_created_at = UnixMilli (cap_CreatedAt c), row_updated_at = UnixMilli (cap_UpdatedAt c)\<rparr>) db"

definition updateDB :: "'db sqldb \<Rightarrow> Capsule \<Rightarrow> 'db \<Rightarrow> 'db option" where
  "updateDB D c db = db_Exec D (UpdateWhereID (\<lambda>r. r
     \<lparr>row_cluster_id := cap_ClusterID c, row_name := spec_Name (cap_Spec c),
      row_status := cap_Status c, row_version := cap_Version c, row_orbit := spec_Orbit (cap_Spec c),
      row_tier := spec_Tier (cap_Spec c), row_spec_json := Some (JsonOf (cap_Spec c)),
      row_replicas_json := Some (JsonOf (cap_Replicas c)),
      row_momentum_json := Some (JsonOf (cap_Momentum c)),
      row_updated_at := UnixMilli (cap_UpdatedAt c)\<rparr>) (cap_ID c)) db"

text \<open>Reading one JSON column into a destination that holds the zero value; \<open>emptyOK\<close> for the columns
  whose empty text the code skips.\<close>

definition scanJSON :: "bool \<Rightarrow> 'a \<Rightarrow> 'a json_text option \<Rightarrow> 'a option" where
  "scanJSON emptyOK zero col = (case col of
     None \<Rightarrow> Some zero
   | Some EmptyText \<Rightarrow> if emptyOK then Some zero else None
   | Some (JsonOf v) \<Rightarrow> Some v
   | Some Malformed \<Rightarrow> None)"

definition scanRow :: "row \<Rightarrow> Capsule option" where
  "scanRow r = (case scanJSON False zeroSpec (row_spec_json r) of None \<Rightarrow> None
     | Some spec \<Rightarrow> (case scanJSON True [] (row_replicas_json r) of None \<Rightarrow> None
     | Some replicas \<Rightarrow> (case scanJSON True zeroMomentum (row_momentum_json r) of None \<Rightarrow> None
     | Some momentum \<Rightarrow> Some \<lparr>cap_ID = row_id r, cap_ClusterID = row_cluster_id r, cap_Spec = spec,
         cap_Status = row_status r, cap_Replicas = replicas, cap_Momentum = momentum,
         cap_Version = row_version r, cap_CreatedAt = time_UnixMilli (row_created_at r),
         cap_UpdatedAt = time_UnixMilli (row_updated_at r)\<rparr>)))"

fun load_rows :: "row list \<Rightarrow> 'db Store \<Rightarrow> 'db Store option" where
  "load_rows [] s = Some s"
| "load_rows (r # rs) s = (case scanRow r of
     None \<Rightarrow> None
   | Some c \<Rightarrow> (let (a, s) = new_capsule c s
       in load_rows rs (s\<lparr>st_capsules := mput (cap_ID c) a (st_capsules s)\<rparr>)))"

definition loadAll :: "'db sqldb \<Rightarrow> 'db \<Rightarrow> 'db Store \<Rightarrow> 'db Store option" where
  "loadAll D db s = (case db_Query D db of None \<Rightarrow> None | Some rows \<Rightarrow> load_rows rows s)"

subsection \<open>Operations\<close>

definition NewStore :: "'db Store" where
  "NewStore = \<lparr>st_heap = [], st_capsules = [], st_db = None\<rparr>"

definition OpenStore :: "'db sqldb \<Rightarrow> 'db \<Rightarrow> storeError + 'db Store" where
  "OpenStore D db = (case db_Exec D CreateSchema db of
     None \<Rightarrow> Inl MigrationFailed
   | Some db \<Rightarrow> (case loadAll D db \<lparr>st_heap = [], st_capsules = [], st_db = Some db\<rparr> of
       None \<Rightarrow> Inl LoadFailed
     | Some s \<Rightarrow> Inr s))"

definition Store_Create :: "'db sqldb \<Rightarrow> time \<Rightarrow> addr \<Rightarrow> 'db Store \<Rightarrow> 'db Store \<times> storeError option" where
  "Store_Create D now a s =
     (if map_of (st_capsules s) (cap_ID (deref s a)) \<noteq> None
      then (s, Some (AlreadyExists (cap_ID (deref s a))))
      else let s = poke a (\<lambda>c. c\<lparr>cap_CreatedAt := now, cap_UpdatedAt := now\<rparr>) s in
        case st_db s of
          None \<Rightarrow> (s\<lparr>st_capsules := mput (cap_ID (deref s a)) a (st_capsules s)\<rparr>, None)
        | Some db \<Rightarrow> (case insertDB D (deref s a) db of
            None \<Rightarrow> (s, Some PersistFailed)
          | Some db' \<Rightarrow> (s\<lparr>st_capsules := mput (cap_ID (deref s a)) a (st_capsules s),
              st_db := Some db'\<rparr>, None)))"

definition Store_Get :: "'db Store \<Rightarrow> CapsuleID \<Rightarrow> addr option" where
  "Store_Get s cid = map_of (st_capsules s) cid"

definition Store_GetByName :: "'db Store \<Rightarrow> string \<Rightarrow> addr option" where
  "Store_GetByName s name =
     find (\<lambda>a. spec_Name (cap_Spec (deref s a)) = name) (map snd (st_capsules s))"

definition Store_Update :: "'db sqldb \<Rightarrow> time \<Rightarrow> addr \<Rightarrow> 'db Store \<Rightarrow> 'db Store \<times> storeError option" where
  "Store_Update D now a s =
     (if map_of (st_capsules s) (cap_ID (deref s a)) = None
      then (s, Some (StoreNotFound (cap_ID (deref s a))))
      else let s = poke a (\<lambda>c. c\<lparr>cap_UpdatedAt := now\<rparr>) s in
        case st_db s of
          None \<Rightarrow> (s\<lparr>st_capsules := mput (cap_ID (deref s a)) a (st_capsules s)\<rparr>, None)
        | Some db \<Rightarrow> (case updateDB D (deref s a) db of
            None \<Rightarrow> (s, Some UpdateFailed)
          | Some db' \<Rightarrow> (s\<lparr>st_capsules := mput (cap_ID (deref s a)) a (st_capsules s),
              st_db := Some db'\<rparr>, None)))"

definition Store_Delete :: "'db sqldb \<Rightarrow> CapsuleID \<Rightarrow> 'db Store \<Rightarrow> 'db Store \<times> storeError option" where
  "Store_Delete D cid s =
     (if map_of (st_capsules s) cid = None then (s, Some (StoreNotFound cid))
      else case st_db s of
        None \<Rightarrow> (s\<lparr>st_capsules := mdel cid (st_capsules s)\<rparr>, None)
      | Some db \<Rightarrow> (case db_Exec D (DeleteWhereID cid) db of
          None \<Rightarrow> (s, Some DeleteFailed)
        | Some db' \<Rightarrow> (s\<lparr>st_capsules := mdel cid (st_capsules s), st_db := Some db'\<rparr>, None)))"

definition Store_List :: "'db Store \<Rightarrow> addr list" where
  "Store_List s = map snd (st_capsules s)"

definition Store_ListByOrbit :: "'db Store \<Rightarrow> string \<Rightarrow> addr list" where
  "Store_ListByOrbit s orbit =
     filter (\<lambda>a. spec_Orbit (cap_Spec (deref s a)) = orbit) (map snd (st_capsules s))"

definition Store_ListByLabels :: "'db Store \<Rightarrow> labels \<Rightarrow> addr list" where
  "Store_ListByLabels s ls =
     filter (\<lambda>a. LabelsMatch (spec_Labels (cap_Spec (deref s a))) ls) (map snd (st_capsules s))"

definition Store_ListByStatus :: "'db Store \<Rightarrow> CapsuleStatus \<Rightarrow> addr list" where
  "Store_ListByStatus s status =
     filter (\<lambda>a. cap_Status (deref s a) = status) (map snd (st_capsules s))"

definition Store_Count :: "'db Store \<Rightarrow> nat" where
  "Store_Count s = length (st_capsules s)"

subsection \<open>The ways the manager uses the store\<close>

text \<open>A fresh object stored; the cached object of \<open>cid\<close> mutated through its pointer, then stored; a fresh
  object that replaces the cached one.\<close>

definition store_new :: "'db sqldb \<Rightarrow> time \<Rightarrow> Capsule \<Rightarrow> 'db Store \<Rightarrow> 'db Store \<times> storeError option" where
  "store_new D now c s = (let (a, s) = new_capsule c s in Store_Create D now a s)"

definition store_mutate ::
  "'db sqldb \<Rightarrow> time \<Rightarrow> (Capsule \<Rightarrow> Capsule) \<Rightarrow> addr \<Rightarrow> 'db Store \<Rightarrow> 'db Store \<times> storeError option" where
  "store_mutate D now f a s = Store_Update D now a (poke a f s)"

definition store_replace :: "'db sqldb \<Rightarrow> time \<Rightarrow> Capsule \<Rightarrow> 'db Store \<Rightarrow> 'db Store \<times> storeError option" where
  "store_replace D now c s = (let (a, s) = new_capsule c s in Store_Update D now a s)"

subsection \<open>Abstraction\<close>

definition view :: "'db Store \<Rightarrow> CapsuleID \<Rightarrow> Capsule option" where
  "view s cid = map_option (deref s) (Store_Get s cid)"

definition wf_store :: "'db Store \<Rightarrow> bool" where
  "wf_store s \<longleftrightarrow> wf_map (st_capsules s) \<and>
     list_all (\<lambda>(cid, a). a < length (st_heap s) \<and> cap_ID (deref s a) = cid) (st_capsules s)"

text \<open>\<open>ok\<close> holds of the databases that can exist, \<open>tbl\<close> gives the row of a primary key.\<close>

definition sqlite_law :: "'db sqldb \<Rightarrow> ('db \<Rightarrow> bool) \<Rightarrow> ('db \<Rightarrow> string \<Rightarrow> row option) \<Rightarrow> bool" where
  "sqlite_law D ok tbl \<longleftrightarrow>
     (\<forall>db db'. ok db \<longrightarrow> db_Exec D CreateSchema db = Some db' \<longrightarrow> ok db' \<and> tbl db' = tbl db) \<and>
     (\<forall>r db db'. ok db \<longrightarrow> db_Exec D (InsertRow r) db = Some db' \<longrightarrow>
        ok db' \<and> tbl db (row_id r) = None \<and> tbl db' = (tbl db)(row_id r \<mapsto> r)) \<and>
     (\<forall>f cid db db'. ok db \<longrightarrow> (\<forall>r. row_id (f r) = row_id r) \<longrightarrow>
        db_Exec D (UpdateWhereID f cid) db = Some db' \<longrightarrow>
        ok db' \<and> tbl db' = (case tbl db cid of None \<Rightarrow> tbl db | Some r \<Rightarrow> (tbl db)(cid \<mapsto> f r))) \<and>
     (\<forall>cid db db'. ok db \<longrightarrow> db_Exec D (DeleteWhereID cid) db = Some db' \<longrightarrow>
        ok db' \<and> tbl db' = (tbl db)(cid := None)) \<and>
     (\<forall>db rs. ok db \<longrightarrow> db_Query D db = Some rs \<longrightarrow>
        distinct (map row_id rs) \<and> (\<forall>r. r \<in> set rs \<longleftrightarrow> tbl db (row_id r) = Some r)) \<and>
     (\<forall>db cid r. ok db \<longrightarrow> tbl db cid = Some r \<longrightarrow> row_id r = cid)"

text \<open>A table held as a list of rows, on which every statement succeeds but a duplicate insert.\<close>

fun rows_exec :: "stmt \<Rightarrow> row list \<Rightarrow> row list option" where
  "rows_exec CreateSchema rs = Some rs"
| "rows_exec (InsertRow r) rs = (if List.member (map row_id rs) (row_id r) then None else Some (rs @ [r]))"
| "rows_exec (UpdateWhereID f cid) rs = Some (map (\<lambda>r. if row_id r = cid then f r else r) rs)"
| "rows_exec (DeleteWhereID cid) rs = Some (filter (\<lambda>r. row_id r \<noteq> cid) rs)"

definition rows_db :: "row list sqldb" where
  "rows_db = \<lparr>db_Exec = rows_exec, db_Query = Some\<rparr>"

definition rows_ok :: "row list \<Rightarrow> bool" where
  "rows_ok rs \<longleftrightarrow> distinct (map row_id rs)"

definition rows_tbl :: "row list \<Rightarrow> string \<Rightarrow> row option" where
  "rows_tbl rs cid = find (\<lambda>r. row_id r = cid) rs"

text \<open>The row that represents a capsule; the creation time is written once, by the insert.\<close>

definition row_matches :: "Capsule \<Rightarrow> row \<Rightarrow> bool" where
  "row_matches c r \<longleftrightarrow> r = \<lparr>row_id = cap_ID c, row_cluster_id = cap_ClusterID c,
      row_name = spec_Name (cap_Spec c),
      row_status = cap_Status c, row_version = cap_Version c, row_orbit = spec_Orbit (cap_Spec c),
      row_tier = spec_Tier (cap_Spec c), row_spec_json = Some (JsonOf (cap_Spec c)),
      row_replicas_json = Some (JsonOf (cap_Replicas c)),
      row_momentum_json = Some (JsonOf (cap_Momentum c)),
      row_created_at = row_created_at r, row_updated_at = UnixMilli (cap_UpdatedAt c)\<rparr>"

definition db_synced :: "('db \<Rightarrow> bool) \<Rightarrow> ('db \<Rightarrow> string \<Rightarrow> row option) \<Rightarrow> 'db Store \<Rightarrow> bool" where
  "db_synced ok tbl s \<longleftrightarrow> (\<exists>db. st_db s = Some db \<and> ok db \<and>
     (\<forall>cid. rel_option row_matches (view s cid) (tbl db cid)))"

text \<open>The operations of a client of the store, and what a map does with the same operations.\<close>

datatype storeOp =
    OpCreate time Capsule
  | OpMutate time "Capsule \<Rightarrow> Capsule" CapsuleID
  | OpReplace time Capsule
  | OpDelete CapsuleID

fun store_op :: "'db sqldb \<Rightarrow> storeOp \<Rightarrow> 'db Store \<Rightarrow> 'db Store \<times> storeError option" where
  "store_op D (OpCreate now c) s = store_new D now c s"
| "store_op D (OpMutate now f cid) s = (case Store_Get s cid of
     None \<Rightarrow> (s, Some (StoreNotFound cid))
   | Some a \<Rightarrow> store_mutate D now f a s)"
| "store_op D (OpReplace now c) s = store_replace D now c s"
| "store_op D (OpDelete cid) s = Store_Delete D cid s"

fun op_ok :: "storeOp \<Rightarrow> bool" where
  "op_ok (OpMutate now f cid) \<longleftrightarrow> (\<forall>c. cap_ID (f c) = cap_ID c)"
| "op_ok _ \<longleftrightarrow> True"

fun is_mutate :: "storeOp \<Rightarrow> bool" where
  "is_mutate (OpMutate now f cid) = True"
| "is_mutate _ = False"

fun map_op :: "storeOp \<Rightarrow> (CapsuleID \<Rightarrow> Capsule option) \<Rightarrow> (CapsuleID \<Rightarrow> Capsule option) \<times> storeError option" where
  "map_op (OpCreate now c) m = (if m (cap_ID c) = None
     then (m(cap_ID c \<mapsto> c\<lparr>cap_CreatedAt := now, cap_UpdatedAt := now\<rparr>), None)
     else (m, Some (AlreadyExists (cap_ID c))))"
| "map_op (OpMutate now f cid) m = (case m cid of
     None \<Rightarrow> (m, Some (StoreNotFound cid))
   | Some c \<Rightarrow> (m(cid \<mapsto> (f c)\<lparr>cap_UpdatedAt := now\<rparr>), None))"
| "map_op (OpReplace now c) m = (if m (cap_ID c) = None
     then (m, Some (StoreNotFound (cap_ID c)))
     else (m(cap_ID c \<mapsto> c\<lparr>cap_UpdatedAt := now\<rparr>), None))"
| "map_op (OpDelete cid) m = (if m cid = None
     then (m, Some (StoreNotFound cid)) else (m(cid := None), None))"

fun store_ops :: "'db sqldb \<Rightarrow> storeOp list \<Rightarrow> 'db Store \<Rightarrow> 'db Store \<times> storeError option list" where
  "store_ops D [] s = (s, [])"
| "store_ops D (p # ps) s = (let (s1, r) = store_op D p s; (s2, rs) = store_ops D ps s1 in (s2, r # rs))"

fun map_ops :: "storeOp list \<Rightarrow> (CapsuleID \<Rightarrow> Capsule option) \<Rightarrow>
    (CapsuleID \<Rightarrow> Capsule option) \<times> storeError option list" where
  "map_ops [] m = (m, [])"
| "map_ops (p # ps) m = (let (m1, r) = map_op p m; (m2, rs) = map_ops ps m1 in (m2, r # rs))"

definition same_stored :: "Capsule \<Rightarrow> Capsule \<Rightarrow> bool" where
  "same_stored c c' \<longleftrightarrow> c' = c\<lparr>cap_CreatedAt := cap_CreatedAt c',
     cap_UpdatedAt := cap_UpdatedAt c - cap_UpdatedAt c mod Millisecond\<rparr>"

text \<open>A capsule and an empty persistent store, for the concrete runs.\<close>

definition empty_persistent :: "row list Store" where
  "empty_persistent = \<lparr>st_heap = [], st_capsules = [], st_db = Some []\<rparr>"

definition full_disk :: "unit sqldb" where
  "full_disk = \<lparr>db_Exec = (\<lambda>st db. None), db_Query = (\<lambda>db. Some [])\<rparr>"

section \<open>Lemmas\<close>

subsection \<open>The heap\<close>

lemma wf_store_get:
  assumes "wf_store s" "map_of (st_capsules s) i = Some a"
  shows "a < length (st_heap s)" "cap_ID (deref s a) = i"
  using assms by (auto simp: wf_store_def list_all_iff dest!: map_of_SomeD)

lemma wf_store_get_inj:
  "wf_store s \<Longrightarrow> map_of (st_capsules s) i = Some a \<Longrightarrow> map_of (st_capsules s) j = Some a \<Longrightarrow> i = j"
  using wf_store_get(2) by metis

lemma wf_storeI:
  assumes "wf_map (st_capsules s)"
    and "\<And>i a. map_of (st_capsules s) i = Some a \<Longrightarrow> a < length (st_heap s) \<and> cap_ID (deref s a) = i"
  shows "wf_store s"
  using assms by (auto simp: wf_store_def list_all_iff map_of_mem)

lemma wf_store_map: "wf_store s \<Longrightarrow> wf_map (st_capsules s)"
  by (simp add: wf_store_def)

lemma deref_append [simp]: "a < length (st_heap s) \<Longrightarrow> deref (s\<lparr>st_heap := st_heap s @ cs\<rparr>) a = deref s a"
  by (simp add: deref_def nth_append)

lemma deref_sel [simp]:
  "deref (s\<lparr>st_capsules := m\<rparr>) = deref s" "deref (s\<lparr>st_db := d\<rparr>) = deref s"
  by (simp_all add: deref_def fun_eq_iff)

lemma poke_sel [simp]:
  "st_capsules (poke a f s) = st_capsules s" "st_db (poke a f s) = st_db s"
  "length (st_heap (poke a f s)) = length (st_heap s)"
  by (simp_all add: poke_def)

lemma deref_poke:
  "a < length (st_heap s) \<Longrightarrow> deref (poke a f s) b = (if b = a then f (deref s a) else deref s b)"
  by (simp add: poke_def deref_def)

lemma poke_poke: "a < length (st_heap s) \<Longrightarrow> poke a g (poke a f s) = poke a (\<lambda>c. g (f c)) s"
  by (simp add: poke_def deref_def)

lemma view_cong:
  assumes "st_capsules s' = st_capsules s" "\<And>i a. map_of (st_capsules s) i = Some a \<Longrightarrow> deref s' a = deref s a"
  shows "view s' = view s"
  using assms by (auto simp: view_def Store_Get_def fun_eq_iff option.map_sel intro!: option.map_cong)

lemma new_capsule_props:
  assumes "wf_store s" "new_capsule c s = (a, s1)"
  shows "wf_store s1" "view s1 = view s" "deref s1 a = c" "a < length (st_heap s1)"
    "st_capsules s1 = st_capsules s" "st_db s1 = st_db s" "a \<notin> ran (map_of (st_capsules s))"
proof -
  from assms(2) have s1: "s1 = s\<lparr>st_heap := st_heap s @ [c]\<rparr>" "a = length (st_heap s)"
    by (auto simp: new_capsule_def)
  show "wf_store s1" using assms(1) wf_store_get [OF assms(1)]
    by (intro wf_storeI) (auto simp: s1 wf_store_def less_Suc_eq)
  show "view s1 = view s" using wf_store_get [OF assms(1)] by (intro view_cong) (auto simp: s1)
  show "a \<notin> ran (map_of (st_capsules s))" using wf_store_get(1) [OF assms(1)] s1 by (auto simp: ran_def)
qed (use assms(2) in \<open>auto simp: new_capsule_def deref_def\<close>)

lemma poke_fresh:
  assumes "wf_store s" "a < length (st_heap s)" "a \<notin> ran (map_of (st_capsules s))"
  shows "wf_store (poke a f s)" "view (poke a f s) = view s"
proof -
  have keep: "deref (poke a f s) b = deref s b" if "map_of (st_capsules s) i = Some b" for i b
    using that assms by (auto simp: deref_poke ran_def)
  show "wf_store (poke a f s)"
    using assms(1) keep wf_store_get [OF assms(1)] by (intro wf_storeI) (auto simp: wf_store_def)
  show "view (poke a f s) = view s" using keep by (intro view_cong) auto
qed

lemma poke_cached:
  assumes "wf_store s" "map_of (st_capsules s) i = Some a" "cap_ID (f (deref s a)) = i"
  shows "wf_store (poke a f s)" "view (poke a f s) = (view s)(i \<mapsto> f (deref s a))"
proof -
  have a: "a < length (st_heap s)" using wf_store_get(1) [OF assms(1,2)] .
  show "wf_store (poke a f s)"
    using assms(1,3) a wf_store_get [OF assms(1)] wf_store_get_inj [OF assms(1,2)]
    by (intro wf_storeI) (auto simp: wf_store_def deref_poke)
  show "view (poke a f s) = (view s)(i \<mapsto> f (deref s a))"
  proof (rule ext)
    fix j
    show "view (poke a f s) j = ((view s)(i \<mapsto> f (deref s a))) j"
      using a assms(2) wf_store_get_inj [OF assms(1,2), of j]
      by (cases "map_of (st_capsules s) j") (auto simp: view_def Store_Get_def deref_poke)
  qed
qed

lemma cache_put:
  assumes "wf_store s" "a < length (st_heap s)"
  shows "wf_store (s\<lparr>st_capsules := mput (cap_ID (deref s a)) a (st_capsules s)\<rparr>)"
    "view (s\<lparr>st_capsules := mput (cap_ID (deref s a)) a (st_capsules s)\<rparr>) =
     (view s)(cap_ID (deref s a) \<mapsto> deref s a)"
  using assms wf_store_get [OF assms(1)]
  by (auto intro!: wf_storeI simp: wf_store_map view_def Store_Get_def fun_eq_iff split: if_splits)

lemma view_db [simp]: "view (s\<lparr>st_db := d\<rparr>) = view s"
  by (simp add: view_def Store_Get_def fun_eq_iff)

lemma wf_store_db [simp]: "wf_store (s\<lparr>st_db := d\<rparr>) = wf_store s"
  by (simp add: wf_store_def)

lemma view_None_iff: "view s i = None \<longleftrightarrow> map_of (st_capsules s) i = None"
  by (simp add: view_def Store_Get_def)

lemma view_Some_iff: "view s i = Some c \<longleftrightarrow> (\<exists>a. map_of (st_capsules s) i = Some a \<and> deref s a = c)"
  by (simp add: view_def Store_Get_def)

lemma view_ID: "wf_store s \<Longrightarrow> view s i = Some c \<Longrightarrow> cap_ID c = i"
  by (auto simp: view_Some_iff dest: wf_store_get(2))

subsection \<open>Operations and the visible contents\<close>

lemma Store_Create_cases:
  assumes "Store_Create D now a s = (s', r)" "wf_store s" "a < length (st_heap s)"
    "a \<notin> ran (map_of (st_capsules s))"
  shows "wf_store s'"
    and "r \<noteq> None \<Longrightarrow> view s' = view s"
    and "r = None \<Longrightarrow> view s (cap_ID (deref s a)) = None \<and>
      view s' = (view s)(cap_ID (deref s a) \<mapsto> (deref s a)\<lparr>cap_CreatedAt := now, cap_UpdatedAt := now\<rparr>)"
    and "view s (cap_ID (deref s a)) \<noteq> None \<Longrightarrow> r = Some (AlreadyExists (cap_ID (deref s a)))"
proof -
  let ?s = "poke a (\<lambda>c. c\<lparr>cap_CreatedAt := now, cap_UpdatedAt := now\<rparr>) s"
  note fresh = poke_fresh [OF assms(2-4), of "\<lambda>c. c\<lparr>cap_CreatedAt := now, cap_UpdatedAt := now\<rparr>"]
  have put: "wf_store (?s\<lparr>st_capsules := mput (cap_ID (deref s a)) a (st_capsules s)\<rparr>)"
    "view (?s\<lparr>st_capsules := mput (cap_ID (deref s a)) a (st_capsules s)\<rparr>) =
     (view s)(cap_ID (deref s a) \<mapsto> (deref s a)\<lparr>cap_CreatedAt := now, cap_UpdatedAt := now\<rparr>)"
    using cache_put [OF fresh(1), of a] assms(3) fresh(2) by (simp_all add: deref_poke)
  have id: "cap_ID (deref ?s a) = cap_ID (deref s a)" using assms(3) by (simp add: deref_poke)
  note def = assms(1) [unfolded Store_Create_def Let_def id]
  show "wf_store s'" using def fresh put assms(2) by (auto split: if_splits option.splits)
  show "r \<noteq> None \<Longrightarrow> view s' = view s" using def fresh by (auto split: if_splits option.splits)
  show "r = None \<Longrightarrow> view s (cap_ID (deref s a)) = None \<and>
      view s' = (view s)(cap_ID (deref s a) \<mapsto> (deref s a)\<lparr>cap_CreatedAt := now, cap_UpdatedAt := now\<rparr>)"
    using def put by (auto simp: view_None_iff split: if_splits option.splits)
  show "view s (cap_ID (deref s a)) \<noteq> None \<Longrightarrow> r = Some (AlreadyExists (cap_ID (deref s a)))"
    using def by (auto simp: view_None_iff)
qed

lemma Store_Update_cached:
  assumes "Store_Update D now a s = (s', r)" "wf_store s" "map_of (st_capsules s) i = Some a"
  shows "wf_store s'" "view s' = (view s)(i \<mapsto> (deref s a)\<lparr>cap_UpdatedAt := now\<rparr>)"
proof -
  let ?s = "poke a (\<lambda>c. c\<lparr>cap_UpdatedAt := now\<rparr>) s"
  have a: "a < length (st_heap s)" "cap_ID (deref s a) = i" using wf_store_get [OF assms(2,3)] .
  note poked = poke_cached [OF assms(2,3), of "\<lambda>c. c\<lparr>cap_UpdatedAt := now\<rparr>"]
  have put: "wf_store (?s\<lparr>st_capsules := mput i a (st_capsules s)\<rparr>)"
    "view (?s\<lparr>st_capsules := mput i a (st_capsules s)\<rparr>) = view ?s"
    using cache_put [of ?s a] poked a by (simp_all add: deref_poke)
  have id: "cap_ID (deref ?s a) = i" using a by (simp add: deref_poke)
  note def = assms(1) [unfolded Store_Update_def Let_def id a(2)]
  show "wf_store s'" using def poked(1) put assms a by (auto split: if_splits option.splits)
  show "view s' = (view s)(i \<mapsto> (deref s a)\<lparr>cap_UpdatedAt := now\<rparr>)"
    using def poked(2) put assms a by (auto split: if_splits option.splits)
qed

lemma Store_Update_fresh:
  assumes "Store_Update D now a s = (s', r)" "wf_store s" "a < length (st_heap s)"
    "a \<notin> ran (map_of (st_capsules s))"
  shows "wf_store s'"
    and "r \<noteq> None \<Longrightarrow> view s' = view s"
    and "r = None \<Longrightarrow> view s (cap_ID (deref s a)) \<noteq> None \<and>
      view s' = (view s)(cap_ID (deref s a) \<mapsto> (deref s a)\<lparr>cap_UpdatedAt := now\<rparr>)"
    and "view s (cap_ID (deref s a)) = None \<Longrightarrow> r = Some (StoreNotFound (cap_ID (deref s a)))"
proof -
  let ?s = "poke a (\<lambda>c. c\<lparr>cap_UpdatedAt := now\<rparr>) s"
  note fresh = poke_fresh [OF assms(2-4), of "\<lambda>c. c\<lparr>cap_UpdatedAt := now\<rparr>"]
  have put: "wf_store (?s\<lparr>st_capsules := mput (cap_ID (deref s a)) a (st_capsules s)\<rparr>)"
    "view (?s\<lparr>st_capsules := mput (cap_ID (deref s a)) a (st_capsules s)\<rparr>) =
     (view s)(cap_ID (deref s a) \<mapsto> (deref s a)\<lparr>cap_UpdatedAt := now\<rparr>)"
    using cache_put [OF fresh(1), of a] assms(3) fresh(2) by (simp_all add: deref_poke)
  have id: "cap_ID (deref ?s a) = cap_ID (deref s a)" using assms(3) by (simp add: deref_poke)
  note def = assms(1) [unfolded Store_Update_def Let_def id]
  show "wf_store s'" using def fresh put assms(2) by (auto split: if_splits option.splits)
  show "r \<noteq> None \<Longrightarrow> view s' = view s" using def fresh by (auto split: if_splits option.splits)
  show "r = None \<Longrightarrow> view s (cap_ID (deref s a)) \<noteq> None \<and>
      view s' = (view s)(cap_ID (deref s a) \<mapsto> (deref s a)\<lparr>cap_UpdatedAt := now\<rparr>)"
    using def put by (auto simp: view_None_iff split: if_splits option.splits)
  show "view s (cap_ID (deref s a)) = None \<Longrightarrow> r = Some (StoreNotFound (cap_ID (deref s a)))"
    using def by (auto simp: view_None_iff)
qed

lemma cache_del:
  assumes "wf_store s"
  shows "wf_store (s\<lparr>st_capsules := mdel i (st_capsules s)\<rparr>)"
    "view (s\<lparr>st_capsules := mdel i (st_capsules s)\<rparr>) = (view s)(i := None)"
  using assms wf_store_get [OF assms]
  by (auto intro!: wf_storeI simp: wf_store_map view_def Store_Get_def fun_eq_iff split: if_splits)

lemma Store_Delete_cases:
  assumes "Store_Delete D i s = (s', r)" "wf_store s"
  shows "wf_store s'"
    and "r \<noteq> None \<Longrightarrow> view s' = view s"
    and "r = None \<Longrightarrow> view s i \<noteq> None \<and> view s' = (view s)(i := None)"
    and "view s i = None \<Longrightarrow> r = Some (StoreNotFound i)"
  using assms cache_del [OF assms(2), of i]
  by (auto simp: Store_Delete_def view_None_iff split: if_splits option.splits)

subsection \<open>The contract of the store\<close>

text \<open>
  \<open>mutate\<close> takes effect in the visible contents \<^emph>\<open>even when it returns an error\<close>: the object was
  changed through the cached pointer before the write. The other operations change nothing on error.
\<close>

locale store_contract =
  fixes look :: "'s \<Rightarrow> CapsuleID \<Rightarrow> Capsule option"
    and wf :: "'s \<Rightarrow> bool"
    and get :: "'s \<Rightarrow> CapsuleID \<Rightarrow> 'p option"
    and obj :: "'s \<Rightarrow> 'p \<Rightarrow> Capsule"
    and add :: "time \<Rightarrow> Capsule \<Rightarrow> 's \<Rightarrow> 's \<times> 'e option"
    and mutate :: "time \<Rightarrow> (Capsule \<Rightarrow> Capsule) \<Rightarrow> 'p \<Rightarrow> 's \<Rightarrow> 's \<times> 'e option"
    and replace :: "time \<Rightarrow> Capsule \<Rightarrow> 's \<Rightarrow> 's \<times> 'e option"
    and remove :: "CapsuleID \<Rightarrow> 's \<Rightarrow> 's \<times> 'e option"
  assumes look_get: "look s i = map_option (obj s) (get s i)"
    and look_ID: "wf s \<Longrightarrow> look s i = Some c \<Longrightarrow> cap_ID c = i"
    and add_ok: "wf s \<Longrightarrow> add now c s = (s', None) \<Longrightarrow> look s (cap_ID c) = None \<and>
      look s' = (look s)(cap_ID c \<mapsto> c\<lparr>cap_CreatedAt := now, cap_UpdatedAt := now\<rparr>)"
    and add_err: "wf s \<Longrightarrow> add now c s = (s', Some e) \<Longrightarrow> look s' = look s"
    and add_wf: "wf s \<Longrightarrow> add now c s = (s', r) \<Longrightarrow> wf s'"
    and mutate_look: "wf s \<Longrightarrow> get s i = Some p \<Longrightarrow> cap_ID (f (obj s p)) = i \<Longrightarrow>
      mutate now f p s = (s', r) \<Longrightarrow> look s' = (look s)(i \<mapsto> (f (obj s p))\<lparr>cap_UpdatedAt := now\<rparr>)"
    and mutate_wf: "wf s \<Longrightarrow> get s i = Some p \<Longrightarrow> cap_ID (f (obj s p)) = i \<Longrightarrow>
      mutate now f p s = (s', r) \<Longrightarrow> wf s'"
    and replace_ok: "wf s \<Longrightarrow> replace now c s = (s', None) \<Longrightarrow> look s (cap_ID c) \<noteq> None \<and>
      look s' = (look s)(cap_ID c \<mapsto> c\<lparr>cap_UpdatedAt := now\<rparr>)"
    and replace_err: "wf s \<Longrightarrow> replace now c s = (s', Some e) \<Longrightarrow> look s' = look s"
    and replace_wf: "wf s \<Longrightarrow> replace now c s = (s', r) \<Longrightarrow> wf s'"
    and remove_ok: "wf s \<Longrightarrow> remove i s = (s', None) \<Longrightarrow> look s i \<noteq> None \<and> look s' = (look s)(i := None)"
    and remove_err: "wf s \<Longrightarrow> remove i s = (s', Some e) \<Longrightarrow> look s' = look s"
    and remove_wf: "wf s \<Longrightarrow> remove i s = (s', r) \<Longrightarrow> wf s'"
begin

lemma add_dom: "wf s \<Longrightarrow> add now c s = (s', r) \<Longrightarrow>
    dom (look s') = (if r = None then insert (cap_ID c) (dom (look s)) else dom (look s))"
  using add_ok [of s now c s'] add_err [of s now c s'] by (cases r) auto

lemma mutate_dom: "wf s \<Longrightarrow> get s i = Some p \<Longrightarrow> cap_ID (f (obj s p)) = i \<Longrightarrow>
    mutate now f p s = (s', r) \<Longrightarrow> dom (look s') = dom (look s)"
  by (frule (3) mutate_look) (auto simp: look_get dom_def)

lemma replace_dom: "wf s \<Longrightarrow> replace now c s = (s', r) \<Longrightarrow> dom (look s') = dom (look s)"
  using replace_ok [of s now c s'] replace_err [of s now c s'] by (cases r) auto

lemma remove_dom: "wf s \<Longrightarrow> remove i s = (s', r) \<Longrightarrow>
    dom (look s') = (if r = None then dom (look s) - {i} else dom (look s))"
  using remove_ok [of s i s'] remove_err [of s i s'] by (cases r) auto

lemma add_remove: "wf s \<Longrightarrow> add now c s = (s1, None) \<Longrightarrow> remove (cap_ID c) s1 = (s2, None) \<Longrightarrow>
    look s2 = look s"
  by (frule (1) add_wf, frule (1) add_ok, frule (1) remove_ok) auto

lemma add_twice: "wf s \<Longrightarrow> add now c s = (s1, None) \<Longrightarrow> cap_ID c' = cap_ID c \<Longrightarrow>
    add now' c' s1 = (s2, r) \<Longrightarrow> r \<noteq> None \<and> look s2 = look s1"
  by (frule (1) add_wf, frule (1) add_ok, cases r) (auto dest: add_ok add_err)

end

interpretation cstore: store_contract view wf_store Store_Get deref "store_new D" "store_mutate D"
  "store_replace D" "Store_Delete D" for D :: "'db sqldb"
proof
  fix s s' :: "'db Store" and now :: time and c :: Capsule and e :: storeError and r i p f
  obtain a s1 where new: "new_capsule c s = (a, s1)" by force
  note props = new_capsule_props [OF _ new]
  show "view s i = map_option (deref s) (Store_Get s i)" by (simp add: view_def)
  show "wf_store s \<Longrightarrow> view s i = Some c \<Longrightarrow> cap_ID c = i" by (rule view_ID)
  show "wf_store s \<Longrightarrow> store_new D now c s = (s', None) \<Longrightarrow> view s (cap_ID c) = None \<and>
      view s' = (view s)(cap_ID c \<mapsto> c\<lparr>cap_CreatedAt := now, cap_UpdatedAt := now\<rparr>)"
    using Store_Create_cases(3) [of D now a s1 s' None] props by (simp add: store_new_def new)
  show "wf_store s \<Longrightarrow> store_new D now c s = (s', Some e) \<Longrightarrow> view s' = view s"
    using Store_Create_cases(2) [of D now a s1 s' "Some e"] props by (simp add: store_new_def new)
  show "wf_store s \<Longrightarrow> store_new D now c s = (s', r) \<Longrightarrow> wf_store s'"
    using Store_Create_cases(1) [of D now a s1 s' r] props by (simp add: store_new_def new)
  show "wf_store s \<Longrightarrow> store_replace D now c s = (s', None) \<Longrightarrow> view s (cap_ID c) \<noteq> None \<and>
      view s' = (view s)(cap_ID c \<mapsto> c\<lparr>cap_UpdatedAt := now\<rparr>)"
    using Store_Update_fresh(3) [of D now a s1 s' None] props by (simp add: store_replace_def new)
  show "wf_store s \<Longrightarrow> store_replace D now c s = (s', Some e) \<Longrightarrow> view s' = view s"
    using Store_Update_fresh(2) [of D now a s1 s' "Some e"] props by (simp add: store_replace_def new)
  show "wf_store s \<Longrightarrow> store_replace D now c s = (s', r) \<Longrightarrow> wf_store s'"
    using Store_Update_fresh(1) [of D now a s1 s' r] props by (simp add: store_replace_def new)
  assume "wf_store s" "Store_Get s i = Some p" "cap_ID (f (deref s p)) = i" "store_mutate D now f p s = (s', r)"
  moreover from this have "map_of (st_capsules s) i = Some p" "p < length (st_heap s)"
    by (auto simp: Store_Get_def dest: wf_store_get)
  ultimately show "view s' = (view s)(i \<mapsto> (f (deref s p))\<lparr>cap_UpdatedAt := now\<rparr>)" "wf_store s'"
    using Store_Update_cached [of D now p "poke p f s" s' r i] poke_cached [of s i p f]
    by (auto simp: store_mutate_def deref_poke)
qed (auto dest: Store_Delete_cases)

lemma store_mutate_err:
  assumes "wf_store s" "Store_Get s i = Some a" "cap_ID (f (deref s a)) = i"
    "store_mutate D now f a s = (s', Some e)"
  shows "st_db s' = st_db s \<and> e = UpdateFailed"
proof -
  have "map_of (st_capsules s) i = Some a" "a < length (st_heap s)"
    using assms(2) wf_store_get(1) [OF assms(1)] by (auto simp: Store_Get_def)
  then show ?thesis
    using assms(3,4) by (auto simp: store_mutate_def Store_Update_def Let_def deref_poke split: option.splits)
qed

subsection \<open>Refinement of a map\<close>

lemma Store_Create_mem:
  assumes "st_db s = None" "Store_Create D now a s = (s', r)" "a < length (st_heap s)"
  shows "st_db s' = None" "r = (if view s (cap_ID (deref s a)) = None then None
     else Some (AlreadyExists (cap_ID (deref s a))))"
  using assms by (auto simp: Store_Create_def view_None_iff Let_def split: if_splits)

lemma Store_Update_mem:
  assumes "st_db s = None" "Store_Update D now a s = (s', r)" "a < length (st_heap s)"
  shows "st_db s' = None" "r = (if view s (cap_ID (deref s a)) = None
     then Some (StoreNotFound (cap_ID (deref s a))) else None)"
  using assms by (auto simp: Store_Update_def view_None_iff Let_def split: if_splits)

lemma store_op_wf:
  assumes "wf_store s" "op_ok p" "store_op D p s = (s', r)"
  shows "wf_store s'"
proof (cases p)
  case (OpMutate now f i)
  show ?thesis
  proof (cases "Store_Get s i")
    case (Some a)
    then have "cap_ID (f (deref s a)) = i"
      using assms OpMutate wf_store_get(2) [OF assms(1)] by (simp add: Store_Get_def)
    then show ?thesis using cstore.mutate_wf [OF assms(1) Some] assms(3) OpMutate Some by simp
  qed (use assms OpMutate in simp)
qed (use assms in \<open>auto dest: cstore.add_wf cstore.replace_wf cstore.remove_wf\<close>)

lemma store_new_mem:
  assumes "wf_store s" "st_db s = None" "store_new D now c s = (s', r)"
  shows "st_db s' = None" "(view s', r) = map_op (OpCreate now c) (view s)"
proof -
  obtain a s1 where new: "new_capsule c s = (a, s1)" by force
  note props = new_capsule_props [OF assms(1) new]
  have run: "Store_Create D now a s1 = (s', r)" using assms(3) new by (simp add: store_new_def)
  have s1: "st_db s1 = None" "a \<notin> ran (map_of (st_capsules s1))" using props assms(2) by simp_all
  note mem = Store_Create_mem [OF s1(1) run props(4)]
    and cs = Store_Create_cases [OF run props(1,4) s1(2)]
  show "st_db s' = None" using mem by simp
  show "(view s', r) = map_op (OpCreate now c) (view s)"
    using mem(2) cs(2,3) props(2,3) by (cases "view s (cap_ID c)") simp_all
qed

lemma store_replace_mem:
  assumes "wf_store s" "st_db s = None" "store_replace D now c s = (s', r)"
  shows "st_db s' = None" "(view s', r) = map_op (OpReplace now c) (view s)"
proof -
  obtain a s1 where new: "new_capsule c s = (a, s1)" by force
  note props = new_capsule_props [OF assms(1) new]
  have run: "Store_Update D now a s1 = (s', r)" using assms(3) new by (simp add: store_replace_def)
  have s1: "st_db s1 = None" "a \<notin> ran (map_of (st_capsules s1))" using props assms(2) by simp_all
  note mem = Store_Update_mem [OF s1(1) run props(4)]
    and cs = Store_Update_fresh [OF run props(1,4) s1(2)]
  show "st_db s' = None" using mem by simp
  show "(view s', r) = map_op (OpReplace now c) (view s)"
    using mem(2) cs(2,3) props(2,3) by (cases "view s (cap_ID c)") simp_all
qed

lemma store_mutate_mem:
  assumes "wf_store s" "st_db s = None" "Store_Get s i = Some a" "cap_ID (f (deref s a)) = i"
    "store_mutate D now f a s = (s', r)"
  shows "st_db s' = None" "(view s', r) = map_op (OpMutate now f i) (view s)"
proof -
  have a: "a < length (st_heap s)" "map_of (st_capsules s) i = Some a"
    using wf_store_get(1) [OF assms(1)] assms(3) by (auto simp: Store_Get_def)
  have "view (poke a f s) (cap_ID (deref (poke a f s) a)) \<noteq> None"
    using poke_cached(2) [of s i a f] assms a by (simp add: deref_poke)
  then have "st_db s' = None" "r = None"
    using Store_Update_mem [of "poke a f s" D now a s' r] assms a by (auto simp: store_mutate_def)
  moreover have "view s i = Some (deref s a)" using assms(3) by (simp add: view_def)
  ultimately show "st_db s' = None" "(view s', r) = map_op (OpMutate now f i) (view s)"
    using cstore.mutate_look [OF assms(1,3-5)] by simp_all
qed

lemma store_op_mem:
  assumes "wf_store s" "st_db s = None" "op_ok p" "store_op D p s = (s', r)"
  shows "st_db s' = None \<and> (view s', r) = map_op p (view s)"
proof (cases p)
  case (OpMutate now f i)
  show ?thesis
  proof (cases "Store_Get s i")
    case (Some a)
    then have "cap_ID (f (deref s a)) = i"
      using assms OpMutate wf_store_get(2) [OF assms(1)] by (simp add: Store_Get_def)
    then show ?thesis using store_mutate_mem [OF assms(1,2) Some] assms(4) OpMutate Some by simp
  qed (use assms OpMutate in \<open>simp add: view_def\<close>)
next
  case (OpDelete i)
  then have del: "Store_Delete D i s = (s', r)" using assms(4) by simp
  show ?thesis using Store_Delete_cases [OF del assms(1)] assms(2) del OpDelete
    by (auto simp: Store_Delete_def view_None_iff split: if_splits)
next
  case (OpCreate now c)
  then show ?thesis using store_new_mem [OF assms(1,2)] assms(4) by (simp del: map_op.simps)
next
  case (OpReplace now c)
  then show ?thesis using store_replace_mem [OF assms(1,2)] assms(4) by (simp del: map_op.simps)
qed

subsection \<open>Durability\<close>

lemma row_matches_insert:
  "row_matches c \<lparr>row_id = cap_ID c, row_cluster_id = cap_ClusterID c, row_name = spec_Name (cap_Spec c),
      row_status = cap_Status c, row_version = cap_Version c, row_orbit = spec_Orbit (cap_Spec c),
      row_tier = spec_Tier (cap_Spec c), row_spec_json = Some (JsonOf (cap_Spec c)),
      row_replicas_json = Some (JsonOf (cap_Replicas c)),
      row_momentum_json = Some (JsonOf (cap_Momentum c)),
      row_created_at = t, row_updated_at = UnixMilli (cap_UpdatedAt c)\<rparr>"
  by (simp add: row_matches_def)

lemma sqlite_law_insert:
  "sqlite_law D ok tbl \<Longrightarrow> ok db \<Longrightarrow> db_Exec D (InsertRow r) db = Some db' \<Longrightarrow>
   ok db' \<and> tbl db (row_id r) = None \<and> tbl db' = (tbl db)(row_id r \<mapsto> r)"
  unfolding sqlite_law_def by blast

lemma sqlite_law_update:
  "sqlite_law D ok tbl \<Longrightarrow> ok db \<Longrightarrow> (\<And>r. row_id (f r) = row_id r) \<Longrightarrow>
   db_Exec D (UpdateWhereID f i) db = Some db' \<Longrightarrow>
   ok db' \<and> tbl db' = (case tbl db i of None \<Rightarrow> tbl db | Some r \<Rightarrow> (tbl db)(i \<mapsto> f r))"
  unfolding sqlite_law_def by blast

lemma sqlite_law_delete:
  "sqlite_law D ok tbl \<Longrightarrow> ok db \<Longrightarrow> db_Exec D (DeleteWhereID i) db = Some db' \<Longrightarrow>
   ok db' \<and> tbl db' = (tbl db)(i := None)"
  unfolding sqlite_law_def by blast

lemma sqlite_law_schema:
  "sqlite_law D ok tbl \<Longrightarrow> ok db \<Longrightarrow> db_Exec D CreateSchema db = Some db' \<Longrightarrow> ok db' \<and> tbl db' = tbl db"
  unfolding sqlite_law_def by blast

lemma sqlite_law_query:
  "sqlite_law D ok tbl \<Longrightarrow> ok db \<Longrightarrow> db_Query D db = Some rs \<Longrightarrow>
   distinct (map row_id rs) \<and> (\<forall>r. r \<in> set rs \<longleftrightarrow> tbl db (row_id r) = Some r)"
  unfolding sqlite_law_def by blast

lemma sqlite_law_id: "sqlite_law D ok tbl \<Longrightarrow> ok db \<Longrightarrow> tbl db i = Some r \<Longrightarrow> row_id r = i"
  unfolding sqlite_law_def by blast

lemma insertDB_law:
  assumes "sqlite_law D ok tbl" "ok db" "insertDB D c db = Some db'"
  shows "ok db'" "\<exists>r. row_matches c r \<and> tbl db' = (tbl db)(cap_ID c \<mapsto> r)"
  using sqlite_law_insert [OF assms(1,2) assms(3) [unfolded insertDB_def]] row_matches_insert by auto

lemma updateDB_law:
  assumes "sqlite_law D ok tbl" "ok db" "updateDB D c db = Some db'" "tbl db (cap_ID c) \<noteq> None"
  shows "ok db'" "\<exists>r. row_matches c r \<and> tbl db' = (tbl db)(cap_ID c \<mapsto> r)"
proof -
  obtain r where r: "tbl db (cap_ID c) = Some r" using assms(4) by blast
  then have id: "row_id r = cap_ID c" using sqlite_law_id [OF assms(1,2)] by simp
  let ?f = "\<lambda>r. r\<lparr>row_cluster_id := cap_ClusterID c, row_name := spec_Name (cap_Spec c),
      row_status := cap_Status c, row_version := cap_Version c, row_orbit := spec_Orbit (cap_Spec c),
      row_tier := spec_Tier (cap_Spec c), row_spec_json := Some (JsonOf (cap_Spec c)),
      row_replicas_json := Some (JsonOf (cap_Replicas c)),
      row_momentum_json := Some (JsonOf (cap_Momentum c)), row_updated_at := UnixMilli (cap_UpdatedAt c)\<rparr>"
  have "row_id (?f r) = row_id r" for r by simp
  from sqlite_law_update [OF assms(1,2) this assms(3) [unfolded updateDB_def]]
  have "ok db' \<and> tbl db' = (tbl db)(cap_ID c \<mapsto> ?f r)" using r by simp
  moreover have "row_matches c (?f r)" using id by (simp add: row_matches_def)
  ultimately show "ok db'" "\<exists>r. row_matches c r \<and> tbl db' = (tbl db)(cap_ID c \<mapsto> r)" by blast+
qed

lemma db_synced_upd:
  assumes "\<And>j. j \<noteq> i \<Longrightarrow> rel_option row_matches (view s j) (tbl db j)" "row_matches c r"
    "view s' = (view s)(i \<mapsto> c)" "st_db s' = Some db'" "ok db'" "tbl db' = (tbl db)(i \<mapsto> r)"
  shows "db_synced ok tbl s'"
  using assms by (auto simp: db_synced_def)

lemma Store_Update_synced:
  assumes law: "sqlite_law D ok tbl" and run: "Store_Update D now a s = (s', None)"
    and db: "st_db s = Some db" "ok db" and a: "a < length (st_heap s)"
    and others: "\<And>j. j \<noteq> cap_ID (deref s a) \<Longrightarrow> rel_option row_matches (view s j) (tbl db j)"
    and known: "tbl db (cap_ID (deref s a)) \<noteq> None"
    and view': "view s' = (view s)(cap_ID (deref s a) \<mapsto> (deref s a)\<lparr>cap_UpdatedAt := now\<rparr>)"
  shows "db_synced ok tbl s'"
proof -
  let ?c = "(deref s a)\<lparr>cap_UpdatedAt := now\<rparr>"
  obtain db' where db': "updateDB D ?c db = Some db'" "st_db s' = Some db'"
    using run db a by (auto simp: Store_Update_def Let_def deref_poke split: if_splits option.splits)
  have "tbl db (cap_ID ?c) \<noteq> None" using known by simp
  from updateDB_law [OF law db(2) db'(1) this]
  obtain r where "ok db'" "row_matches ?c r" "tbl db' = (tbl db)(cap_ID (deref s a) \<mapsto> r)" by auto
  then show ?thesis
    using db_synced_upd [of "cap_ID (deref s a)" s tbl db ?c r s' db' ok] others view' db'(2) by blast
qed

lemma store_new_synced:
  assumes law: "sqlite_law D ok tbl" and "wf_store s" "db_synced ok tbl s" "store_new D now c s = (s', r)"
  shows "db_synced ok tbl s'"
proof -
  obtain a s1 where new: "new_capsule c s = (a, s1)" by force
  note props = new_capsule_props [OF assms(2) new]
  have run: "Store_Create D now a s1 = (s', r)" using assms(4) new by (simp add: store_new_def)
  obtain db where db: "st_db s = Some db" "ok db" and rel: "rel_option row_matches (view s j) (tbl db j)" for j
    using assms(3) by (auto simp: db_synced_def)
  let ?c = "c\<lparr>cap_CreatedAt := now, cap_UpdatedAt := now\<rparr>"
  show ?thesis
  proof (cases r)
    case None
    then obtain db' where db': "insertDB D ?c db = Some db'" "st_db s' = Some db'"
      using run db props by (auto simp: Store_Create_def Let_def deref_poke split: if_splits option.splits)
    have "view s' = (view s)(cap_ID ?c \<mapsto> ?c)" using Store_Create_cases(3) [OF run] props None by simp
    moreover obtain row where "ok db'" "row_matches ?c row" "tbl db' = (tbl db)(cap_ID ?c \<mapsto> row)"
      using insertDB_law [OF law db(2) db'(1)] by blast
    ultimately show ?thesis
      using db_synced_upd [of "cap_ID ?c" s tbl db ?c row s' db' ok] rel db'(2) by blast
  next
    case (Some e)
    then have "view s' = view s" "st_db s' = st_db s"
      using Store_Create_cases(2) [OF run] props run
      by (auto simp: Store_Create_def Let_def split: if_splits option.splits)
    with assms(3) show ?thesis by (simp add: db_synced_def)
  qed
qed

lemma store_replace_synced:
  assumes law: "sqlite_law D ok tbl" and "wf_store s" "db_synced ok tbl s" "store_replace D now c s = (s', r)"
  shows "db_synced ok tbl s'"
proof -
  obtain a s1 where new: "new_capsule c s = (a, s1)" by force
  note props = new_capsule_props [OF assms(2) new]
  have run: "Store_Update D now a s1 = (s', r)" using assms(4) new by (simp add: store_replace_def)
  obtain db where db: "st_db s = Some db" "ok db" and rel: "rel_option row_matches (view s j) (tbl db j)" for j
    using assms(3) by (auto simp: db_synced_def)
  show ?thesis
  proof (cases r)
    case None
    then have "view s (cap_ID c) \<noteq> None" "view s' = (view s)(cap_ID c \<mapsto> c\<lparr>cap_UpdatedAt := now\<rparr>)"
      using Store_Update_fresh(3) [OF run] props by auto
    moreover from this have "tbl db (cap_ID c) \<noteq> None"
      using rel [of "cap_ID c"] by (cases "tbl db (cap_ID c)") auto
    ultimately show ?thesis
      using Store_Update_synced [OF law run [unfolded None], of db] props db rel by simp
  next
    case (Some e)
    then have "view s' = view s" "st_db s' = st_db s"
      using Store_Update_fresh(2) [OF run] props run
      by (auto simp: Store_Update_def Let_def split: if_splits option.splits)
    with assms(3) show ?thesis by (simp add: db_synced_def)
  qed
qed

lemma store_mutate_synced:
  assumes law: "sqlite_law D ok tbl" and wf: "wf_store s" and syn: "db_synced ok tbl s"
    and get: "Store_Get s i = Some a" and keep: "cap_ID (f (deref s a)) = i"
    and run: "store_mutate D now f a s = (s', None)"
  shows "db_synced ok tbl s'"
proof -
  obtain db where db: "st_db s = Some db" "ok db" and rel: "rel_option row_matches (view s j) (tbl db j)" for j
    using syn by (auto simp: db_synced_def)
  have a: "map_of (st_capsules s) i = Some a" "a < length (st_heap s)"
    using get wf_store_get(1) [OF wf] by (auto simp: Store_Get_def)
  let ?s = "poke a f s"
  have view: "view ?s = (view s)(i \<mapsto> f (deref s a))" using poke_cached(2) [of s i a f] wf a keep by simp
  have "tbl db i \<noteq> None"
    using rel [of i] a(1) by (cases "tbl db i") (auto simp: view_def Store_Get_def)
  moreover have "view s' = (view ?s)(i \<mapsto> (f (deref s a))\<lparr>cap_UpdatedAt := now\<rparr>)"
    using cstore.mutate_look [OF wf get keep run] view by simp
  ultimately show ?thesis
    using Store_Update_synced [OF law, of now a ?s s' db] run db rel a keep view
    by (simp add: store_mutate_def deref_poke)
qed

lemma Store_Delete_synced:
  assumes law: "sqlite_law D ok tbl" and "wf_store s" "db_synced ok tbl s" "Store_Delete D i s = (s', r)"
  shows "db_synced ok tbl s'"
proof -
  obtain db where db: "st_db s = Some db" "ok db" and rel: "rel_option row_matches (view s j) (tbl db j)" for j
    using assms(3) by (auto simp: db_synced_def)
  show ?thesis
  proof (cases r)
    case None
    then obtain db' where "db_Exec D (DeleteWhereID i) db = Some db'" "st_db s' = Some db'"
      using assms(4) db by (auto simp: Store_Delete_def split: if_splits option.splits)
    moreover from this have "ok db'" "tbl db' = (tbl db)(i := None)"
      using sqlite_law_delete [OF law db(2)] by auto
    moreover have "view s' = (view s)(i := None)"
      using Store_Delete_cases(3) [OF assms(4,2)] None by simp
    ultimately show ?thesis using rel by (auto simp: db_synced_def)
  next
    case (Some e)
    then have "view s' = view s" "st_db s' = st_db s"
      using Store_Delete_cases(2) [OF assms(4,2)] assms(4)
      by (auto simp: Store_Delete_def split: if_splits option.splits)
    with assms(3) show ?thesis by (simp add: db_synced_def)
  qed
qed

lemma store_op_synced:
  assumes "sqlite_law D ok tbl" "wf_store s" "db_synced ok tbl s" "op_ok p" "store_op D p s = (s', r)"
    "r = None \<or> \<not> is_mutate p"
  shows "db_synced ok tbl s'"
proof (cases p)
  case (OpMutate now f i)
  show ?thesis
  proof (cases "Store_Get s i")
    case (Some a)
    then have "cap_ID (f (deref s a)) = i"
      using assms OpMutate wf_store_get(2) [OF assms(2)] by (simp add: Store_Get_def)
    then show ?thesis using store_mutate_synced [OF assms(1-3) Some] assms(5,6) OpMutate Some by simp
  qed (use assms OpMutate in simp)
next
  case (OpCreate now c)
  then show ?thesis using store_new_synced [OF assms(1-3)] assms(5) by simp
next
  case (OpReplace now c)
  then show ?thesis using store_replace_synced [OF assms(1-3)] assms(5) by simp
next
  case (OpDelete i)
  then show ?thesis using Store_Delete_synced [OF assms(1-3)] assms(5) by simp
qed

lemma store_ops_synced:
  assumes "sqlite_law D ok tbl" "wf_store s" "db_synced ok tbl s" "list_all op_ok ps"
    "store_ops D ps s = (s', rs)" "list_all2 (\<lambda>p r. r = None \<or> \<not> is_mutate p) ps rs"
  shows "wf_store s' \<and> db_synced ok tbl s'"
  using assms(2-)
proof (induction ps arbitrary: s rs)
  case (Cons p ps)
  obtain s1 r rs' where "store_op D p s = (s1, r)" "store_ops D ps s1 = (s', rs')" "rs = r # rs'"
    using Cons.prems(4) by (auto split: prod.splits)
  with Cons show ?case using store_op_wf store_op_synced [OF assms(1)] by (simp, blast)
qed simp

subsection \<open>Reloading\<close>

lemma scanRow_matches:
  assumes "row_matches c r"
  shows "\<exists>c'. scanRow r = Some c' \<and> same_stored c c'"
proof -
  have "scanRow r = Some (c\<lparr>cap_CreatedAt := time_UnixMilli (row_created_at r),
      cap_UpdatedAt := time_UnixMilli (UnixMilli (cap_UpdatedAt c))\<rparr>)"
    by (subst (1) assms [unfolded row_matches_def]) (simp add: scanRow_def scanJSON_def)
  moreover have "time_UnixMilli (UnixMilli t) = t - t mod Millisecond" for t
    by (simp add: time_UnixMilli_def UnixMilli_def minus_mod_eq_div_mult)
  ultimately show ?thesis by (simp add: same_stored_def)
qed

lemma scanRow_ID: "scanRow r = Some c \<Longrightarrow> cap_ID c = row_id r"
  by (auto simp: scanRow_def split: option.splits)

lemma load_rows_view:
  assumes "wf_store s" "distinct (map row_id rs)" "\<And>r. r \<in> set rs \<Longrightarrow> scanRow r \<noteq> None"
  shows "\<exists>s'. load_rows rs s = Some s' \<and> wf_store s' \<and> st_db s' = st_db s \<and>
    (\<forall>r \<in> set rs. view s' (row_id r) = scanRow r) \<and> (\<forall>i. i \<notin> row_id ` set rs \<longrightarrow> view s' i = view s i)"
  using assms
proof (induction rs arbitrary: s)
  case (Cons r rs)
  obtain c where c: "scanRow r = Some c" using Cons.prems(3) by fastforce
  obtain a s1 where new: "new_capsule c s = (a, s1)" by force
  note props = new_capsule_props [OF Cons.prems(1) new]
  let ?s2 = "s1\<lparr>st_capsules := mput (cap_ID c) a (st_capsules s1)\<rparr>"
  have s2: "wf_store ?s2" "view ?s2 = (view s)(row_id r \<mapsto> c)" "st_db ?s2 = st_db s"
    using cache_put [OF props(1,4)] props scanRow_ID [OF c] by simp_all
  obtain s' where "load_rows rs ?s2 = Some s'" "wf_store s'" "st_db s' = st_db s"
    "\<forall>q \<in> set rs. view s' (row_id q) = scanRow q" "\<forall>i. i \<notin> row_id ` set rs \<longrightarrow> view s' i = view ?s2 i"
    using Cons.IH [OF s2(1)] Cons.prems(2,3) s2(3) by fastforce
  moreover have "row_id r \<notin> row_id ` set rs" using Cons.prems(2) by auto
  ultimately show ?case using c new s2(2) by auto
qed simp

lemma rows_tbl_Some: "rows_ok rs \<Longrightarrow> rows_tbl rs i = Some r \<longleftrightarrow> r \<in> set rs \<and> row_id r = i"
proof (induction rs)
  case (Cons q rs)
  then show ?case by (auto simp: rows_tbl_def rows_ok_def)
qed (simp add: rows_tbl_def)

lemma rows_tbl_append:
  "rows_tbl (rs @ [r]) i = (case rows_tbl rs i of None \<Rightarrow> if row_id r = i then Some r else None | x \<Rightarrow> x)"
  by (induction rs) (auto simp: rows_tbl_def)

lemma rows_tbl_None: "rows_tbl rs i = None \<longleftrightarrow> i \<notin> row_id ` set rs"
  by (auto simp: rows_tbl_def find_None_iff)

lemma rows_tbl_map:
  "(\<And>r. row_id (f r) = row_id r) \<Longrightarrow>
   rows_tbl (map (\<lambda>r. if row_id r = i then f r else r) rs) j =
     (if j = i then map_option f (rows_tbl rs i) else rows_tbl rs j)"
  by (induction rs) (auto simp: rows_tbl_def)

lemma rows_tbl_filter: "rows_tbl (filter (\<lambda>r. row_id r \<noteq> i) rs) j = (if j = i then None else rows_tbl rs j)"
  by (induction rs) (auto simp: rows_tbl_def)

lemma rows_db_law: "sqlite_law rows_db rows_ok rows_tbl"
  unfolding sqlite_law_def
proof (intro conjI allI impI)
  fix r :: row and db db' assume ok: "rows_ok db" and "db_Exec rows_db (InsertRow r) db = Some db'"
  then have "db' = db @ [r]" "row_id r \<notin> row_id ` set db" by (auto simp: rows_db_def split: if_splits)
  then show "rows_ok db'" and none: "rows_tbl db (row_id r) = None"
    using ok by (auto simp: rows_ok_def rows_tbl_None)
  show "rows_tbl db' = (rows_tbl db)(row_id r \<mapsto> r)"
    using none by (auto simp: \<open>db' = db @ [r]\<close> rows_tbl_append fun_eq_iff split: option.split)
next
  fix f i and db db' :: "row list"
  assume ok: "rows_ok db" and f: "\<forall>r. row_id (f r) = row_id r"
    and "db_Exec rows_db (UpdateWhereID f i) db = Some db'"
  then have db': "db' = map (\<lambda>r. if row_id r = i then f r else r) db" by (simp add: rows_db_def)
  have "map row_id db' = map row_id db" using f by (simp add: db')
  then show "rows_ok db'" using ok by (simp only: rows_ok_def)
  show "rows_tbl db' = (case rows_tbl db i of None \<Rightarrow> rows_tbl db | Some r \<Rightarrow> (rows_tbl db)(i \<mapsto> f r))"
    using f rows_tbl_map [of f i db] by (auto simp: db' fun_eq_iff split: option.splits)
next
  fix i and db db' :: "row list"
  assume ok: "rows_ok db" and "db_Exec rows_db (DeleteWhereID i) db = Some db'"
  then have "db' = filter (\<lambda>r. row_id r \<noteq> i) db" by (simp add: rows_db_def)
  then show "rows_ok db'" "rows_tbl db' = (rows_tbl db)(i := None)"
    using ok by (auto simp: rows_ok_def distinct_map inj_on_def rows_tbl_filter fun_eq_iff)
qed (auto simp: rows_db_def rows_ok_def rows_tbl_Some)

section \<open>Properties\<close>

text \<open>
  C6. Without a database the store is a map: every sequence of the operations its clients perform
  (store a new capsule, mutate the cached object and store it, replace it by a received one, delete it)
  leaves exactly the contents and returns exactly the errors that the same operations have on a finite map
  from identifiers to capsules, although the store holds pointers and its clients write through them.
\<close>

theorem store_refines_map:
  assumes "wf_store s" and "st_db s = None" and "list_all op_ok ps"
  shows "case store_ops D ps s of (s', rs) \<Rightarrow> (view s', rs) = map_ops ps (view s) \<and> wf_store s'"
  using assms
proof (induction ps arbitrary: s)
  case (Cons p ps)
  obtain s1 r where step: "store_op D p s = (s1, r)" by force
  have s1: "wf_store s1" "st_db s1 = None" "map_op p (view s) = (view s1, r)"
    using store_op_wf [OF Cons.prems(1) _ step] store_op_mem [OF Cons.prems(1,2) _ step] Cons.prems(3) by auto
  show ?case using Cons.IH [OF s1(1,2)] Cons.prems(3) step s1(3) by (auto split: prod.splits)
qed simp

theorem store_refines_map_witness:
  "case store_ops rows_db [OpCreate 7 sample_capsule, OpMutate 8 (\<lambda>c. c\<lparr>cap_Status := ''announced''\<rparr>) ''c1'',
       OpDelete ''c2''] NewStore of
     (s', rs) \<Rightarrow> (view s', rs) = map_ops [OpCreate 7 sample_capsule,
       OpMutate 8 (\<lambda>c. c\<lparr>cap_Status := ''announced''\<rparr>) ''c1'', OpDelete ''c2''] (view (NewStore :: row list Store))
     \<and> wf_store s'"
  by (rule store_refines_map) (simp_all add: NewStore_def wf_store_def)



text \<open>
  A mutation whose database write fails is not undone: the new value is what every reader of the store
  sees from then on, while the database still has the old row, so that the change is lost on restart.
\<close>

theorem failed_mutation_stays_visible:
  assumes "wf_store s" and "Store_Get s i = Some a" and "cap_ID (f (deref s a)) = i"
    and "store_mutate D now f a s = (s', Some e)"
  shows "view s' i = Some ((f (deref s a))\<lparr>cap_UpdatedAt := now\<rparr>) \<and> st_db s' = st_db s \<and> e = UpdateFailed"
  using cstore.mutate_look [OF assms] store_mutate_err [OF assms] by simp

theorem failed_mutation_stays_visible_witness:
  "case store_mutate full_disk 9 (\<lambda>c. c\<lparr>cap_Status := ''stopped''\<rparr>) 0
       \<lparr>st_heap = [sample_capsule], st_capsules = [(''c1'', 0)], st_db = Some ()\<rparr> of
     (s', r) \<Rightarrow> r = Some UpdateFailed \<and> map_option cap_Status (view s' ''c1'') = Some ''stopped''"
proof -
  let ?s = "\<lparr>st_heap = [sample_capsule], st_capsules = [(''c1'', 0)], st_db = Some ()\<rparr>"
  obtain s' r where run: "store_mutate full_disk 9 (\<lambda>c. c\<lparr>cap_Status := ''stopped''\<rparr>) 0 ?s = (s', r)"
    by force
  then have r: "r = Some UpdateFailed"
    by (auto simp: store_mutate_def Store_Update_def poke_def deref_def sample_capsule_def updateDB_def
        full_disk_def Let_def split: if_splits)
  have "wf_store ?s" "Store_Get ?s ''c1'' = Some 0" "cap_ID (deref ?s 0) = ''c1''"
    by (simp_all add: wf_store_def Store_Get_def deref_def sample_capsule_def wf_map_def)
  then show ?thesis
    using failed_mutation_stays_visible [of ?s "''c1''" 0 "\<lambda>c. c\<lparr>cap_Status := ''stopped''\<rparr>" full_disk 9 s'
        UpdateFailed] run r by simp
qed

end
