(* ===== verification/Capsule_Manager.thy ===== *)
theory Capsule_Manager
  imports Capsule_Spec Capsule_Lifecycle Capsule_Store
begin

text \<open>
  \<^verbatim>\<open>src/capsule/manager.go\<close> and the counters of \<^verbatim>\<open>src/capsule/metrics.go\<close>: the manager owns a store and
  one lifecycle machine per capsule. Its methods are state transformers on \<open>Manager\<close>; the events it hands
  to its handler are appended to \<open>mg_events\<close>, with the value the capsule has at that moment. Each method
  takes the time \<open>now\<close> at which it runs; \<open>Manager_Create\<close> also takes the random identifier that
  \<^verbatim>\<open>NewCapsuleID\<close> draws.

  \<open>mg_inv\<close> is the invariant of the manager: the store is well formed and exactly the stored capsules have
  a machine. \<open>status_agrees\<close> says that the stored status of a capsule is the state of its machine.
\<close>

section \<open>Definitions\<close>

subsection \<open>Metrics\<close>

record CountingMetrics =
  cm_Created :: int
  cm_Received :: int
  cm_Announced :: int
  cm_Withdrawn :: int
  cm_Transitions :: int
  cm_ScalingEvents :: int

definition IncCreated :: "CountingMetrics \<Rightarrow> CountingMetrics" where
  "IncCreated c = c\<lparr>cm_Created := s64 (cm_Created c + 1)\<rparr>"

definition IncReceived :: "CountingMetrics \<Rightarrow> CountingMetrics" where
  "IncReceived c = c\<lparr>cm_Received := s64 (cm_Received c + 1)\<rparr>"

definition IncAnnounced :: "CountingMetrics \<Rightarrow> CountingMetrics" where
  "IncAnnounced c = c\<lparr>cm_Announced := s64 (cm_Announced c + 1)\<rparr>"

definition IncWithdrawn :: "CountingMetrics \<Rightarrow> CountingMetrics" where
  "IncWithdrawn c = c\<lparr>cm_Withdrawn := s64 (cm_Withdrawn c + 1)\<rparr>"

definition IncStatusTransition :: "CountingMetrics \<Rightarrow> CountingMetrics" where
  "IncStatusTransition c = c\<lparr>cm_Transitions := s64 (cm_Transitions c + 1)\<rparr>"

definition IncScalingTriggered :: "CountingMetrics \<Rightarrow> CountingMetrics" where
  "IncScalingTriggered c = c\<lparr>cm_ScalingEvents := s64 (cm_ScalingEvents c + 1)\<rparr>"

definition NewCountingMetrics :: CountingMetrics where
  "NewCountingMetrics = \<lparr>cm_Created = 0, cm_Received = 0, cm_Announced = 0, cm_Withdrawn = 0,
     cm_Transitions = 0, cm_ScalingEvents = 0\<rparr>"

subsection \<open>State\<close>

definition EventCapsuleCreated :: string where "EventCapsuleCreated = ''capsule.created''"
definition EventCapsuleUpdated :: string where "EventCapsuleUpdated = ''capsule.updated''"
definition EventCapsuleDeleted :: string where "EventCapsuleDeleted = ''capsule.deleted''"
definition EventCapsuleReceived :: string where "EventCapsuleReceived = ''capsule.received''"
definition EventCapsuleAnnounced :: string where "EventCapsuleAnnounced = ''capsule.announced''"
definition EventCapsuleRunning :: string where "EventCapsuleRunning = ''capsule.running''"
definition EventCapsuleStopping :: string where "EventCapsuleStopping = ''capsule.stopping''"
definition EventCapsuleStopped :: string where "EventCapsuleStopped = ''capsule.stopped''"
definition EventCapsuleStatusChanged :: string where "EventCapsuleStatusChanged = ''capsule.status_changed''"

record ManagerEvent =
  me_Type :: string
  me_CapsuleID :: CapsuleID
  me_Capsule :: Capsule
  me_Timestamp :: time

record 'db Manager =
  mg_store :: "'db Store"
  mg_lifecycles :: "(CapsuleID, Lifecycle) gomap"
  mg_events :: "ManagerEvent list"
  mg_metrics :: CountingMetrics

datatype managerError =
    ClusterIDRequired
  | InvalidSpec "specError list"
  | StoreFailed storeError
  | CapsuleNotFound CapsuleID
  | FireFailed CapsuleID lifecycleError
  | InvalidStatus CapsuleStatus

subsection \<open>Operations\<close>

fun restore_lifecycles :: "Capsule list \<Rightarrow> (CapsuleID, Lifecycle) gomap \<Rightarrow> (CapsuleID, Lifecycle) gomap" where
  "restore_lifecycles [] ls = ls"
| "restore_lifecycles (c # cs) ls =
     restore_lifecycles cs (mput (cap_ID c) (NewLifecycle (cap_ID c) (cap_Status c)) ls)"

definition NewManager :: "'db Store \<Rightarrow> 'db Manager" where
  "NewManager s = \<lparr>mg_store = s, mg_lifecycles = restore_lifecycles (map (deref s) (Store_List s)) [],
     mg_events = [], mg_metrics = NewCountingMetrics\<rparr>"

definition emit :: "time \<Rightarrow> string \<Rightarrow> Capsule \<Rightarrow> 'db Manager \<Rightarrow> 'db Manager" where
  "emit now eventType c m = m\<lparr>mg_events := mg_events m @
     [\<lparr>me_Type = eventType, me_CapsuleID = cap_ID c, me_Capsule = c, me_Timestamp = now\<rparr>]\<rparr>"

definition statusEventType :: "CapsuleStatus \<Rightarrow> string" where
  "statusEventType status =
     (if status = capsuleStatusAnnounced then EventCapsuleAnnounced
      else if status = capsuleStatusRunning then EventCapsuleRunning
      else if status = capsuleStatusStopping then EventCapsuleStopping
      else if status = capsuleStatusStopped then EventCapsuleStopped
      else EventCapsuleStatusChanged)"

definition onLifecycleTransition ::
  "'db sqldb \<Rightarrow> time \<Rightarrow> LifecycleEvent \<Rightarrow> 'db Manager \<Rightarrow> 'db Manager" where
  "onLifecycleTransition D now event m = (case Store_Get (mg_store m) (le_CapsuleID event) of
     None \<Rightarrow> m
   | Some a \<Rightarrow> (let
       (s, err) = store_mutate D now (\<lambda>c. c\<lparr>cap_Status := le_To event, cap_UpdatedAt := now\<rparr>) a (mg_store m);
       m = m\<lparr>mg_store := s\<rparr>
     in if err \<noteq> None then m
        else emit now (statusEventType (le_To event)) (deref s a)
               (m\<lparr>mg_metrics := IncStatusTransition (mg_metrics m)\<rparr>)))"

definition getLifecycle :: "'db Manager \<Rightarrow> CapsuleID \<Rightarrow> Lifecycle option" where
  "getLifecycle m cid = map_of (mg_lifecycles m) cid"

definition Manager_Fire ::
  "engine \<Rightarrow> 'db sqldb \<Rightarrow> time \<Rightarrow> CapsuleID \<Rightarrow> string \<Rightarrow> 'db Manager \<Rightarrow> 'db Manager \<times> managerError option" where
  "Manager_Fire eng D now cid trigger m = (case getLifecycle m cid of
     None \<Rightarrow> (m, Some (CapsuleNotFound cid))
   | Some lc \<Rightarrow> (case Lifecycle_Fire eng lc trigger of
       (lc', Inl e) \<Rightarrow> (m\<lparr>mg_lifecycles := mput cid lc' (mg_lifecycles m)\<rparr>, Some (FireFailed cid e))
     | (lc', Inr event) \<Rightarrow>
         (onLifecycleTransition D now event (m\<lparr>mg_lifecycles := mput cid lc' (mg_lifecycles m)\<rparr>), None)))"

definition Manager_Status :: "'db Manager \<Rightarrow> CapsuleID \<Rightarrow> CapsuleStatus option" where
  "Manager_Status m cid = map_option Lifecycle_State (getLifecycle m cid)"

definition Announce where "Announce eng D now cid = Manager_Fire eng D now cid TriggerAnnounce"
definition StartElection where "StartElection eng D now cid = Manager_Fire eng D now cid TriggerElectionStarted"
definition WinElection where "WinElection eng D now cid = Manager_Fire eng D now cid TriggerElectionWon"
definition ElectionTimeout where "ElectionTimeout eng D now cid = Manager_Fire eng D now cid TriggerElectionTimeout"
definition StartExecution where "StartExecution eng D now cid = Manager_Fire eng D now cid TriggerExecutionStart"
definition MarkRunning where "MarkRunning eng D now cid = Manager_Fire eng D now cid TriggerContainerReady"
definition ExecutionFailed where "ExecutionFailed eng D now cid = Manager_Fire eng D now cid TriggerExecutionFailed"
definition StopCapsule where "StopCapsule eng D now cid = Manager_Fire eng D now cid TriggerStopRequested"
definition MarkStopped where "MarkStopped eng D now cid = Manager_Fire eng D now cid TriggerContainerStopped"
definition NodeFailed where "NodeFailed eng D now cid = Manager_Fire eng D now cid TriggerNodeFailed"
definition ScaleUp where "ScaleUp eng D now cid = Manager_Fire eng D now cid TriggerScaleUpNeeded"
definition ScaleDown where "ScaleDown eng D now cid = Manager_Fire eng D now cid TriggerScaleDownNeeded"

definition created_capsule :: "CapsuleID \<Rightarrow> time \<Rightarrow> string \<Rightarrow> CapsuleSpec \<Rightarrow> Capsule" where
  "created_capsule cid now clusterID spec =
     \<lparr>cap_ID = cid, cap_ClusterID = clusterID, cap_Spec = spec, cap_Status = capsuleStatusCreated,
      cap_Replicas = [],
      cap_Momentum = \<lparr>ms_Current = mc_Base (spec_MomentumConfig spec),
        ms_Base = mc_Base (spec_MomentumConfig spec), ms_LastAdjusted = now\<rparr>,
      cap_Version = ''1'', cap_CreatedAt = now, cap_UpdatedAt = now\<rparr>"

definition Manager_Create ::
  "engine \<Rightarrow> 'db sqldb \<Rightarrow> CapsuleID \<Rightarrow> time \<Rightarrow> string \<Rightarrow> CapsuleSpec \<Rightarrow> 'db Manager \<Rightarrow>
   'db Manager \<times> managerError option" where
  "Manager_Create eng D newID now clusterID spec m =
     (if clusterID = '''' then (m, Some ClusterIDRequired)
      else let spec = DefaultSpec spec in
        if ValidateSpec spec \<noteq> [] then (m, Some (InvalidSpec (ValidateSpec spec)))
        else let
          c = created_capsule newID now clusterID spec;
          (s, err) = store_new D now c (mg_store m);
          m = m\<lparr>mg_store := s\<rparr>
        in case err of
             Some e \<Rightarrow> (m, Some (StoreFailed e))
           | None \<Rightarrow> (let
               m = m\<lparr>mg_lifecycles := mput newID (NewLifecycle newID capsuleStatusCreated) (mg_lifecycles m),
                     mg_metrics := IncCreated (mg_metrics m)\<rparr>;
               m = emit now EventCapsuleCreated (c\<lparr>cap_CreatedAt := now, cap_UpdatedAt := now\<rparr>) m;
               (m, _) = Announce eng D now newID m
             in (m, None)))"

definition Manager_Update ::
  "'db sqldb \<Rightarrow> time \<Rightarrow> CapsuleID \<Rightarrow> CapsuleSpec \<Rightarrow> 'db Manager \<Rightarrow> 'db Manager \<times> managerError option" where
  "Manager_Update D now cid spec m = (let spec = DefaultSpec spec in
     if ValidateSpec spec \<noteq> [] then (m, Some (InvalidSpec (ValidateSpec spec)))
     else case Store_Get (mg_store m) cid of
       None \<Rightarrow> (m, Some (CapsuleNotFound cid))
     | Some a \<Rightarrow> (let
         (s, err) = store_mutate D now (\<lambda>c. c\<lparr>cap_Spec := spec, cap_UpdatedAt := now\<rparr>) a (mg_store m);
         m = m\<lparr>mg_store := s\<rparr>
       in case err of
            Some e \<Rightarrow> (m, Some (StoreFailed e))
          | None \<Rightarrow> (emit now EventCapsuleUpdated (deref s a) m, None)))"

definition Manager_Delete ::
  "'db sqldb \<Rightarrow> time \<Rightarrow> CapsuleID \<Rightarrow> 'db Manager \<Rightarrow> 'db Manager \<times> managerError option" where
  "Manager_Delete D now cid m = (case Store_Get (mg_store m) cid of
     None \<Rightarrow> (m, Some (CapsuleNotFound cid))
   | Some a \<Rightarrow> (case Store_Delete D cid (mg_store m) of
       (s, Some e) \<Rightarrow> (m\<lparr>mg_store := s\<rparr>, Some (StoreFailed e))
     | (s, None) \<Rightarrow> (emit now EventCapsuleDeleted (deref s a)
          (m\<lparr>mg_store := s, mg_lifecycles := mdel cid (mg_lifecycles m)\<rparr>), None)))"

definition Manager_Receive ::
  "'db sqldb \<Rightarrow> time \<Rightarrow> Capsule \<Rightarrow> 'db Manager \<Rightarrow> 'db Manager \<times> managerError option" where
  "Manager_Receive D now c m =
     (if Store_Get (mg_store m) (cap_ID c) \<noteq> None
      then case store_replace D now c (mg_store m) of
          (s, Some e) \<Rightarrow> (m\<lparr>mg_store := s\<rparr>, Some (StoreFailed e))
        | (s, None) \<Rightarrow> (emit now EventCapsuleReceived (c\<lparr>cap_UpdatedAt := now\<rparr>)
             (m\<lparr>mg_store := s, mg_metrics := IncReceived (mg_metrics m)\<rparr>), None)
      else case store_new D now c (mg_store m) of
          (s, Some e) \<Rightarrow> (m\<lparr>mg_store := s\<rparr>, Some (StoreFailed e))
        | (s, None) \<Rightarrow> (let
            initial = (if \<not> Status_Valid (cap_Status c) then capsuleStatusAnnounced else cap_Status c);
            m = m\<lparr>mg_store := s,
                  mg_lifecycles := mput (cap_ID c) (NewLifecycle (cap_ID c) initial) (mg_lifecycles m),
                  mg_metrics := IncReceived (mg_metrics m)\<rparr>
          in (emit now EventCapsuleReceived (c\<lparr>cap_CreatedAt := now, cap_UpdatedAt := now\<rparr>) m, None)))"

fun assign_replica :: "time \<Rightarrow> ReplicaID \<Rightarrow> string \<Rightarrow> ReplicaState list \<Rightarrow> ReplicaState list" where
  "assign_replica now replicaID nodeID [] =
     [\<lparr>rs_ReplicaID = replicaID, rs_NodeID = nodeID, rs_Status = capsuleStatusAssigned, rs_StartedAt = now\<rparr>]"
| "assign_replica now replicaID nodeID (r # rs) =
     (if rs_ReplicaID r = replicaID
      then r\<lparr>rs_NodeID := nodeID, rs_Status := capsuleStatusAssigned, rs_StartedAt := now\<rparr> # rs
      else r # assign_replica now replicaID nodeID rs)"

definition AssignReplica ::
  "'db sqldb \<Rightarrow> time \<Rightarrow> CapsuleID \<Rightarrow> ReplicaID \<Rightarrow> string \<Rightarrow> 'db Manager \<Rightarrow> 'db Manager \<times> managerError option" where
  "AssignReplica D now cid replicaID nodeID m = (case Store_Get (mg_store m) cid of
     None \<Rightarrow> (m, Some (CapsuleNotFound cid))
   | Some a \<Rightarrow> (let
       (s, err) = store_mutate D now (\<lambda>c. c\<lparr>cap_Replicas := assign_replica now replicaID nodeID (cap_Replicas c),
          cap_UpdatedAt := now\<rparr>) a (mg_store m)
     in (m\<lparr>mg_store := s\<rparr>, map_option StoreFailed err)))"

definition SyncStatus ::
  "'db sqldb \<Rightarrow> time \<Rightarrow> CapsuleID \<Rightarrow> CapsuleStatus \<Rightarrow> 'db Manager \<Rightarrow> 'db Manager \<times> managerError option" where
  "SyncStatus D now cid status m =
     (if \<not> Status_Valid status then (m, Some (InvalidStatus status))
      else case Store_Get (mg_store m) cid of
        None \<Rightarrow> (m, Some (CapsuleNotFound cid))
      | Some a \<Rightarrow> (let
          (s, err) = store_mutate D now (\<lambda>c. c\<lparr>cap_Status := status, cap_UpdatedAt := now\<rparr>) a (mg_store m);
          m = m\<lparr>mg_store := s\<rparr>
        in case err of
             Some e \<Rightarrow> (m, Some (StoreFailed e))
           | None \<Rightarrow> (emit now (statusEventType status) (deref s a)
               (m\<lparr>mg_lifecycles := mput cid (NewLifecycle cid status) (mg_lifecycles m)\<rparr>), None)))"

definition Manager_Get :: "'db Manager \<Rightarrow> CapsuleID \<Rightarrow> Capsule option" where
  "Manager_Get m cid = view (mg_store m) cid"

definition Manager_GetByName :: "'db Manager \<Rightarrow> string \<Rightarrow> Capsule option" where
  "Manager_GetByName m name = map_option (deref (mg_store m)) (Store_GetByName (mg_store m) name)"

definition Manager_List :: "'db Manager \<Rightarrow> Capsule list" where
  "Manager_List m = map (deref (mg_store m)) (Store_List (mg_store m))"

definition Manager_ListByOrbit :: "'db Manager \<Rightarrow> string \<Rightarrow> Capsule list" where
  "Manager_ListByOrbit m orbit = map (deref (mg_store m)) (Store_ListByOrbit (mg_store m) orbit)"

definition Manager_ListByLabels :: "'db Manager \<Rightarrow> labels \<Rightarrow> Capsule list" where
  "Manager_ListByLabels m ls = map (deref (mg_store m)) (Store_ListByLabels (mg_store m) ls)"

definition Manager_Count :: "'db Manager \<Rightarrow> nat" where
  "Manager_Count m = Store_Count (mg_store m)"

subsection \<open>Calls and invariants\<close>

datatype managerCall =
    CallCreate CapsuleID string CapsuleSpec
  | CallUpdate CapsuleID CapsuleSpec
  | CallDelete CapsuleID
  | CallReceive Capsule
  | CallFire CapsuleID string
  | CallAssign CapsuleID ReplicaID string
  | CallSync CapsuleID CapsuleStatus

fun manager_call ::
  "engine \<Rightarrow> 'db sqldb \<Rightarrow> time \<Rightarrow> managerCall \<Rightarrow> 'db Manager \<Rightarrow> 'db Manager \<times> managerError option" where
  "manager_call eng D now (CallCreate cid cl spec) m = Manager_Create eng D cid now cl spec m"
| "manager_call eng D now (CallUpdate cid spec) m = Manager_Update D now cid spec m"
| "manager_call eng D now (CallDelete cid) m = Manager_Delete D now cid m"
| "manager_call eng D now (CallReceive c) m = Manager_Receive D now c m"
| "manager_call eng D now (CallFire cid t) m = Manager_Fire eng D now cid t m"
| "manager_call eng D now (CallAssign cid rid node) m = AssignReplica D now cid rid node m"
| "manager_call eng D now (CallSync cid status) m = SyncStatus D now cid status m"

fun manager_run ::
  "engine \<Rightarrow> 'db sqldb \<Rightarrow> (time \<times> managerCall) list \<Rightarrow> 'db Manager \<Rightarrow> 'db Manager \<times> managerError option list" where
  "manager_run eng D [] m = (m, [])"
| "manager_run eng D ((now, call) # calls) m =
     (let (m1, r) = manager_call eng D now call m; (m2, rs) = manager_run eng D calls m1 in (m2, r # rs))"

definition lifecycle_ok :: "CapsuleID \<Rightarrow> Lifecycle \<Rightarrow> bool" where
  "lifecycle_ok cid lc \<longleftrightarrow> lc_capsuleID lc = cid \<and> lc_permits lc = buildMachine \<and> Status_Valid (lc_state lc)"

definition mg_inv :: "'db Manager \<Rightarrow> bool" where
  "mg_inv m \<longleftrightarrow> wf_store (mg_store m) \<and> wf_map (mg_lifecycles m) \<and>
     dom (map_of (mg_lifecycles m)) = dom (view (mg_store m)) \<and>
     (\<forall>cid lc. map_of (mg_lifecycles m) cid = Some lc \<longrightarrow> lifecycle_ok cid lc)"

definition status_agrees :: "'db Manager \<Rightarrow> bool" where
  "status_agrees m \<longleftrightarrow> (\<forall>cid. Manager_Status m cid = map_option cap_Status (Manager_Get m cid))"

text \<open>The calls after which the two copies of a status can differ: a received update whose status differs
  from the stored one or is not a status at all, and a status mirrored while the database fails.\<close>

fun status_safe :: "'db Manager \<Rightarrow> managerCall \<Rightarrow> managerError option \<Rightarrow> bool" where
  "status_safe m (CallReceive c) r \<longleftrightarrow> (case Manager_Get m (cap_ID c) of
     None \<Rightarrow> Status_Valid (cap_Status c)
   | Some old \<Rightarrow> cap_Status c = cap_Status old)"
| "status_safe m (CallSync cid status) r \<longleftrightarrow> r \<noteq> Some (StoreFailed UpdateFailed)"
| "status_safe m _ r \<longleftrightarrow> True"

fun run_safe :: "engine \<Rightarrow> 'db sqldb \<Rightarrow> (time \<times> managerCall) list \<Rightarrow> 'db Manager \<Rightarrow> bool" where
  "run_safe eng D [] m \<longleftrightarrow> True"
| "run_safe eng D ((now, call) # calls) m \<longleftrightarrow> (case manager_call eng D now call m of
     (m1, r) \<Rightarrow> status_safe m call r \<and> run_safe eng D calls m1)"

definition replica_map :: "ReplicaState list \<Rightarrow> ReplicaID \<Rightarrow> ReplicaState option" where
  "replica_map rs = map_of (map (\<lambda>r. (rs_ReplicaID r, r)) rs)"


text \<open>A specification for the concrete runs.\<close>

definition sample_spec :: CapsuleSpec where
  "sample_spec = zeroSpec\<lparr>spec_Name := ''web'', spec_Image := ''nginx:1'', spec_Orbit := ''edge''\<rparr>"


section \<open>Lemmas\<close>

subsection \<open>The invariant\<close>

lemma emit_sel [simp]:
  "mg_store (emit now t c m) = mg_store m" "mg_lifecycles (emit now t c m) = mg_lifecycles m"
  "mg_metrics (emit now t c m) = mg_metrics m"
  by (simp_all add: emit_def)

lemma mg_inv_cong:
  "mg_store m' = mg_store m \<Longrightarrow> mg_lifecycles m' = mg_lifecycles m \<Longrightarrow> mg_inv m' = mg_inv m"
  by (simp add: mg_inv_def)

lemma mg_inv_skip [simp]:
  "mg_inv (emit now t c m) = mg_inv m" "mg_inv (m\<lparr>mg_metrics := x\<rparr>) = mg_inv m"
  by (auto intro!: mg_inv_cong)

lemma status_agrees_skip [simp]:
  "status_agrees (emit now t c m) = status_agrees m" "status_agrees (m\<lparr>mg_metrics := x\<rparr>) = status_agrees m"
  by (simp_all add: status_agrees_def Manager_Status_def Manager_Get_def getLifecycle_def)

lemma mg_invD:
  assumes "mg_inv m"
  shows "wf_store (mg_store m)" "wf_map (mg_lifecycles m)"
    "dom (map_of (mg_lifecycles m)) = dom (view (mg_store m))"
    "map_of (mg_lifecycles m) i = Some lc \<Longrightarrow> lifecycle_ok i lc"
  using assms by (auto simp: mg_inv_def)

lemma mg_invI:
  assumes "wf_store (mg_store m)" "wf_map (mg_lifecycles m)"
    "dom (map_of (mg_lifecycles m)) = dom (view (mg_store m))"
    "\<And>i lc. map_of (mg_lifecycles m) i = Some lc \<Longrightarrow> lifecycle_ok i lc"
  shows "mg_inv m"
  using assms by (simp add: mg_inv_def)

lemma lifecycle_ok_new: "Status_Valid s \<Longrightarrow> lifecycle_ok i (NewLifecycle i s)"
  by (simp add: lifecycle_ok_def NewLifecycle_state)

lemma lifecycle_ok_fire:
  assumes "stateless_law eng" "lifecycle_ok i lc" "Lifecycle_Fire eng lc t = (lc', r)"
  shows "lifecycle_ok i lc'"
proof (cases r)
  case (Inl e)
  then show ?thesis
    using assms(2) Fire_Inl(1) [OF assms(1) _ assms(3) [unfolded Inl]] Fire_preserves [OF assms(3)]
    by (simp add: lifecycle_ok_def)
next
  case (Inr ev)
  then have "map_of buildMachine (lc_state lc, t) = Some (lc_state lc')"
    using Fire_Inr(1) [OF assms(1)] assms(2,3) by (simp add: lifecycle_ok_def)
  then show ?thesis using assms(2) Fire_preserves [OF assms(3)] buildMachine_valid
    by (auto simp: lifecycle_ok_def)
qed

text \<open>Mutating a cached object, and installing a machine for a stored capsule.\<close>

lemma mutate_props:
  assumes "mg_inv m" "Store_Get (mg_store m) i = Some a" "\<And>c. cap_ID (f c) = cap_ID c"
    "store_mutate D now f a (mg_store m) = (s', r)"
  shows "mg_inv (m\<lparr>mg_store := s'\<rparr>)"
    "view s' = (view (mg_store m))(i \<mapsto> (f (deref (mg_store m) a))\<lparr>cap_UpdatedAt := now\<rparr>)"
    "view (mg_store m) i = Some (deref (mg_store m) a)" "i \<in> dom (map_of (mg_lifecycles m))"
proof -
  note wf = mg_invD(1) [OF assms(1)]
  show v: "view (mg_store m) i = Some (deref (mg_store m) a)" using assms(2) by (simp add: view_def)
  then have keep: "cap_ID (f (deref (mg_store m) a)) = i" using view_ID [OF wf] assms(3) by simp
  show view': "view s' = (view (mg_store m))(i \<mapsto> (f (deref (mg_store m) a))\<lparr>cap_UpdatedAt := now\<rparr>)"
    by (rule cstore.mutate_look [OF wf assms(2) keep assms(4)])
  show "i \<in> dom (map_of (mg_lifecycles m))" using mg_invD(3) [OF assms(1)] v by auto
  show "mg_inv (m\<lparr>mg_store := s'\<rparr>)"
    using assms(1) cstore.mutate_wf [OF wf assms(2) keep assms(4)]
      cstore.mutate_dom [OF wf assms(2) keep assms(4)] by (simp add: mg_inv_def)
qed

lemma mg_inv_put_lifecycle:
  assumes "mg_inv m" "i \<in> dom (view (mg_store m))" "lifecycle_ok i lc"
  shows "mg_inv (m\<lparr>mg_lifecycles := mput i lc (mg_lifecycles m)\<rparr>)"
  using assms by (auto simp: mg_inv_def)

lemma mg_inv_add:
  assumes "mg_inv m" "store_new D now c (mg_store m) = (s', None)" "lifecycle_ok (cap_ID c) lc"
  shows "mg_inv (m\<lparr>mg_store := s', mg_lifecycles := mput (cap_ID c) lc (mg_lifecycles m)\<rparr>)"
  using assms cstore.add_wf [OF mg_invD(1) assms(2)] cstore.add_ok [OF mg_invD(1) assms(2)]
  by (auto simp: mg_inv_def)

lemma mg_inv_store_err:
  assumes "mg_inv m" "wf_store s'" "view s' = view (mg_store m)"
  shows "mg_inv (m\<lparr>mg_store := s'\<rparr>)"
  using assms by (simp add: mg_inv_def)

lemma onLifecycleTransition_post:
  assumes "mg_inv m"
  shows "mg_inv (onLifecycleTransition D now ev m) \<and>
    mg_lifecycles (onLifecycleTransition D now ev m) = mg_lifecycles m \<and>
    view (mg_store (onLifecycleTransition D now ev m)) =
       (case view (mg_store m) (le_CapsuleID ev) of None \<Rightarrow> view (mg_store m)
        | Some c \<Rightarrow> (view (mg_store m))(le_CapsuleID ev \<mapsto> c\<lparr>cap_Status := le_To ev, cap_UpdatedAt := now\<rparr>))"
proof (cases "Store_Get (mg_store m) (le_CapsuleID ev)")
  case None
  then show ?thesis using assms by (simp add: onLifecycleTransition_def view_def)
next
  case (Some a)
  obtain s' r where
    run: "store_mutate D now (\<lambda>c. c\<lparr>cap_Status := le_To ev, cap_UpdatedAt := now\<rparr>) a (mg_store m) = (s', r)"
    by force
  note props = mutate_props [OF assms Some _ run]
  show ?thesis using props Some run by (simp add: onLifecycleTransition_def Let_def)
qed

lemmas onLifecycleTransition_props =
  onLifecycleTransition_post [THEN conjunct1] onLifecycleTransition_post [THEN conjunct2, THEN conjunct1]
  onLifecycleTransition_post [THEN conjunct2, THEN conjunct2]

lemma Manager_Fire_post:
  assumes "stateless_law eng" "mg_inv m" "Manager_Fire eng D now i t m = (m', r)"
  shows "mg_inv m' \<and> (view (mg_store m) i = None \<longrightarrow> m' = m \<and> r = Some (CapsuleNotFound i)) \<and>
    (\<forall>c. view (mg_store m) i = Some c \<longrightarrow> (\<exists>st. Manager_Status m i = Some st \<and>
      (case map_of buildMachine (st, t) of
         None \<Rightarrow> r = Some (FireFailed i (TransitionFailed t)) \<and> mg_store m' = mg_store m \<and>
           Manager_Status m' = Manager_Status m \<and> mg_events m' = mg_events m
       | Some d \<Rightarrow> r = None \<and> Manager_Status m' = (Manager_Status m)(i \<mapsto> d) \<and>
           view (mg_store m') = (view (mg_store m))(i \<mapsto> c\<lparr>cap_Status := d, cap_UpdatedAt := now\<rparr>))))"
proof (cases "map_of (mg_lifecycles m) i")
  case None
  then have "view (mg_store m) i = None" using mg_invD(3) [OF assms(2)] by (metis domIff)
  then show ?thesis using None assms(2,3) by (simp add: Manager_Fire_def getLifecycle_def)
next
  case (Some lc)
  then have stored: "i \<in> dom (view (mg_store m))" and ok: "lifecycle_ok i lc"
    using mg_invD(3,4) [OF assms(2)] by auto
  obtain lc' res where fire: "Lifecycle_Fire eng lc t = (lc', res)" by force
  let ?m = "m\<lparr>mg_lifecycles := mput i lc' (mg_lifecycles m)\<rparr>"
  have inv: "mg_inv ?m"
    by (rule mg_inv_put_lifecycle [OF assms(2) stored lifecycle_ok_fire [OF assms(1) ok fire]])
  show ?thesis
  proof (cases res)
    case (Inl e)
    then show ?thesis using Fire_Inl [OF assms(1) _ fire [unfolded Inl]] ok assms(3) fire Some inv stored
      by (auto simp: Manager_Fire_def getLifecycle_def lifecycle_ok_def Manager_Status_def fun_eq_iff
          Lifecycle_State_def Lifecycle_Fire_simps [OF assms(1)] Let_def split: option.splits)
  next
    case (Inr ev)
    then have m': "m' = onLifecycleTransition D now ev ?m" "r = None"
      using assms(3) fire Some by (auto simp: Manager_Fire_def getLifecycle_def)
    note ev = Fire_Inr [OF assms(1) _ fire [unfolded Inr]]
    show ?thesis using ev ok onLifecycleTransition_props [OF inv, of D now ev] Some stored
      by (auto simp: m' lifecycle_ok_def Manager_Status_def getLifecycle_def fun_eq_iff Lifecycle_State_def)
  qed
qed

lemmas Manager_Fire_inv = Manager_Fire_post [THEN conjunct1]
lemmas Manager_Fire_absent = Manager_Fire_post [THEN conjunct2, THEN conjunct1, rule_format]
lemmas Manager_Fire_stored = Manager_Fire_post [THEN conjunct2, THEN conjunct2, rule_format]

lemma Manager_Create_inv:
  assumes "stateless_law eng" "mg_inv m" "Manager_Create eng D i now cl spec m = (m', r)"
  shows "mg_inv m'"
proof (cases "cl = [] \<or> ValidateSpec (DefaultSpec spec) \<noteq> []")
  case True
  then show ?thesis using assms by (auto simp: Manager_Create_def Let_def split: if_splits)
next
  case False
  let ?c = "created_capsule i now cl (DefaultSpec spec)"
  obtain s' err where run: "store_new D now ?c (mg_store m) = (s', err)" by force
  show ?thesis
  proof (cases err)
    case None
    have id: "cap_ID ?c = i" by (simp add: created_capsule_def)
    let ?m = "emit now EventCapsuleCreated (?c\<lparr>cap_CreatedAt := now, cap_UpdatedAt := now\<rparr>)
      (m\<lparr>mg_store := s', mg_lifecycles := mput i (NewLifecycle i capsuleStatusCreated) (mg_lifecycles m),
         mg_metrics := IncCreated (mg_metrics m)\<rparr>)"
    have inv: "mg_inv ?m"
      using mg_inv_add [OF assms(2) run [unfolded None]] lifecycle_ok_new [of capsuleStatusCreated i] id by simp
    obtain m2 r2 where "Manager_Fire eng D now i TriggerAnnounce ?m = (m2, r2)" by force
    with Manager_Fire_inv [OF assms(1) inv this] show ?thesis
      using assms(3) False run None by (auto simp: Manager_Create_def Announce_def Let_def)
  next
    case (Some e)
    then show ?thesis
      using assms False run cstore.add_wf [OF mg_invD(1) run]
        cstore.add_err [OF mg_invD(1) [OF assms(2)] run [unfolded Some]] mg_inv_store_err [OF assms(2)]
      by (auto simp: Manager_Create_def Let_def)
  qed
qed

lemma mutating_call_inv:
  assumes "mg_inv m" "\<And>c. cap_ID (f c) = cap_ID c" "Store_Get (mg_store m) i = Some a"
    "store_mutate D now f a (mg_store m) = (s', r)" "Status_Valid st"
  shows "mg_inv (m\<lparr>mg_store := s'\<rparr>)"
    "mg_inv (m\<lparr>mg_store := s', mg_lifecycles := mput i (NewLifecycle i st) (mg_lifecycles m)\<rparr>)"
proof -
  note props = mutate_props [OF assms(1,3,2,4)]
  show "mg_inv (m\<lparr>mg_store := s'\<rparr>)" by (rule props(1))
  from mg_inv_put_lifecycle [OF this, of i "NewLifecycle i st"]
  show "mg_inv (m\<lparr>mg_store := s', mg_lifecycles := mput i (NewLifecycle i st) (mg_lifecycles m)\<rparr>)"
    using props(2) assms(5) by (simp add: lifecycle_ok_new)
qed

lemma Manager_Delete_inv:
  assumes "mg_inv m" "Manager_Delete D now i m = (m', r)"
  shows "mg_inv m'"
proof -
  obtain s' e where del: "Store_Delete D i (mg_store m) = (s', e)" by force
  note d = Store_Delete_cases [OF del mg_invD(1) [OF assms(1)]]
  show ?thesis
  proof (cases e)
    case None
    then have "dom (map_of (mdel i (mg_lifecycles m))) = dom (view s')"
      using mg_invD(3) [OF assms(1)] d(3) by simp
    then have "mg_inv (m\<lparr>mg_store := s', mg_lifecycles := mdel i (mg_lifecycles m)\<rparr>)"
      using mg_invD [OF assms(1)] d(1) by (intro mg_invI) (auto split: if_splits)
    then show ?thesis using assms None del by (auto simp: Manager_Delete_def split: option.splits)
  next
    case (Some err)
    then show ?thesis using assms del d mg_inv_store_err [OF assms(1)]
      by (auto simp: Manager_Delete_def split: option.splits)
  qed
qed

lemma Manager_Receive_inv:
  assumes "mg_inv m" "Manager_Receive D now c m = (m', r)"
  shows "mg_inv m'"
proof (cases "Store_Get (mg_store m) (cap_ID c)")
  case None
  obtain s' e where add: "store_new D now c (mg_store m) = (s', e)" by force
  show ?thesis
  proof (cases e)
    case None
    then show ?thesis
      using assms \<open>Store_Get _ _ = None\<close> add mg_inv_add [OF assms(1) add [unfolded None]]
        lifecycle_ok_new [of "cap_Status c" "cap_ID c"] lifecycle_ok_new [of capsuleStatusAnnounced "cap_ID c"]
      by (auto simp: Manager_Receive_def Let_def split: if_splits)
  next
    case (Some err)
    then show ?thesis
      using assms \<open>Store_Get _ _ = None\<close> add cstore.add_wf [OF mg_invD(1) add]
        cstore.add_err [OF mg_invD(1) [OF assms(1)] add [unfolded Some]] mg_inv_store_err [OF assms(1)]
      by (auto simp: Manager_Receive_def)
  qed
next
  case (Some a)
  obtain s' e where rep: "store_replace D now c (mg_store m) = (s', e)" by force
  have "mg_inv (m\<lparr>mg_store := s'\<rparr>)"
    using assms(1) cstore.replace_wf [OF mg_invD(1) rep] cstore.replace_dom [OF mg_invD(1) rep]
    by (simp add: mg_inv_def)
  moreover from this have "mg_inv (m\<lparr>mg_store := s', mg_metrics := x\<rparr>)" for x
    using mg_inv_skip(2) [where m = "m\<lparr>mg_store := s'\<rparr>"] by simp
  ultimately show ?thesis using assms(2) Some rep by (auto simp: Manager_Receive_def split: option.splits)
qed

lemma manager_call_inv:
  assumes "stateless_law eng" "mg_inv m" "manager_call eng D now call m = (m', r)"
  shows "mg_inv m'"
proof (cases call)
  case (CallUpdate i spec)
  then show ?thesis using assms
      mutate_props(1) [OF assms(2), of i _ "\<lambda>c. c\<lparr>cap_Spec := DefaultSpec spec, cap_UpdatedAt := now\<rparr>"]
    by (auto simp: Manager_Update_def Let_def split: if_splits option.splits prod.splits)
next
  case (CallAssign i rid node)
  then show ?thesis using assms
      mutate_props(1) [OF assms(2), of i _ "\<lambda>c. c\<lparr>cap_Replicas := assign_replica now rid node (cap_Replicas c),
        cap_UpdatedAt := now\<rparr>"]
    by (auto simp: AssignReplica_def Let_def split: if_splits option.splits prod.splits)
next
  case (CallSync i status)
  then show ?thesis using assms
      mutating_call_inv [OF assms(2), of "\<lambda>c. c\<lparr>cap_Status := status, cap_UpdatedAt := now\<rparr>" i]
    by (auto simp: SyncStatus_def Let_def split: if_splits option.splits prod.splits)
qed (use assms Manager_Create_inv Manager_Delete_inv Manager_Receive_inv Manager_Fire_inv in auto)

lemma restore_lifecycles_props:
  "wf_map ls \<Longrightarrow> wf_map (restore_lifecycles cs ls)"
  "map_of (restore_lifecycles cs ls) i =
     (case find (\<lambda>c. cap_ID c = i) (rev cs) of
        None \<Rightarrow> map_of ls i | Some c \<Rightarrow> Some (NewLifecycle i (cap_Status c)))"
proof -
  show "wf_map ls \<Longrightarrow> wf_map (restore_lifecycles cs ls)"
    by (induction cs arbitrary: ls) auto
  show "map_of (restore_lifecycles cs ls) i =
     (case find (\<lambda>c. cap_ID c = i) (rev cs) of
        None \<Rightarrow> map_of ls i | Some c \<Rightarrow> Some (NewLifecycle i (cap_Status c)))"
  proof (induction cs arbitrary: ls)
    case (Cons c cs)
    then show ?case by (auto simp: find_append split: option.splits)
  qed simp
qed



lemma NewManager_lifecycles:
  assumes "wf_store s"
  shows "map_of (mg_lifecycles (NewManager s)) i = map_option (\<lambda>c. NewLifecycle i (cap_Status c)) (view s i)"
proof -
  let ?cs = "rev (map (deref s) (Store_List s))"
  have "find (\<lambda>c. cap_ID c = i) ?cs = view s i"
  proof (cases "map_of (st_capsules s) i")
    case None
    then have "i \<notin> fst ` set (st_capsules s)" by (simp add: map_of_eq_None_iff)
    moreover have "cap_ID (deref s a) = j" if "(j, a) \<in> set (st_capsules s)" for j a
      using that assms by (auto simp: wf_store_def list_all_iff)
    ultimately have "find (\<lambda>c. cap_ID c = i) ?cs = None"
      unfolding find_None_iff by (force simp: Store_List_def)
    then show ?thesis using None by (simp add: view_def Store_Get_def)
  next
    case (Some a)
    have "find (\<lambda>c. cap_ID c = i) ?cs = Some (deref s a)"
    proof (rule find_unique)
      show "deref s a \<in> set ?cs" using map_of_SomeD [OF Some] by (force simp: Store_List_def)
      show "cap_ID (deref s a) = i" by (rule wf_store_get(2) [OF assms Some])
      fix c assume c: "c \<in> set ?cs" "cap_ID c = i"
      then obtain j b where jb: "(j, b) \<in> set (st_capsules s)" "c = deref s b" by (auto simp: Store_List_def)
      then have "map_of (st_capsules s) j = Some b" using wf_store_map [OF assms] by (simp add: map_of_mem)
      then show "c = deref s a" using wf_store_get(2) [OF assms] c(2) jb Some by fastforce
    qed
    then show ?thesis using Some by (simp add: view_def Store_Get_def)
  qed
  then show ?thesis
    unfolding NewManager_def by (simp add: restore_lifecycles_props split: option.split)
qed

lemma NewManager_inv:
  assumes "wf_store s"
  shows "mg_inv (NewManager s)"
proof (rule mg_invI)
  show "wf_store (mg_store (NewManager s))" using assms by (simp add: NewManager_def)
  show "wf_map (mg_lifecycles (NewManager s))" by (simp add: NewManager_def restore_lifecycles_props)
  show "dom (map_of (mg_lifecycles (NewManager s))) = dom (view (mg_store (NewManager s)))"
    by (auto simp: NewManager_lifecycles [OF assms] dom_def) (simp_all add: NewManager_def)
  show "lifecycle_ok i lc" if "map_of (mg_lifecycles (NewManager s)) i = Some lc" for i lc
    using that by (auto simp: NewManager_lifecycles [OF assms] lifecycle_ok_def NewLifecycle_state)
qed

subsection \<open>The two copies of a status\<close>

lemma status_agrees_iff:
  "status_agrees m \<longleftrightarrow>
   (\<forall>i. map_option lc_state (map_of (mg_lifecycles m) i) = map_option cap_Status (view (mg_store m) i))"
  by (auto simp: status_agrees_def Manager_Status_def Manager_Get_def getLifecycle_def
      Lifecycle_State_def [abs_def])

lemma status_agreesD:
  "status_agrees m \<Longrightarrow>
   map_option lc_state (map_of (mg_lifecycles m) i) = map_option cap_Status (view (mg_store m) i)"
  by (simp add: status_agrees_iff)

lemma status_agrees_mutate:
  assumes "mg_inv m" "status_agrees m" "Store_Get (mg_store m) i = Some a" "\<And>c. cap_ID (f c) = cap_ID c"
    "store_mutate D now f a (mg_store m) = (s', r)" "\<And>c. cap_Status (f c) = cap_Status c"
  shows "status_agrees (m\<lparr>mg_store := s'\<rparr>)"
  using mutate_props [OF assms(1,3,4,5)] status_agreesD [OF assms(2)] assms(6) by (simp add: status_agrees_iff)

lemma status_agrees_install:
  assumes "status_agrees m" "view s' = (view (mg_store m))(i \<mapsto> c)" "cap_Status c = st" "Status_Valid st"
  shows "status_agrees (m\<lparr>mg_store := s', mg_lifecycles := mput i (NewLifecycle i st) (mg_lifecycles m)\<rparr>)"
  using assms(2-) status_agreesD [OF assms(1)] by (simp add: status_agrees_iff NewLifecycle_state)

lemma Manager_Fire_agrees:
  assumes "stateless_law eng" "mg_inv m" "status_agrees m" "Manager_Fire eng D now i t m = (m', r)"
  shows "status_agrees m'"
proof (cases "view (mg_store m) i")
  case None
  then show ?thesis using Manager_Fire_absent [OF assms(1,2,4)] assms(3) by simp
next
  case (Some c)
  obtain st where "Manager_Status m i = Some st"
    "case map_of buildMachine (st, t) of
         None \<Rightarrow> mg_store m' = mg_store m \<and> Manager_Status m' = Manager_Status m
       | Some d \<Rightarrow> Manager_Status m' = (Manager_Status m)(i \<mapsto> d) \<and>
           view (mg_store m') = (view (mg_store m))(i \<mapsto> c\<lparr>cap_Status := d, cap_UpdatedAt := now\<rparr>)"
    using Manager_Fire_stored [OF assms(1,2,4) Some] by (auto split: option.splits)
  then show ?thesis using assms(3) by (auto simp: status_agrees_def Manager_Get_def split: option.splits)
qed

lemma Manager_Create_agrees:
  assumes "stateless_law eng" "mg_inv m" "status_agrees m" "Manager_Create eng D i now cl spec m = (m', r)"
  shows "status_agrees m'"
proof (cases "cl = [] \<or> ValidateSpec (DefaultSpec spec) \<noteq> []")
  case True
  then show ?thesis using assms by (auto simp: Manager_Create_def Let_def split: if_splits)
next
  case False
  let ?c = "created_capsule i now cl (DefaultSpec spec)"
  have c: "cap_ID ?c = i" "cap_Status ?c = capsuleStatusCreated" by (simp_all add: created_capsule_def)
  obtain s' err where run: "store_new D now ?c (mg_store m) = (s', err)" by force
  show ?thesis
  proof (cases err)
    case None
    let ?m0 = "m\<lparr>mg_store := s', mg_lifecycles := mput i (NewLifecycle i capsuleStatusCreated) (mg_lifecycles m)\<rparr>"
    let ?m = "emit now EventCapsuleCreated (?c\<lparr>cap_CreatedAt := now, cap_UpdatedAt := now\<rparr>)
      (?m0\<lparr>mg_metrics := IncCreated (mg_metrics m)\<rparr>)"
    note add = cstore.add_ok [OF mg_invD(1) [OF assms(2)] run [unfolded None]]
    have "mg_inv ?m" "status_agrees ?m"
      using mg_inv_add [OF assms(2) run [unfolded None]] lifecycle_ok_new [of capsuleStatusCreated i] c
        status_agrees_install [OF assms(3), of s' i "?c\<lparr>cap_CreatedAt := now, cap_UpdatedAt := now\<rparr>"] add
      by simp_all
    moreover obtain m2 r2 where "Manager_Fire eng D now i TriggerAnnounce ?m = (m2, r2)" by force
    ultimately have "status_agrees m2" using Manager_Fire_agrees [OF assms(1)] by blast
    then show ?thesis
      using assms(4) False run None \<open>Manager_Fire eng D now i TriggerAnnounce ?m = (m2, r2)\<close>
      by (auto simp: Manager_Create_def Announce_def Let_def)
  next
    case (Some e)
    then show ?thesis
      using assms False run cstore.add_err [OF mg_invD(1) [OF assms(2)] run [unfolded Some]]
      by (auto simp: Manager_Create_def Let_def status_agrees_iff)
  qed
qed

lemma Manager_Receive_agrees:
  assumes "mg_inv m" "status_agrees m" "Manager_Receive D now c m = (m', r)" "status_safe m (CallReceive c) r"
  shows "status_agrees m'"
proof (cases "Store_Get (mg_store m) (cap_ID c)")
  case None
  then have valid: "Status_Valid (cap_Status c)" using assms(4) by (simp add: Manager_Get_def view_def)
  obtain s' e where add: "store_new D now c (mg_store m) = (s', e)" by force
  show ?thesis
  proof (cases e)
    case None
    let ?m0 = "m\<lparr>mg_store := s', mg_lifecycles := mput (cap_ID c) (NewLifecycle (cap_ID c) (cap_Status c)) (mg_lifecycles m)\<rparr>"
    have "status_agrees (?m0\<lparr>mg_metrics := x\<rparr>)" for x
      unfolding status_agrees_skip
      using cstore.add_ok [OF mg_invD(1) [OF assms(1)] add [unfolded None]] valid
      by (intro status_agrees_install [OF assms(2), of s' _ "c\<lparr>cap_CreatedAt := now, cap_UpdatedAt := now\<rparr>"]) auto
    then show ?thesis using assms(3) \<open>Store_Get _ _ = None\<close> add None valid
      by (auto simp: Manager_Receive_def Let_def)
  next
    case (Some err)
    then show ?thesis using assms(2,3) \<open>Store_Get _ _ = None\<close> add
        cstore.add_err [OF mg_invD(1) [OF assms(1)] add [unfolded Some]]
      by (auto simp: Manager_Receive_def status_agrees_iff)
  qed
next
  case (Some a)
  obtain s' e where rep: "store_replace D now c (mg_store m) = (s', e)" by force
  have old: "view (mg_store m) (cap_ID c) = Some (deref (mg_store m) a)" using Some by (simp add: view_def)
  then have same: "cap_Status c = cap_Status (deref (mg_store m) a)" using assms(4) by (simp add: Manager_Get_def)
  have "map_option cap_Status (view s' i) = map_option cap_Status (view (mg_store m) i)" for i
    using cstore.replace_ok [OF mg_invD(1) [OF assms(1)], of D now c s']
      cstore.replace_err [OF mg_invD(1) [OF assms(1)], of D now c s'] rep old same by (cases e) auto
  then show ?thesis using assms(2,3) Some rep
    by (cases e) (auto simp: Manager_Receive_def status_agrees_iff)
qed

lemma SyncStatus_agrees:
  assumes "mg_inv m" "status_agrees m" "SyncStatus D now i status m = (m', r)" "r \<noteq> Some (StoreFailed UpdateFailed)"
  shows "status_agrees m'"
proof (cases "Status_Valid status \<and> Store_Get (mg_store m) i \<noteq> None")
  case False
  then show ?thesis using assms by (auto simp: SyncStatus_def split: if_splits)
next
  case True
  then obtain a where a: "Store_Get (mg_store m) i = Some a" by auto
  let ?f = "\<lambda>c. c\<lparr>cap_Status := status, cap_UpdatedAt := now\<rparr>"
  obtain s' e where run: "store_mutate D now ?f a (mg_store m) = (s', e)" by force
  note props = mutate_props [OF assms(1) a _ run]
  have wf: "wf_store (mg_store m)" by (rule mg_invD(1) [OF assms(1)])
  have "cap_ID (?f (deref (mg_store m) a)) = i" using view_ID [OF wf props(3)] by simp
  with store_mutate_err [of "mg_store m" i a ?f D now s'] wf a run have "e = None"
    using assms(3,4) True by (cases e) (simp_all add: SyncStatus_def Let_def)
  then show ?thesis
    using assms(3) True a run props status_agrees_install [OF assms(2), of s' i] by (auto simp: SyncStatus_def Let_def)
qed

lemma manager_call_agrees:
  assumes "stateless_law eng" "mg_inv m" "status_agrees m" "manager_call eng D now call m = (m', r)"
    "status_safe m call r"
  shows "status_agrees m'"
proof (cases call)
  case (CallUpdate i spec)
  then show ?thesis using assms
      status_agrees_mutate [OF assms(2,3), of i _ "\<lambda>c. c\<lparr>cap_Spec := DefaultSpec spec, cap_UpdatedAt := now\<rparr>"]
    by (auto simp: Manager_Update_def Let_def split: if_splits option.splits prod.splits)
next
  case (CallAssign i rid node)
  then show ?thesis using assms
      status_agrees_mutate [OF assms(2,3), of i _ "\<lambda>c. c\<lparr>cap_Replicas := assign_replica now rid node (cap_Replicas c),
        cap_UpdatedAt := now\<rparr>"]
    by (auto simp: AssignReplica_def Let_def split: if_splits option.splits prod.splits)
next
  case (CallDelete i)
  obtain s' e where del: "Store_Delete D i (mg_store m) = (s', e)" by force
  note d = Store_Delete_cases [OF del mg_invD(1) [OF assms(2)]]
  show ?thesis using assms(3,4) CallDelete del d
    by (cases e) (auto simp: Manager_Delete_def status_agrees_iff split: option.splits)
next
  case (CallReceive c)
  then show ?thesis using assms Manager_Receive_agrees by simp
next
  case (CallSync i status)
  then show ?thesis using assms SyncStatus_agrees by simp
qed (use assms Manager_Create_agrees Manager_Fire_agrees in auto)

lemma manager_run_inv:
  "stateless_law eng \<Longrightarrow> mg_inv m \<Longrightarrow> mg_inv (fst (manager_run eng D calls m))"
proof (induction eng D calls m rule: manager_run.induct)
  case (2 eng D now call calls m)
  then show ?case using manager_call_inv by (fastforce split: prod.splits)
qed simp

lemma manager_run_agrees:
  "stateless_law eng \<Longrightarrow> mg_inv m \<Longrightarrow> status_agrees m \<Longrightarrow> run_safe eng D calls m \<Longrightarrow>
   status_agrees (fst (manager_run eng D calls m))"
proof (induction eng D calls m rule: manager_run.induct)
  case (2 eng D now call calls m)
  obtain m1 r where step: "manager_call eng D now call m = (m1, r)" by force
  have "status_agrees m1" "mg_inv m1"
    using manager_call_agrees [OF 2(2-4) step] manager_call_inv [OF 2(2,3) step] 2(5) step by auto
  then show ?case using 2(1) [OF step [symmetric] refl 2(2)] 2(5) step by (auto split: prod.splits)
qed simp

lemma NewManager_agrees:
  assumes "wf_store s" "\<And>i c. view s i = Some c \<Longrightarrow> Status_Valid (cap_Status c)"
  shows "status_agrees (NewManager s)"
proof -
  have "mg_store (NewManager s) = s" by (simp add: NewManager_def)
  moreover have "map_option lc_state (map_of (mg_lifecycles (NewManager s)) i) = map_option cap_Status (view s i)"
    for i using assms(2) [of i]
    by (cases "view s i") (simp_all add: NewManager_lifecycles [OF assms(1)] NewLifecycle_state)
  ultimately show ?thesis by (simp add: status_agrees_iff)
qed

subsection \<open>Creation\<close>

lemma onLifecycleTransition_mem:
  assumes "mg_inv m" "st_db (mg_store m) = None" "view (mg_store m) (le_CapsuleID ev) = Some c"
  shows "mg_events (onLifecycleTransition D now ev m) = mg_events m @
      [\<lparr>me_Type = statusEventType (le_To ev), me_CapsuleID = le_CapsuleID ev,
        me_Capsule = c\<lparr>cap_Status := le_To ev, cap_UpdatedAt := now\<rparr>, me_Timestamp = now\<rparr>]"
    "mg_metrics (onLifecycleTransition D now ev m) = IncStatusTransition (mg_metrics m)"
proof -
  let ?f = "\<lambda>c. c\<lparr>cap_Status := le_To ev, cap_UpdatedAt := now\<rparr>"
  note wf = mg_invD(1) [OF assms(1)]
  obtain a where a: "Store_Get (mg_store m) (le_CapsuleID ev) = Some a" "deref (mg_store m) a = c"
    using assms(3) by (auto simp: view_def)
  have id: "cap_ID c = le_CapsuleID ev" using view_ID [OF wf assms(3)] .
  obtain s' r where run: "store_mutate D now ?f a (mg_store m) = (s', r)" by force
  have "r = None" "view s' (le_CapsuleID ev) = Some (?f c)"
    using store_mutate_mem(2) [OF wf assms(2) a(1) _ run] assms(3) a(2) id by simp_all
  moreover have "Store_Get s' (le_CapsuleID ev) = Some a"
    using run a(1) \<open>r = None\<close> id a(2) wf_store_get(1) [OF wf] assms(2)
    by (auto simp: store_mutate_def Store_Update_def Let_def Store_Get_def deref_poke split: if_splits)
  ultimately have "r = None" "deref s' a = ?f c" by (auto simp: view_def)
  then show "mg_events (onLifecycleTransition D now ev m) = mg_events m @
      [\<lparr>me_Type = statusEventType (le_To ev), me_CapsuleID = le_CapsuleID ev, me_Capsule = ?f c,
        me_Timestamp = now\<rparr>]"
    "mg_metrics (onLifecycleTransition D now ev m) = IncStatusTransition (mg_metrics m)"
    using a(1) run id by (simp_all add: onLifecycleTransition_def Let_def emit_def)
qed

lemma Announce_created_mem:
  assumes law: "stateless_law eng" and inv: "mg_inv m" and mem: "st_db (mg_store m) = None"
    and stored: "view (mg_store m) i = Some c"
    and lc: "map_of (mg_lifecycles m) i = Some (NewLifecycle i capsuleStatusCreated)"
  shows "\<exists>m'. Announce eng D now i m = (m', None) \<and>
    mg_events m' = mg_events m @ [\<lparr>me_Type = EventCapsuleAnnounced, me_CapsuleID = i,
      me_Capsule = c\<lparr>cap_Status := capsuleStatusAnnounced, cap_UpdatedAt := now\<rparr>, me_Timestamp = now\<rparr>] \<and>
    mg_metrics m' = IncStatusTransition (mg_metrics m) \<and>
    Manager_Get m' i = Some (c\<lparr>cap_Status := capsuleStatusAnnounced, cap_UpdatedAt := now\<rparr>) \<and>
    Manager_Status m' i = Some capsuleStatusAnnounced \<and>
    (\<forall>j. j \<noteq> i \<longrightarrow> Manager_Get m' j = Manager_Get m j)"
proof -
  let ?l = "NewLifecycle i capsuleStatusCreated"
  obtain lc' ev where fire: "Lifecycle_Fire eng ?l TriggerAnnounce = (lc', Inr ev)"
    using Lifecycle_Fire_simps [OF law NewLifecycle_sel(1)] buildMachine_forward(1)
    by (simp add: NewLifecycle_state Let_def)
  note ev = Fire_Inr [OF law NewLifecycle_sel(1) fire]
  have st: "lc_state lc' = capsuleStatusAnnounced" using ev(1) buildMachine_forward(1) by (simp add: NewLifecycle_state)
  let ?m = "m\<lparr>mg_lifecycles := mput i lc' (mg_lifecycles m)\<rparr>"
  have ok: "lifecycle_ok i lc'" using lifecycle_ok_fire [OF law _ fire] lifecycle_ok_new by simp
  have inv': "mg_inv ?m" using mg_inv_put_lifecycle [OF inv _ ok] stored by auto
  have fire': "Announce eng D now i m = (onLifecycleTransition D now ev ?m, None)"
    using lc fire by (simp add: Announce_def Manager_Fire_def getLifecycle_def)
  note post = onLifecycleTransition_post [OF inv', of D now ev] onLifecycleTransition_mem [OF inv', of ev c D now]
  have ann: "statusEventType capsuleStatusAnnounced = EventCapsuleAnnounced" by (simp add: statusEventType_def)
  show ?thesis using fire' post ev st stored mem ann
    by (simp add: Manager_Get_def Manager_Status_def getLifecycle_def Lifecycle_State_def)
qed

subsection \<open>Replicas\<close>

lemma assign_replica_map:
  "replica_map (assign_replica now rid node rs) = (replica_map rs)(rid \<mapsto>
     \<lparr>rs_ReplicaID = rid, rs_NodeID = node, rs_Status = capsuleStatusAssigned, rs_StartedAt = now\<rparr>)"
  by (induction rs) (auto simp: replica_map_def fun_eq_iff)

lemma assign_replica_ids:
  "map rs_ReplicaID (assign_replica now rid node rs) =
   (if rid \<in> rs_ReplicaID ` set rs then map rs_ReplicaID rs else map rs_ReplicaID rs @ [rid])"
  by (induction rs) auto

lemma assign_replica_twice:
  "assign_replica now rid node (assign_replica now' rid node' rs) = assign_replica now rid node rs"
  by (induction rs) auto

section \<open>Properties\<close>

text \<open>
  The invariant of the manager holds after any sequence of calls, whatever the database answers: the
  store is well formed, exactly the stored capsules have a lifecycle machine, and every machine carries its
  capsule's identifier, the table of the source and a valid state.
\<close>

theorem manager_invariant:
  assumes "stateless_law eng" and "wf_store s"
  shows "mg_inv (fst (manager_run eng D calls (NewManager s)))"
  by (rule manager_run_inv [OF assms(1) NewManager_inv [OF assms(2)]])

theorem manager_invariant_witness:
  "mg_inv (fst (manager_run table_engine rows_db
     [(7, CallReceive sample_capsule), (8, CallFire ''c1'' ''announce''), (9, CallSync ''c1'' ''running''),
      (10, CallDelete ''c1'')] (NewManager empty_persistent)))"
  by (rule manager_invariant) (simp_all add: empty_persistent_def wf_store_def)

text \<open>
  C1. The status stored with a capsule and the state of its lifecycle machine agree after every sequence of
  calls none of which is a received update that carries another status (or, for a new capsule, an unknown
  one) or a mirrored status that the database refuses: creating, updating, firing, assigning, mirroring and
  deleting keep the two copies together.
\<close>

theorem status_agreement:
  assumes "stateless_law eng" and "wf_store s"
    and "\<And>i c. view s i = Some c \<Longrightarrow> Status_Valid (cap_Status c)"
    and "run_safe eng D calls (NewManager s)"
  shows "status_agrees (fst (manager_run eng D calls (NewManager s)))"
  by (rule manager_run_agrees [OF assms(1) NewManager_inv [OF assms(2)] NewManager_agrees [OF assms(2,3)] assms(4)])

theorem status_agreement_witness:
  "status_agrees (fst (manager_run table_engine rows_db
     [(7, CallReceive sample_capsule), (8, CallFire ''c1'' ''announce''), (9, CallSync ''c1'' ''running'')]
     (NewManager NewStore)))"
proof (rule status_agreement)
  show "run_safe table_engine rows_db
     [(7, CallReceive sample_capsule), (8, CallFire ''c1'' ''announce''), (9, CallSync ''c1'' ''running'')]
     (NewManager NewStore)"
    by code_simp
qed (simp_all add: NewStore_def wf_store_def view_def Store_Get_def)

text \<open>
  \<open>Fire\<close> on a stored capsule: when the table has a destination for the machine's state, the call
  succeeds, the machine and the stored capsule move to it (the update time is set, nothing else of the capsule
  changes, no other capsule changes), even if the database fails; otherwise the call fails and neither moves.
\<close>

theorem Manager_Fire_moves_capsule:
  assumes "stateless_law eng" and "mg_inv m" and "Manager_Get m i = Some c" and "Manager_Status m i = Some st"
    and "Manager_Fire eng D now i t m = (m', r)"
  shows "case map_of buildMachine (st, t) of
      Some d \<Rightarrow> r = None \<and> Manager_Status m' = (Manager_Status m)(i \<mapsto> d) \<and>
        Manager_Get m' = (Manager_Get m)(i \<mapsto> c\<lparr>cap_Status := d, cap_UpdatedAt := now\<rparr>)
    | None \<Rightarrow> r = Some (FireFailed i (TransitionFailed t)) \<and> Manager_Status m' = Manager_Status m \<and>
        Manager_Get m' = Manager_Get m \<and> mg_events m' = mg_events m"
  using Manager_Fire_stored [OF assms(1,2,5), of c] assms(3,4)
  by (cases "map_of buildMachine (st, t)") (simp_all add: Manager_Get_def [abs_def])

theorem Manager_Fire_moves_capsule_witness:
  "case manager_run table_engine rows_db [(7, CallReceive sample_capsule), (8, CallFire ''c1'' ''announce'')]
       (NewManager NewStore) of
     (m', rs) \<Rightarrow> Manager_Status m' ''c1'' = Some ''announced'' \<and>
       map_option cap_Status (Manager_Get m' ''c1'') = Some ''announced''"
proof -
  obtain m r where m: "manager_call table_engine rows_db 7 (CallReceive sample_capsule) (NewManager NewStore) = (m, r)"
    by force
  then have get: "Manager_Get m ''c1'' = Some (sample_capsule\<lparr>cap_CreatedAt := 7, cap_UpdatedAt := 7\<rparr>)"
    and st: "Manager_Status m ''c1'' = Some ''created''"
    by (auto simp: Manager_Receive_def NewManager_def NewStore_def Store_Get_def store_new_def new_capsule_def
        Store_Create_def deref_def poke_def sample_capsule_def Let_def Manager_Get_def view_def Manager_Status_def
        getLifecycle_def Lifecycle_State_def NewLifecycle_state emit_def Store_List_def mput_def status_defs
        Status_Valid_def)
  have inv: "mg_inv m"
    using manager_call_inv [OF table_engine_law NewManager_inv m] by (simp add: NewStore_def wf_store_def)
  obtain m' r' where fire: "Manager_Fire table_engine rows_db 8 ''c1'' ''announce'' m = (m', r')" by force
  show ?thesis using Manager_Fire_moves_capsule [OF table_engine_law inv get st fire] m fire
    by (simp add: buildMachine_def status_defs trigger_defs)
qed

text \<open>
  \<open>Create\<close> in an in-memory manager, for an acceptable specification and a fresh identifier: it
  succeeds and leaves one new capsule with the defaulted specification, in state announced both in the store
  and in its machine, with the tier's or the user's base momentum; exactly two events go out, created then
  announced; the other capsules are untouched.
\<close>

theorem Manager_Create_announces:
  assumes "stateless_law eng" and "mg_inv m" and "st_db (mg_store m) = None"
    and "Manager_Get m newID = None" and "clusterID \<noteq> ''''" and "submitted_ok spec"
  shows "\<exists>m'. Manager_Create eng D newID now clusterID spec m = (m', None) \<and>
    Manager_Get m' = (Manager_Get m)(newID \<mapsto>
      (created_capsule newID now clusterID (DefaultSpec spec))\<lparr>cap_Status := capsuleStatusAnnounced\<rparr>) \<and>
    Manager_Status m' newID = Some capsuleStatusAnnounced \<and>
    map me_Type (mg_events m') = map me_Type (mg_events m) @ [EventCapsuleCreated, EventCapsuleAnnounced] \<and>
    mg_metrics m' = IncStatusTransition (IncCreated (mg_metrics m))"
proof -
  let ?c = "created_capsule newID now clusterID (DefaultSpec spec)"
  have valid: "ValidateSpec (DefaultSpec spec) = []"
    using assms(6) ValidateSpec_ok spec_ok_DefaultSpec by blast
  have c: "cap_ID ?c = newID" "?c\<lparr>cap_CreatedAt := now, cap_UpdatedAt := now\<rparr> = ?c"
    by (simp_all add: created_capsule_def)
  obtain s' err where add: "store_new D now ?c (mg_store m) = (s', err)" by force
  note mem = store_new_mem [OF mg_invD(1) [OF assms(2)] assms(3) add]
  have err: "err = None" and view': "view s' = (view (mg_store m))(newID \<mapsto> ?c)"
    using mem(2) assms(4) c by (simp_all add: Manager_Get_def)
  let ?m = "emit now EventCapsuleCreated ?c
    (m\<lparr>mg_store := s', mg_lifecycles := mput newID (NewLifecycle newID capsuleStatusCreated) (mg_lifecycles m),
       mg_metrics := IncCreated (mg_metrics m)\<rparr>)"
  have inv: "mg_inv ?m"
    using mg_inv_add [OF assms(2) add [unfolded err], of "NewLifecycle newID capsuleStatusCreated"] c
      lifecycle_ok_new by simp
  obtain m' where "Announce eng D now newID ?m = (m', None)"
    "mg_events m' = mg_events ?m @ [\<lparr>me_Type = EventCapsuleAnnounced, me_CapsuleID = newID,
      me_Capsule = ?c\<lparr>cap_Status := capsuleStatusAnnounced, cap_UpdatedAt := now\<rparr>, me_Timestamp = now\<rparr>]"
    "mg_metrics m' = IncStatusTransition (mg_metrics ?m)"
    "Manager_Get m' newID = Some (?c\<lparr>cap_Status := capsuleStatusAnnounced, cap_UpdatedAt := now\<rparr>)"
    "Manager_Status m' newID = Some capsuleStatusAnnounced" "\<forall>j. j \<noteq> newID \<longrightarrow> Manager_Get m' j = Manager_Get ?m j"
    using Announce_created_mem [OF assms(1) inv, of newID ?c D now] mem(1) view' by auto
  moreover have "?c\<lparr>cap_Status := st, cap_UpdatedAt := now\<rparr> = ?c\<lparr>cap_Status := st\<rparr>" for st
    by (simp add: created_capsule_def)
  ultimately show ?thesis
    using valid assms(5) add err c view'
    by (intro exI [of _ m']) (auto simp: Manager_Create_def Let_def Manager_Get_def fun_eq_iff emit_def)
qed

theorem Manager_Create_announces_witness:
  "\<exists>m'. Manager_Create table_engine rows_db ''c9'' 3 ''eu/dc1/prod'' sample_spec (NewManager NewStore) = (m', None) \<and>
    Manager_Get m' = (Manager_Get (NewManager (NewStore :: row list Store)))(''c9'' \<mapsto>
      (created_capsule ''c9'' 3 ''eu/dc1/prod'' (DefaultSpec sample_spec))\<lparr>cap_Status := capsuleStatusAnnounced\<rparr>) \<and>
    Manager_Status m' ''c9'' = Some capsuleStatusAnnounced \<and>
    map me_Type (mg_events m') = [EventCapsuleCreated, EventCapsuleAnnounced] \<and>
    cm_Transitions (mg_metrics m') = 1"
proof -
  have "mg_inv (NewManager (NewStore :: row list Store))"
    by (rule NewManager_inv) (simp add: NewStore_def wf_store_def)
  moreover have "st_db (mg_store (NewManager (NewStore :: row list Store))) = None"
    "Manager_Get (NewManager (NewStore :: row list Store)) ''c9'' = None"
    by (simp_all add: NewManager_def NewStore_def Manager_Get_def view_def Store_Get_def)
  moreover have "submitted_ok sample_spec"
    by (simp add: submitted_ok_def sample_spec_def zeroSpec_def replicas_ok_def)
  moreover have "mg_events (NewManager (NewStore :: row list Store)) = []"
    "cm_Transitions (IncStatusTransition (IncCreated (mg_metrics (NewManager (NewStore :: row list Store))))) = 1"
    by (simp_all add: NewManager_def IncStatusTransition_def IncCreated_def NewCountingMetrics_def s64_def)
  ultimately show ?thesis
    using Manager_Create_announces [OF table_engine_law, of "NewManager NewStore" "''c9''" "''eu/dc1/prod''"
        sample_spec rows_db 3] by fastforce
qed

text \<open>
  \<open>AssignReplica\<close> records the node of one replica: as a map from replica identifiers, the replicas
  of the capsule change at that identifier only, to the given node in state assigned; identifiers stay
  distinct; a second call for the same replica replaces the entry instead of adding one.
\<close>

theorem AssignReplica_updates_one_slot:
  assumes "mg_inv m" and "Manager_Get m i = Some c" and "AssignReplica D now i rid node m = (m', r)"
  shows "\<exists>c'. Manager_Get m' = (Manager_Get m)(i \<mapsto> c') \<and>
     replica_map (cap_Replicas c') = (replica_map (cap_Replicas c))(rid \<mapsto> \<lparr>rs_ReplicaID = rid,
        rs_NodeID = node, rs_Status = capsuleStatusAssigned, rs_StartedAt = now\<rparr>) \<and>
     (distinct (map rs_ReplicaID (cap_Replicas c)) \<longrightarrow> distinct (map rs_ReplicaID (cap_Replicas c'))) \<and>
     assign_replica now' rid node' (cap_Replicas c') = assign_replica now' rid node' (cap_Replicas c)"
proof -
  obtain a where a: "Store_Get (mg_store m) i = Some a" "deref (mg_store m) a = c"
    using assms(2) by (auto simp: Manager_Get_def view_def)
  let ?f = "\<lambda>c. c\<lparr>cap_Replicas := assign_replica now rid node (cap_Replicas c), cap_UpdatedAt := now\<rparr>"
  obtain s' e where run: "store_mutate D now ?f a (mg_store m) = (s', e)" by force
  note props = mutate_props [OF assms(1) a(1) _ run]
  have "m' = m\<lparr>mg_store := s'\<rparr>" using assms(3) a run by (simp add: AssignReplica_def)
  then have "Manager_Get m' = (Manager_Get m)(i \<mapsto> ?f c)" using props(2) a(2) by (simp add: Manager_Get_def [abs_def])
  moreover have "distinct (map rs_ReplicaID (assign_replica now rid node (cap_Replicas c)))"
    if "distinct (map rs_ReplicaID (cap_Replicas c))" using that by (auto simp: assign_replica_ids)
  ultimately show ?thesis by (intro exI [of _ "?f c"]) (simp add: assign_replica_map assign_replica_twice)
qed

theorem AssignReplica_updates_one_slot_witness:
  "case AssignReplica rows_db 9 ''c1'' ''r0'' ''n1'' (fst (manager_run table_engine rows_db
       [(7, CallReceive sample_capsule)] (NewManager NewStore))) of
     (m', r) \<Rightarrow> \<exists>c'. Manager_Get m' ''c1'' = Some c' \<and> map_option rs_NodeID (replica_map (cap_Replicas c') ''r0'') = Some ''n1''"
proof -
  obtain m r where m: "manager_call table_engine rows_db 7 (CallReceive sample_capsule) (NewManager NewStore) = (m, r)"
    by force
  then have get: "Manager_Get m ''c1'' = Some (sample_capsule\<lparr>cap_CreatedAt := 7, cap_UpdatedAt := 7\<rparr>)"
    by (auto simp: Manager_Receive_def NewManager_def NewStore_def Store_Get_def store_new_def new_capsule_def
        Store_Create_def deref_def poke_def sample_capsule_def Let_def Manager_Get_def view_def emit_def
        Store_List_def mput_def)
  have inv: "mg_inv m"
    using manager_call_inv [OF table_engine_law NewManager_inv m] by (simp add: NewStore_def wf_store_def)
  obtain m' r' where assign: "AssignReplica rows_db 9 ''c1'' ''r0'' ''n1'' m = (m', r')" by force
  obtain c' where "Manager_Get m' = (Manager_Get m)(''c1'' \<mapsto> c')"
    "replica_map (cap_Replicas c') ''r0'' = Some \<lparr>rs_ReplicaID = ''r0'', rs_NodeID = ''n1'',
       rs_Status = capsuleStatusAssigned, rs_StartedAt = 9\<rparr>"
    using AssignReplica_updates_one_slot [OF inv get assign, of 0 "[]"] by auto
  then show ?thesis using m assign by simp
qed

text \<open>
  A received update of a known capsule changes the stored status and leaves the lifecycle machine where
  it was: if the statuses differ, the two copies disagree from then on, and \<open>Fire\<close> judges the next
  trigger by the old one.
\<close>

theorem Receive_leaves_machine_behind:
  assumes "mg_inv m" and "status_agrees m" and "Manager_Get m (cap_ID c) = Some old"
    and "cap_Status c \<noteq> cap_Status old" and "Manager_Receive D now c m = (m', None)"
  shows "Manager_Status m' (cap_ID c) = Some (cap_Status old) \<and>
     map_option cap_Status (Manager_Get m' (cap_ID c)) = Some (cap_Status c) \<and> \<not> status_agrees m'"
proof -
  obtain s' e where rep: "store_replace D now c (mg_store m) = (s', e)" by force
  have "Store_Get (mg_store m) (cap_ID c) \<noteq> None" using assms(3) by (auto simp: Manager_Get_def view_def)
  then have m': "e = None" "mg_lifecycles m' = mg_lifecycles m" "mg_store m' = s'"
    using assms(5) rep by (auto simp: Manager_Receive_def split: option.splits)
  have "view s' (cap_ID c) = Some (c\<lparr>cap_UpdatedAt := now\<rparr>)"
    using cstore.replace_ok [OF mg_invD(1) [OF assms(1)] rep [unfolded m'(1)]] by simp
  moreover have "Manager_Status m (cap_ID c) = Some (cap_Status old)"
    using assms(2,3) by (simp add: status_agrees_def)
  ultimately show ?thesis using m' assms(4)
    by (auto simp: Manager_Status_def getLifecycle_def Manager_Get_def status_agrees_def
        intro!: exI [of _ "cap_ID c"])
qed

theorem Receive_leaves_machine_behind_witness:
  "case manager_run table_engine rows_db [(7, CallReceive sample_capsule),
       (8, CallReceive (sample_capsule\<lparr>cap_Status := ''running''\<rparr>))] (NewManager NewStore) of
     (m', rs) \<Rightarrow> rs = [None, None] \<and> \<not> status_agrees m'"
proof -
  let ?c = "sample_capsule\<lparr>cap_Status := ''running''\<rparr>"
  obtain m r where m: "manager_call table_engine rows_db 7 (CallReceive sample_capsule) (NewManager NewStore) = (m, r)"
    by force
  obtain m' r' where m': "Manager_Receive rows_db 8 ?c m = (m', r')" by force
  from m have get: "Manager_Get m ''c1'' = Some (sample_capsule\<lparr>cap_CreatedAt := 7, cap_UpdatedAt := 7\<rparr>)"
    and rs: "r = None" "r' = None"
    using m' by (auto simp: Manager_Receive_def NewManager_def NewStore_def Store_Get_def store_new_def new_capsule_def
        Store_Create_def store_replace_def Store_Update_def deref_def poke_def sample_capsule_def Let_def
        Manager_Get_def view_def emit_def Store_List_def mput_def)
  have inv: "mg_inv (NewManager (NewStore :: row list Store))" "status_agrees (NewManager (NewStore :: row list Store))"
    by (auto intro!: NewManager_inv NewManager_agrees simp: NewStore_def wf_store_def view_def Store_Get_def)
  have "status_safe (NewManager NewStore) (CallReceive sample_capsule) r"
    by (simp add: Manager_Get_def NewManager_def NewStore_def view_def Store_Get_def sample_capsule_def)
  then have "mg_inv m" "status_agrees m"
    using manager_call_inv [OF table_engine_law inv(1) m] manager_call_agrees [OF table_engine_law inv m] by auto
  from Receive_leaves_machine_behind [OF this, of ?c "sample_capsule\<lparr>cap_CreatedAt := 7, cap_UpdatedAt := 7\<rparr>" rows_db 8 m']
  show ?thesis using m m' rs get by (simp add: sample_capsule_def status_defs)
qed

end
