(* ===== verification/Go_Float.thy ===== *)
theory Go_Float
  imports Complex_Main Falak_Prelude
begin

text \<open>
  The \<^verbatim>\<open>float64\<close> arithmetic of the source.

  A finite \<^verbatim>\<open>float64\<close> is the rational number it denotes. Every arithmetic operation of the
  source is the exact rational operation followed by \<open>f64\<close>, the IEEE 754 binary64 rounding:
  53 significant bits, round to nearest, ties to even, gradual underflow below \<open>2\<^sup>-\<^sup>1\<^sup>0\<^sup>2\<^sup>2\<close>.
  The sign of zero, infinities and NaN are not represented: none of the modelled computations
  divides by zero, and overflow beyond \<open>2\<^sup>1\<^sup>0\<^sup>2\<^sup>4\<close> is out of scope.

  The locale \<open>rounding\<close> holds what the components use of a rounding function (monotone, fixes
  0 and 1, odd, idempotent); it is interpreted on \<open>f64\<close>.
\<close>

type_synonym f64 = rat

section \<open>Definitions\<close>

fun nlog2 :: "nat \<Rightarrow> nat" where
  "nlog2 n = (if n < 2 then 0 else Suc (nlog2 (n div 2)))"

declare nlog2.simps [simp del]

text \<open>The binary exponent of a positive rational.\<close>

definition flog2 :: "rat \<Rightarrow> int" where
  "flog2 x = (if 1 \<le> x then int (nlog2 (nat \<lfloor>x\<rfloor>))
              else - int (Suc (nlog2 (nat (\<lceil>1 / x\<rceil> - 1)))))"

definition rne :: "rat \<Rightarrow> int" where
  "rne x = (let n = \<lfloor>x\<rfloor>; d = x - of_int n
            in if d < 1 / 2 then n
               else if 1 / 2 < d then n + 1
               else if even n then n else n + 1)"

definition fexp :: "rat \<Rightarrow> int" where
  "fexp x = max (flog2 \<bar>x\<bar>) (- 1022)"

definition f64 :: "rat \<Rightarrow> f64" where
  "f64 x = (if x = 0 then 0
            else of_int (rne (x / 2 powi (fexp x - 52))) * 2 powi (fexp x - 52))"

definition fadd :: "f64 \<Rightarrow> f64 \<Rightarrow> f64" where "fadd a b = f64 (a + b)"
definition fsub :: "f64 \<Rightarrow> f64 \<Rightarrow> f64" where "fsub a b = f64 (a - b)"
definition fmul :: "f64 \<Rightarrow> f64 \<Rightarrow> f64" where "fmul a b = f64 (a * b)"
definition fdiv :: "f64 \<Rightarrow> f64 \<Rightarrow> f64" where "fdiv a b = f64 (a / b)"

text \<open>The conversions \<^verbatim>\<open>float64(n)\<close> and \<^verbatim>\<open>int64(x)\<close> (which truncates towards zero).\<close>

definition of_integer :: "int \<Rightarrow> f64" where "of_integer n = f64 (of_int n)"

definition to_integer :: "f64 \<Rightarrow> int" where
  "to_integer x = (if 0 \<le> x then \<lfloor>x\<rfloor> else \<lceil>x\<rceil>)"

section \<open>The rounding interface\<close>

locale rounding =
  fixes rnd :: "rat \<Rightarrow> rat"
  assumes mono: "x \<le> y \<Longrightarrow> rnd x \<le> rnd y"
    and zero: "rnd 0 = 0"
    and one: "rnd 1 = 1"
    and odd: "rnd (- x) = - rnd x"
    and idem: "rnd (rnd x) = rnd x"
begin

lemma ge_repr: "rnd a = a \<Longrightarrow> a \<le> x \<Longrightarrow> a \<le> rnd x"
  using mono by metis

lemma le_repr: "rnd a = a \<Longrightarrow> x \<le> a \<Longrightarrow> rnd x \<le> a"
  using mono by metis

lemma nonneg: "0 \<le> x \<Longrightarrow> 0 \<le> rnd x"
  by (rule ge_repr [OF zero])

lemma nonpos: "x \<le> 0 \<Longrightarrow> rnd x \<le> 0"
  by (rule le_repr [OF zero])

lemma le_one: "x \<le> 1 \<Longrightarrow> rnd x \<le> 1"
  by (rule le_repr [OF one])

lemma ge_one: "1 \<le> x \<Longrightarrow> 1 \<le> rnd x"
  by (rule ge_repr [OF one])

lemma unit: "0 \<le> x \<Longrightarrow> x \<le> 1 \<Longrightarrow> 0 \<le> rnd x \<and> rnd x \<le> 1"
  by (simp add: nonneg le_one)

lemma clamp: "rnd lo = lo \<Longrightarrow> rnd hi = hi \<Longrightarrow> lo \<le> x \<Longrightarrow> x \<le> hi \<Longrightarrow> lo \<le> rnd x \<and> rnd x \<le> hi"
  by (simp add: ge_repr le_repr)

lemma add_nonneg: "0 \<le> a \<Longrightarrow> 0 \<le> b \<Longrightarrow> 0 \<le> rnd (a + b)"
  by (rule nonneg) simp

lemma mul_nonneg: "0 \<le> a \<Longrightarrow> 0 \<le> b \<Longrightarrow> 0 \<le> rnd (a * b)"
  by (rule nonneg) simp

end

section \<open>Lemmas\<close>

lemma nlog2_bounds: "0 < n \<Longrightarrow> 2 ^ nlog2 n \<le> n \<and> n < 2 ^ Suc (nlog2 n)"
proof (induction n rule: nlog2.induct)
  case (1 n)
  show ?case
  proof (cases "n < 2")
    case True
    with "1.prems" show ?thesis by (simp add: nlog2.simps [of n])
  next
    case False
    then have "0 < n div 2" by simp
    from "1.IH" [OF False this]
    have "2 ^ nlog2 (n div 2) \<le> n div 2" "n div 2 < 2 ^ Suc (nlog2 (n div 2))" by simp_all
    then have "2 * 2 ^ nlog2 (n div 2) \<le> n" "n < 2 * (2 * 2 ^ nlog2 (n div 2))"
      by (simp_all add: mult.commute [of 2] div_less_iff_less_mult less_eq_div_iff_mult_less_eq
          del: power_Suc) (simp add: mult.commute)
    then show ?thesis using False by (simp add: nlog2.simps [of n])
  qed
qed

lemma flog2_bounds:
  assumes "0 < x"
  shows "2 powi flog2 x \<le> x \<and> x < 2 powi (flog2 x + 1)"
proof (cases "1 \<le> x")
  case True
  define n where "n = nat \<lfloor>x\<rfloor>"
  from True have pos: "0 < n" by (simp add: n_def)
  have n: "rat_of_nat n \<le> x" "x < rat_of_nat n + 1"
    using True by (simp_all add: n_def) linarith
  from nlog2_bounds [OF pos]
  have lo: "rat_of_nat (2 ^ nlog2 n) \<le> rat_of_nat n"
    and hi: "rat_of_nat (n + 1) \<le> rat_of_nat (2 ^ Suc (nlog2 n))"
    by (metis of_nat_le_iff) (metis nlog2_bounds [OF pos] Suc_eq_plus1 Suc_leI of_nat_le_iff)
  have e: "flog2 x = int (nlog2 n)" using True by (simp add: flog2_def n_def)
  have "2 powi flog2 x = rat_of_nat (2 ^ nlog2 n)" by (simp add: e)
  moreover have "2 powi (flog2 x + 1) = rat_of_nat (2 ^ Suc (nlog2 n))"
    by (simp add: e power_int_add)
  ultimately show ?thesis using lo hi n by (simp only: of_nat_add of_nat_1) linarith
next
  case False
  with assms have x: "0 < x" "x < 1" by simp_all
  define m where "m = nat (\<lceil>1 / x\<rceil> - 1)"
  from x have "1 < 1 / x" by simp
  then have c: "1 < \<lceil>1 / x\<rceil>" by linarith
  then have pos: "0 < m" by (simp add: m_def)
  have m: "rat_of_nat m < 1 / x" "1 / x \<le> rat_of_nat m + 1"
    using c by (simp_all add: m_def) linarith+
  from nlog2_bounds [OF pos]
  have lo: "rat_of_nat (2 ^ nlog2 m) \<le> rat_of_nat m"
    and hi: "rat_of_nat (m + 1) \<le> rat_of_nat (2 ^ Suc (nlog2 m))"
    by (metis of_nat_le_iff) (metis nlog2_bounds [OF pos] Suc_eq_plus1 Suc_leI of_nat_le_iff)
  have e: "flog2 x = - int (Suc (nlog2 m))" using False by (simp add: flog2_def m_def)
  have p: "2 powi flog2 x = 1 / rat_of_nat (2 ^ Suc (nlog2 m))"
    by (simp only: e power_int_minus power_int_of_nat) (simp add: field_simps)
  have "flog2 x + 1 = - int (nlog2 m)" by (simp add: e)
  then have q: "2 powi (flog2 x + 1) = 1 / rat_of_nat (2 ^ nlog2 m)"
    by (simp only: power_int_minus power_int_of_nat) (simp add: field_simps)
  have "1 / x \<le> rat_of_nat (2 ^ Suc (nlog2 m))" using m hi by (simp only: of_nat_add of_nat_1)
  moreover have "rat_of_nat (2 ^ nlog2 m) < 1 / x" using m lo by linarith
  ultimately show ?thesis using x unfolding p q by (simp add: field_simps)
qed

lemma flog2_less:
  assumes "0 < x" and "x < 2 powi (e + 1)"
  shows "flog2 x \<le> e"
proof (rule ccontr)
  assume "\<not> flog2 x \<le> e"
  then have "e + 1 \<le> flog2 x" by simp
  then have "(2::rat) powi (e + 1) \<le> 2 powi flog2 x" by (simp add: power_int_increasing)
  with flog2_bounds [OF assms(1)] assms(2) show False by simp
qed

lemma flog2_greater:
  assumes "0 < x" and "2 powi e \<le> x"
  shows "e \<le> flog2 x"
proof (rule ccontr)
  assume "\<not> e \<le> flog2 x"
  then have "flog2 x + 1 \<le> e" by simp
  then have "(2::rat) powi (flog2 x + 1) \<le> 2 powi e" by (simp add: power_int_increasing)
  with flog2_bounds [OF assms(1)] assms(2) show False by simp
qed

lemma rne_of_int [simp]: "rne (of_int n) = n"
  by (simp add: rne_def)

lemma rne_bounds: "\<lfloor>x\<rfloor> \<le> rne x \<and> rne x \<le> \<lfloor>x\<rfloor> + 1"
  by (simp add: rne_def Let_def)

lemma rne_mono:
  assumes "x \<le> y"
  shows "rne x \<le> rne y"
proof -
  from assms have le: "\<lfloor>x\<rfloor> \<le> \<lfloor>y\<rfloor>" by (rule floor_mono)
  show ?thesis
  proof (cases "\<lfloor>x\<rfloor> = \<lfloor>y\<rfloor>")
    case True
    then show ?thesis using assms by (auto simp: rne_def Let_def)
  next
    case False
    with le have "\<lfloor>x\<rfloor> + 1 \<le> \<lfloor>y\<rfloor>" by simp
    then show ?thesis using rne_bounds [of x] rne_bounds [of y] by linarith
  qed
qed

lemma rne_minus: "rne (- x) = - rne x"
proof (cases "x = of_int \<lfloor>x\<rfloor>")
  case True
  then have "- x = of_int (- \<lfloor>x\<rfloor>)" by simp
  then show ?thesis using True by (metis rne_of_int)
next
  case False
  then have "of_int \<lfloor>x\<rfloor> < x" by (metis of_int_floor_le order_le_less)
  then have fl: "\<lfloor>- x\<rfloor> = - \<lfloor>x\<rfloor> - 1"
    by (intro floor_unique) (simp_all, linarith)
  show ?thesis unfolding rne_def Let_def fl by auto
qed


lemma fexp_minus [simp]: "fexp (- x) = fexp x"
  by (simp add: fexp_def)

lemma f64_zero [simp]: "f64 0 = 0"
  by (simp add: f64_def)

lemma f64_minus [simp]: "f64 (- x) = - f64 x"
  by (simp add: f64_def rne_minus)

lemma fexp_upper: "x \<noteq> 0 \<Longrightarrow> \<bar>x\<bar> < 2 powi (fexp x + 1)"
proof -
  assume "x \<noteq> 0"
  then have "\<bar>x\<bar> < 2 powi (flog2 \<bar>x\<bar> + 1)" using flog2_bounds by simp
  also have "\<dots> \<le> 2 powi (fexp x + 1)" by (intro power_int_increasing) (simp_all add: fexp_def)
  finally show ?thesis .
qed

lemma powi_split52: "(2::rat) ^ 52 * 2 powi (e - 52) = 2 powi e"
proof -
  have "(2::rat) powi e = 2 powi (52 + (e - 52))" by simp
  also have "\<dots> = 2 powi 52 * 2 powi (e - 52)" by (rule power_int_add) simp
  finally show ?thesis by simp
qed

lemma powi_split53: "(2::rat) ^ 53 * 2 powi (e - 52) = 2 powi (e + 1)"
proof -
  have "(2::rat) ^ 53 * 2 powi (e - 52) = 2 * (2 ^ 52 * 2 powi (e - 52))" by simp
  also have "\<dots> = 2 * 2 powi e" by (simp only: powi_split52)
  also have "\<dots> = 2 powi (e + 1)" by (simp add: power_int_add)
  finally show ?thesis .
qed

text \<open>A number with at most 53 significant bits above the underflow threshold is exact.\<close>

lemma f64_repr_pos:
  assumes k: "0 < k" "k \<le> 2 ^ 53" and e: "- 1022 \<le> e"
  shows "f64 (of_int k * 2 powi (e - 52)) = of_int k * 2 powi (e - 52)"
proof -
  let ?x = "rat_of_int k * 2 powi (e - 52)"
  have pos: "0 < ?x" using k by simp
  have exact: "f64 ?x = ?x" if le: "fexp ?x \<le> e"
  proof -
    define d where "d = nat (e - fexp ?x)"
    have "(2::rat) powi (e - 52) = 2 powi ((fexp ?x - 52) + int d)"
      using le by (simp add: d_def)
    also have "\<dots> = 2 powi (fexp ?x - 52) * 2 ^ d" by (simp add: power_int_add)
    finally have s: "(2::rat) powi (e - 52) = 2 powi (fexp ?x - 52) * 2 ^ d" .
    have "?x / 2 powi (fexp ?x - 52) = of_int k * (2 powi (e - 52) / 2 powi (fexp ?x - 52))"
      by simp
    also have "2 powi (e - 52) / 2 powi (fexp ?x - 52) = (2::rat) ^ d"
      by (subst s) simp
    finally have "?x / 2 powi (fexp ?x - 52) = of_int (k * 2 ^ d)" by simp
    then have "f64 ?x = of_int (k * 2 ^ d) * 2 powi (fexp ?x - 52)"
      using pos by (simp only: f64_def rne_of_int) simp
    also have "\<dots> = ?x" by (subst (2) s) simp
    finally show ?thesis .
  qed
  show ?thesis
  proof (cases "k < 2 ^ 53")
    case True
    then have "rat_of_int k < 2 ^ 53" by (metis of_int_less_iff of_int_numeral of_int_power)
    then have "?x < 2 ^ 53 * 2 powi (e - 52)" by simp
    then have "?x < 2 powi (e + 1)" by (simp only: powi_split53)
    then have "flog2 ?x \<le> e" by (rule flog2_less [OF pos])
    then show ?thesis using e pos by (intro exact) (simp add: fexp_def)
  next
    case False
    with k have "k = 2 ^ 53" by simp
    then have x: "?x = 2 powi (e + 1)" by (simp only: of_int_power of_int_numeral powi_split53)
    have "flog2 ?x = e + 1"
      using flog2_less [OF pos, of "e + 1"] flog2_greater [OF pos, of "e + 1"]
      by (simp add: x power_int_strict_increasing)
    then have fe: "fexp ?x = e + 1" using e pos by (simp add: fexp_def)
    have q: "?x / 2 powi (e + 1 - 52) = of_int (2 ^ 52)"
      using powi_split52 [of "e + 1"] by (simp only: x) (simp add: field_simps)
    have "f64 ?x = of_int (rne (?x / 2 powi (e + 1 - 52))) * 2 powi (e + 1 - 52)"
      using k by (simp only: f64_def fe) simp
    also have "\<dots> = 2 ^ 52 * 2 powi (e + 1 - 52)" by (simp only: q rne_of_int) simp
    also have "\<dots> = ?x" by (simp only: powi_split52 x)
    finally show ?thesis .
  qed
qed

lemma f64_repr:
  assumes "\<bar>k\<bar> \<le> 2 ^ 53" and "- 1022 \<le> e"
  shows "f64 (of_int k * 2 powi (e - 52)) = of_int k * 2 powi (e - 52)"
proof (cases k "0::int" rule: linorder_cases)
  case less
  with assms f64_repr_pos [of "- k" e] show ?thesis by simp
next
  case equal
  then show ?thesis by simp
next
  case greater
  with assms f64_repr_pos [of k e] show ?thesis by simp
qed

lemma f64_of_int: "\<bar>k\<bar> \<le> 2 ^ 53 \<Longrightarrow> f64 (of_int k) = of_int k"
  using f64_repr [of k 52] by simp

lemma f64_rne_bound: "x \<noteq> 0 \<Longrightarrow> \<bar>rne (x / 2 powi (fexp x - 52))\<bar> \<le> 2 ^ 53"
proof -
  assume "x \<noteq> 0"
  let ?q = "(2::rat) powi (fexp x - 52)"
  from fexp_upper [OF \<open>x \<noteq> 0\<close>] have "\<bar>x\<bar> < 2 ^ 53 * ?q" by (simp only: powi_split53)
  then have "x < 2 ^ 53 * ?q" "- (2 ^ 53 * ?q) < x" by linarith+
  then have "x / ?q \<le> of_int (2 ^ 53)" "of_int (- (2 ^ 53)) \<le> x / ?q"
    by (simp_all add: pos_divide_le_eq pos_le_divide_eq)
  from rne_mono [OF this(1)] rne_mono [OF this(2)] show ?thesis
    unfolding rne_of_int by (intro abs_leI) linarith+
qed

lemma f64_idem [simp]: "f64 (f64 x) = f64 x"
proof (cases "x = 0")
  case False
  then show ?thesis using f64_repr [OF f64_rne_bound [OF False], of "fexp x"]
    by (simp add: f64_def [of x] fexp_def)
qed simp

lemma f64_le_pow: "0 < x \<Longrightarrow> f64 x \<le> 2 powi (fexp x + 1)"
proof -
  assume x: "0 < x"
  from f64_rne_bound [of x] x have "rne (x / 2 powi (fexp x - 52)) \<le> 2 ^ 53" by simp
  then have "rat_of_int (rne (x / 2 powi (fexp x - 52))) \<le> 2 ^ 53"
    by (metis of_int_le_iff of_int_numeral of_int_power)
  then have "f64 x \<le> 2 ^ 53 * 2 powi (fexp x - 52)" using x by (simp add: f64_def)
  then show ?thesis by (simp only: powi_split53)
qed

lemma f64_ge_pow: "0 < x \<Longrightarrow> 2 powi e \<le> x \<Longrightarrow> fexp x = e \<Longrightarrow> 2 powi e \<le> f64 x"
proof -
  assume x: "0 < x" and e: "2 powi e \<le> x" and fe: "fexp x = e"
  from e have "2 ^ 52 * 2 powi (e - 52) \<le> x" by (simp only: powi_split52)
  then have "of_int (2 ^ 52) \<le> x / 2 powi (e - 52)" by (simp add: pos_le_divide_eq)
  from rne_mono [OF this] have "2 ^ 52 \<le> rne (x / 2 powi (e - 52))" by (simp only: rne_of_int)
  then have "(2::rat) ^ 52 \<le> of_int (rne (x / 2 powi (e - 52)))"
    by (metis of_int_le_iff of_int_numeral of_int_power)
  then have "2 ^ 52 * 2 powi (e - 52) \<le> f64 x" using x by (simp add: f64_def fe)
  then show ?thesis by (simp only: powi_split52)
qed

lemma f64_pos_mono:
  assumes "0 < x" and "x \<le> y"
  shows "f64 x \<le> f64 y"
proof -
  from assms have y: "0 < y" by simp
  have "flog2 x \<le> flog2 y"
    using flog2_bounds [OF assms(1)] assms(2) by (intro flog2_greater [OF y]) linarith
  then have le: "fexp x \<le> fexp y" using assms y by (simp add: fexp_def)
  show ?thesis
  proof (cases "fexp x = fexp y")
    case True
    have "rne (x / 2 powi (fexp y - 52)) \<le> rne (y / 2 powi (fexp y - 52))"
      using assms by (intro rne_mono) (simp add: divide_right_mono)
    then show ?thesis using assms y True by (simp add: f64_def)
  next
    case False
    with le have lt: "fexp x + 1 \<le> fexp y" by simp
    then have fy: "fexp y = flog2 y" using y by (simp add: fexp_def)
    have "f64 x \<le> 2 powi (fexp x + 1)" by (rule f64_le_pow [OF assms(1)])
    also have "\<dots> \<le> 2 powi fexp y" using lt by (intro power_int_increasing) simp_all
    also have "\<dots> \<le> f64 y" using flog2_bounds [OF y] by (intro f64_ge_pow [OF y]) (simp_all add: fy)
    finally show ?thesis .
  qed
qed

lemma f64_nonneg_aux: "0 \<le> x \<Longrightarrow> 0 \<le> f64 x"
proof (cases "x = 0")
  case False
  assume "0 \<le> x"
  then have "0 \<le> x / 2 powi (fexp x - 52)" by simp
  from rne_mono [OF this] have "0 \<le> rne (x / 2 powi (fexp x - 52))"
    using rne_of_int [of 0] by simp
  then show ?thesis by (simp add: f64_def)
qed simp

lemma f64_mono: "x \<le> y \<Longrightarrow> f64 x \<le> f64 y"
proof -
  assume le: "x \<le> y"
  consider "0 < x" | "x \<le> 0" "0 \<le> y" | "y < 0" by linarith
  then show ?thesis
  proof cases
    case 1
    then show ?thesis using le by (rule f64_pos_mono)
  next
    case 2
    then show ?thesis using f64_nonneg_aux [of y] f64_nonneg_aux [of "- x"] by simp
  next
    case 3
    then show ?thesis using f64_pos_mono [of "- y" "- x"] le by simp
  qed
qed

lemma f64_one [simp]: "f64 1 = 1"
  using f64_of_int [of 1] by simp

interpretation ieee: rounding f64
  by unfold_locales (simp_all add: f64_mono)

lemma f64_numeral: "numeral n \<le> (2::int) ^ 53 \<Longrightarrow> f64 (numeral n) = numeral n"
  using f64_of_int [of "numeral n"] by simp

lemma f64_of_nat: "int n \<le> 2 ^ 53 \<Longrightarrow> f64 (of_nat n) = of_nat n"
  using f64_of_int [of "int n"] by simp

lemma f64_100 [simp]: "f64 100 = 100" and f64_50 [simp]: "f64 50 = 50"
  by (simp_all add: f64_numeral)

lemma of_integer_nonneg: "0 \<le> n \<Longrightarrow> 0 \<le> of_integer n"
  by (simp add: of_integer_def ieee.nonneg)

lemma of_integer_pos: "0 < n \<Longrightarrow> 1 \<le> of_integer n"
  unfolding of_integer_def by (rule ieee.ge_one) simp

lemma of_integer_mono: "m \<le> n \<Longrightarrow> of_integer m \<le> of_integer n"
  by (simp add: of_integer_def f64_mono)

lemma of_integer_small: "\<bar>n\<bar> \<le> 2 ^ 53 \<Longrightarrow> of_integer n = of_int n"
  by (simp add: of_integer_def f64_of_int)

lemma to_integer_mono: "x \<le> y \<Longrightarrow> to_integer x \<le> to_integer y"
  by (auto simp: to_integer_def floor_mono ceiling_mono) (meson ceiling_le_zero le_floor_iff not_le of_int_0 order_trans less_imp_le zero_le_floor)

lemma to_integer_bounds: "0 \<le> x \<Longrightarrow> 0 \<le> to_integer x \<and> of_int (to_integer x) \<le> x"
  by (simp add: to_integer_def)

subsection \<open>Rounding error\<close>

lemma rne_error: "\<bar>rat_of_int (rne x) - x\<bar> \<le> 1 / 2"
proof -
  have "0 \<le> x - of_int \<lfloor>x\<rfloor>" "x - of_int \<lfloor>x\<rfloor> < 1" by (simp, linarith)
  then show ?thesis by (auto simp: rne_def Let_def)
qed

lemma f64_error:
  assumes "\<bar>x\<bar> < 2 powi (e + 1)" "- 1022 \<le> e"
  shows "\<bar>f64 x - x\<bar> \<le> 2 powi (e - 53)"
proof (cases "x = 0")
  case False
  let ?u = "(2::rat) powi (fexp x - 52)"
  have "flog2 \<bar>x\<bar> \<le> e" using False assms(1) by (intro flog2_less) simp_all
  then have "fexp x - 52 \<le> e - 52" using assms(2) by (simp add: fexp_def)
  then have u: "?u \<le> 2 powi (e - 52)" by (intro power_int_increasing) simp_all
  have "f64 x - x = (of_int (rne (x / ?u)) - x / ?u) * ?u" using False by (simp add: f64_def left_diff_distrib)
  then have "\<bar>f64 x - x\<bar> = \<bar>of_int (rne (x / ?u)) - x / ?u\<bar> * ?u" by (simp add: abs_mult)
  also have "\<dots> \<le> 1 / 2 * ?u" by (intro mult_right_mono rne_error) simp
  also have "\<dots> \<le> 1 / 2 * 2 powi (e - 52)" using u by simp
  also have "\<dots> = 2 powi (e - 53)" using power_int_add [of "2::rat" 1 "e - 53"] by simp
  finally show ?thesis .
qed simp

end
