(* ===== verification/Capsule_Wire.thy ===== *)
theory Capsule_Wire
  imports Capsule_Spec Go_Float
begin

text \<open>
  The conversions between capsules and the protobuf messages that orbits carry: \<^verbatim>\<open>capsuleToProto\<close>,
  \<^verbatim>\<open>specToProto\<close> and \<^verbatim>\<open>replicaStatesToProto\<close> of \<^verbatim>\<open>src/capsule/orbit/announcement.go\<close>, and \<^verbatim>\<open>protoToCapsule\<close>
  and \<^verbatim>\<open>protoToSpec\<close> of \<^verbatim>\<open>src/node/capsule_handler.go\<close>.

  The records hold the fields of the generated message types that one of the conversions writes or reads; a
  submessage and a timestamp are options, \<open>None\<close> being \<^verbatim>\<open>nil\<close>. A \<^verbatim>\<open>timestamppb.Timestamp\<close> keeps
  nanoseconds, so \<^verbatim>\<open>timestamppb.New\<close> and \<^verbatim>\<open>AsTime\<close> lose nothing of an instant.
\<close>

section \<open>Definitions\<close>

subsection \<open>Messages\<close>

record PbReplicaState =
  prs_ReplicaId :: string
  prs_NodeId :: string
  prs_Status :: string
  prs_StartedAt :: "time option"

record PbMomentumState =
  pms_Current :: int
  pms_Base :: int
  pms_LastAdjusted :: "time option"

record PbScalingRule =
  psr_Name :: string
  psr_Trigger :: string
  psr_Conditions :: "string list"
  psr_Action :: string
  psr_CooldownSeconds :: int

record PbPlacementRule =
  ppr_Name :: string
  ppr_Type :: string
  ppr_Mode :: string
  ppr_TargetNames :: "string list"
  ppr_Labels :: labels
  ppr_Required :: bool

record PbResourceRequirements =
  pres_CpuCores :: int
  pres_MemoryMb :: int
  pres_DiskMb :: int

record PbReplicaConfig =
  prc_Min :: int
  prc_Max :: int
  prc_Exact :: int

record PbRuntimeConfig =
  prt_Env :: labels

record PbMomentumConfig =
  pmc_Base :: int
  pmc_BoostOnTraffic :: bool
  pmc_ReduceOnIdle :: bool
  pmc_IdleTimeoutSeconds :: int

record PbCapsuleSpec =
  psp_Name :: string
  psp_Image :: string
  psp_ImageDigest :: string
  psp_Orbit :: string
  psp_Tier :: string
  psp_Labels :: labels
  psp_Resources :: "PbResourceRequirements option"
  psp_Replicas :: "PbReplicaConfig option"
  psp_ScalingRules :: "PbScalingRule list"
  psp_PlacementRules :: "PbPlacementRule list"
  psp_Runtime :: "PbRuntimeConfig option"
  psp_MomentumConfig :: "PbMomentumConfig option"

record PbCapsule =
  pc_Id :: string
  pc_ClusterId :: string
  pc_Spec :: "PbCapsuleSpec option"
  pc_Status :: string
  pc_Replicas :: "PbReplicaState list"
  pc_Version :: string
  pc_CreatedAt :: "time option"
  pc_UpdatedAt :: "time option"
  pc_Momentum :: "PbMomentumState option"

subsection \<open>Durations\<close>

text \<open>\<^verbatim>\<open>Duration.Seconds\<close>: whole seconds and the fraction are divided with truncation and added as floats. The
  conversion of a float to \<^verbatim>\<open>int32\<close> truncates; a value that does not fit wraps around, which is what the
  amd64 compiler does (the language leaves it open).\<close>

definition Duration_Seconds :: "duration \<Rightarrow> f64" where
  "Duration_Seconds d = (let
     sec = sgn d * (\<bar>d\<bar> div Second);
     nsec = sgn d * (\<bar>d\<bar> mod Second)
   in fadd (of_integer sec) (fdiv (of_integer nsec) (of_integer 1000000000)))"

definition int32_Seconds :: "duration \<Rightarrow> int" where
  "int32_Seconds d = s32 (to_integer (Duration_Seconds d))"

subsection \<open>From capsules to messages\<close>

definition scalingRuleToProto :: "ScalingRule \<Rightarrow> PbScalingRule" where
  "scalingRuleToProto rule = \<lparr>psr_Name = sr_Name rule, psr_Trigger = sr_Trigger rule,
     psr_Conditions = sr_Conditions rule, psr_Action = sr_Action rule,
     psr_CooldownSeconds = int32_Seconds (sr_Cooldown rule)\<rparr>"

definition placementRuleToProto :: "PlacementRule \<Rightarrow> PbPlacementRule" where
  "placementRuleToProto rule = \<lparr>ppr_Name = pr_Name rule, ppr_Type = pr_Type rule, ppr_Mode = pr_Mode rule,
     ppr_TargetNames = pr_Names rule, ppr_Labels = pr_Labels rule, ppr_Required = pr_Required rule\<rparr>"

definition specToProto :: "CapsuleSpec \<Rightarrow> PbCapsuleSpec" where
  "specToProto s = \<lparr>psp_Name = spec_Name s, psp_Image = spec_Image s, psp_ImageDigest = spec_ImageDigest s,
     psp_Orbit = spec_Orbit s, psp_Tier = spec_Tier s, psp_Labels = spec_Labels s,
     psp_Resources = Some \<lparr>pres_CpuCores = res_CPUCores (spec_Resources s),
       pres_MemoryMb = res_MemoryMB (spec_Resources s), pres_DiskMb = res_DiskMB (spec_Resources s)\<rparr>,
     psp_Replicas = Some \<lparr>prc_Min = rc_Min (spec_Replicas s), prc_Max = rc_Max (spec_Replicas s),
       prc_Exact = rc_Exact (spec_Replicas s)\<rparr>,
     psp_ScalingRules = map scalingRuleToProto (spec_ScalingRules s),
     psp_PlacementRules = map placementRuleToProto (spec_PlacementRules s),
     psp_Runtime = Some \<lparr>prt_Env = rt_Env (spec_Runtime s)\<rparr>,
     psp_MomentumConfig = Some \<lparr>pmc_Base = mc_Base (spec_MomentumConfig s),
       pmc_BoostOnTraffic = mc_BoostOnTraffic (spec_MomentumConfig s),
       pmc_ReduceOnIdle = mc_ReduceOnIdle (spec_MomentumConfig s),
       pmc_IdleTimeoutSeconds = int32_Seconds (mc_IdleTimeout (spec_MomentumConfig s))\<rparr>\<rparr>"

definition replicaStateToProto :: "ReplicaState \<Rightarrow> PbReplicaState" where
  "replicaStateToProto r = \<lparr>prs_ReplicaId = rs_ReplicaID r, prs_NodeId = rs_NodeID r, prs_Status = rs_Status r,
     prs_StartedAt = Some (rs_StartedAt r)\<rparr>"

definition replicaStatesToProto :: "ReplicaState list \<Rightarrow> PbReplicaState list" where
  "replicaStatesToProto replicas = map replicaStateToProto replicas"

definition momentumToProto :: "MomentumState \<Rightarrow> PbMomentumState" where
  "momentumToProto m = \<lparr>pms_Current = ms_Current m, pms_Base = ms_Base m, pms_LastAdjusted = Some (ms_LastAdjusted m)\<rparr>"

definition capsuleToProto :: "Capsule \<Rightarrow> PbCapsule" where
  "capsuleToProto c = \<lparr>pc_Id = cap_ID c, pc_ClusterId = cap_ClusterID c, pc_Spec = Some (specToProto (cap_Spec c)),
     pc_Status = cap_Status c, pc_Replicas = replicaStatesToProto (cap_Replicas c), pc_Version = cap_Version c,
     pc_CreatedAt = Some (cap_CreatedAt c), pc_UpdatedAt = Some (cap_UpdatedAt c),
     pc_Momentum = Some (momentumToProto (cap_Momentum c))\<rparr>"

subsection \<open>From messages to capsules\<close>

definition protoToScalingRule :: "PbScalingRule \<Rightarrow> ScalingRule" where
  "protoToScalingRule rule = \<lparr>sr_Name = psr_Name rule, sr_Trigger = psr_Trigger rule,
     sr_Conditions = psr_Conditions rule, sr_Action = psr_Action rule,
     sr_Cooldown = psr_CooldownSeconds rule * Second\<rparr>"

definition protoToPlacementRule :: "PbPlacementRule \<Rightarrow> PlacementRule" where
  "protoToPlacementRule rule = \<lparr>pr_Name = ppr_Name rule, pr_Type = ppr_Type rule, pr_Mode = ppr_Mode rule,
     pr_Names = ppr_TargetNames rule, pr_Labels = ppr_Labels rule, pr_Required = ppr_Required rule\<rparr>"

definition protoToSpec :: "PbCapsuleSpec \<Rightarrow> CapsuleSpec" where
  "protoToSpec pb = (let
     spec = zeroSpec\<lparr>spec_Name := psp_Name pb, spec_Image := psp_Image pb, spec_ImageDigest := psp_ImageDigest pb,
       spec_Orbit := psp_Orbit pb, spec_Tier := psp_Tier pb, spec_Labels := psp_Labels pb\<rparr>;
     spec = (case psp_Resources pb of None \<Rightarrow> spec | Some r \<Rightarrow> spec\<lparr>spec_Resources :=
       \<lparr>res_CPUCores = pres_CpuCores r, res_CPUCoresMax = 0, res_MemoryMB = pres_MemoryMb r, res_MemoryMBMax = 0,
        res_DiskMB = pres_DiskMb r\<rparr>\<rparr>);
     spec = (case psp_Replicas pb of None \<Rightarrow> spec | Some r \<Rightarrow> spec\<lparr>spec_Replicas :=
       \<lparr>rc_Min = prc_Min r, rc_Max = prc_Max r, rc_Exact = prc_Exact r\<rparr>\<rparr>);
     spec = (case psp_Runtime pb of None \<Rightarrow> spec | Some r \<Rightarrow>
       spec\<lparr>spec_Runtime := (spec_Runtime spec)\<lparr>rt_Env := prt_Env r\<rparr>\<rparr>);
     spec = (case psp_MomentumConfig pb of None \<Rightarrow> spec | Some m \<Rightarrow> spec\<lparr>spec_MomentumConfig :=
       \<lparr>mc_Base = pmc_Base m, mc_BoostOnTraffic = pmc_BoostOnTraffic m, mc_ReduceOnIdle = pmc_ReduceOnIdle m,
        mc_IdleTimeout = pmc_IdleTimeoutSeconds m * Second\<rparr>\<rparr>);
     spec = spec\<lparr>spec_ScalingRules := map protoToScalingRule (psp_ScalingRules pb)\<rparr>
   in spec\<lparr>spec_PlacementRules := map protoToPlacementRule (psp_PlacementRules pb)\<rparr>)"

text \<open>An absent timestamp leaves the zero time.\<close>

definition asTime :: "time option \<Rightarrow> time" where
  "asTime ts = (case ts of None \<Rightarrow> zeroTime | Some t \<Rightarrow> t)"

definition protoToReplica :: "PbReplicaState \<Rightarrow> ReplicaState" where
  "protoToReplica r = \<lparr>rs_ReplicaID = prs_ReplicaId r, rs_NodeID = prs_NodeId r, rs_Status = prs_Status r,
     rs_StartedAt = asTime (prs_StartedAt r)\<rparr>"

definition protoToCapsule :: "PbCapsule option \<Rightarrow> Capsule option" where
  "protoToCapsule pb = (case pb of None \<Rightarrow> None | Some pb \<Rightarrow> Some \<lparr>
     cap_ID = pc_Id pb, cap_ClusterID = pc_ClusterId pb,
     cap_Spec = (case pc_Spec pb of None \<Rightarrow> zeroSpec | Some s \<Rightarrow> protoToSpec s),
     cap_Status = pc_Status pb, cap_Replicas = map protoToReplica (pc_Replicas pb),
     cap_Momentum = (case pc_Momentum pb of None \<Rightarrow> zeroMomentum
       | Some m \<Rightarrow> \<lparr>ms_Current = pms_Current m, ms_Base = pms_Base m, ms_LastAdjusted = asTime (pms_LastAdjusted m)\<rparr>),
     cap_Version = pc_Version pb, cap_CreatedAt = asTime (pc_CreatedAt pb), cap_UpdatedAt = asTime (pc_UpdatedAt pb)\<rparr>)"

subsection \<open>Specification\<close>

text \<open>What the wire can carry: a duration of whole seconds that fit \<^verbatim>\<open>int32\<close>, and a specification that sets none
  of the fields the messages leave out.\<close>

definition wire_duration :: "duration \<Rightarrow> bool" where
  "wire_duration d \<longleftrightarrow> Second dvd d \<and> in_s32 (d div Second)"

definition wire_spec :: "CapsuleSpec \<Rightarrow> bool" where
  "wire_spec s \<longleftrightarrow> spec_ImageAlias s = '''' \<and> spec_Command s = [] \<and>
     res_CPUCoresMax (spec_Resources s) = 0 \<and> res_MemoryMBMax (spec_Resources s) = 0 \<and>
     spec_Runtime s = (spec_Runtime zeroSpec)\<lparr>rt_Env := rt_Env (spec_Runtime s)\<rparr> \<and>
     wire_duration (mc_IdleTimeout (spec_MomentumConfig s)) \<and>
     list_all (\<lambda>rule. wire_duration (sr_Cooldown rule)) (spec_ScalingRules s)"

section \<open>Lemmas\<close>

lemma Duration_Seconds_whole: "\<bar>n\<bar> \<le> 2 ^ 53 \<Longrightarrow> Duration_Seconds (n * Second) = of_int n"
  by (simp add: Duration_Seconds_def abs_mult sgn_mult fadd_def fdiv_def of_integer_small f64_of_int
      ieee.zero sgn_mult_abs Let_def)

lemma int32_Seconds_whole: "in_s32 n \<Longrightarrow> int32_Seconds (n * Second) = n"
proof -
  assume n: "in_s32 n"
  then have "\<bar>n\<bar> \<le> 2 ^ 53" by (auto simp: in_s32_def)
  then show ?thesis using n by (simp add: int32_Seconds_def Duration_Seconds_whole to_integer_def)
qed

lemma seconds_roundtrip: "int32_Seconds d * Second = d \<longleftrightarrow> wire_duration d"
proof
  assume d: "int32_Seconds d * Second = d"
  have "in_s32 (int32_Seconds d)" by (simp add: int32_Seconds_def s32_range)
  moreover have "Second dvd d" using d by (metis dvd_triv_right)
  moreover have "d div Second = int32_Seconds d" using d by (metis nonzero_mult_div_cancel_right zero_neq_numeral)
  ultimately show "wire_duration d" by (simp add: wire_duration_def)
next
  assume "wire_duration d"
  then show "int32_Seconds d * Second = d"
    using int32_Seconds_whole [of "d div Second"] by (simp add: wire_duration_def)
qed

lemma scalingRule_roundtrip:
  "protoToScalingRule (scalingRuleToProto r) = r \<longleftrightarrow> wire_duration (sr_Cooldown r)"
  using seconds_roundtrip [of "sr_Cooldown r"]
  by (cases r) (simp add: protoToScalingRule_def scalingRuleToProto_def)

lemma placementRule_roundtrip [simp]: "protoToPlacementRule (placementRuleToProto r) = r"
  by (cases r) (simp add: protoToPlacementRule_def placementRuleToProto_def)

lemma replica_roundtrip [simp]: "protoToReplica (replicaStateToProto r) = r"
  by (cases r) (simp add: protoToReplica_def replicaStateToProto_def asTime_def)

lemma map_id_iff: "map f xs = xs \<longleftrightarrow> list_all (\<lambda>x. f x = x) xs"
  by (induction xs) auto

lemma spec_roundtrip: "protoToSpec (specToProto s) = s \<longleftrightarrow> wire_spec s"
proof -
  obtain n im al dg orb tier ls res reps scal plc rt mc cmd where s: "s = \<lparr>spec_Name = n, spec_Image = im,
      spec_ImageAlias = al, spec_ImageDigest = dg, spec_Orbit = orb, spec_Tier = tier, spec_Labels = ls,
      spec_Resources = res, spec_Replicas = reps, spec_ScalingRules = scal, spec_PlacementRules = plc,
      spec_Runtime = rt, spec_MomentumConfig = mc, spec_Command = cmd\<rparr>" by (cases s)
  show ?thesis unfolding s
    by (cases res; cases reps; cases mc)
      (auto simp: protoToSpec_def specToProto_def wire_spec_def zeroSpec_def Let_def map_id_iff o_def
        scalingRule_roundtrip seconds_roundtrip)
qed

lemma capsule_roundtrip_view:
  "protoToCapsule (Some (capsuleToProto c)) = Some (c\<lparr>cap_Spec := protoToSpec (specToProto (cap_Spec c))\<rparr>)"
proof (cases c)
  case (fields cid cl sp st rs mom v cr up)
  then show ?thesis
    by (cases mom) (simp add: protoToCapsule_def capsuleToProto_def replicaStatesToProto_def momentumToProto_def
        asTime_def o_def)
qed

lemma default_not_wire: "\<not> wire_spec (DefaultSpec s)"
proof
  let ?mode = "\<lambda>r. net_Mode (rt_Network r)"
  assume "wire_spec (DefaultSpec s)"
  then have "?mode (spec_Runtime (DefaultSpec s)) = ?mode ((spec_Runtime zeroSpec)\<lparr>rt_Env := rt_Env (spec_Runtime (DefaultSpec s))\<rparr>)"
    by (metis wire_spec_def)
  then have "?mode (defaultRuntime (spec_Runtime s)) = ''''" by (simp add: DefaultSpec_def Let_def zeroSpec_def)
  then show False by (simp add: defaultRuntime_def dflt_def networkModeBridge_def split: if_splits)
qed

section \<open>Properties\<close>

text \<open>
  C17. What survives gossip. A capsule that is announced and converted back by the receiver is the announced capsule
  with another specification, and it is the same capsule exactly when its specification has no image alias, no
  command, no maximum of CPU or memory, no runtime configuration but the environment, and durations of whole
  seconds that fit \<^verbatim>\<open>int32\<close>.
\<close>

theorem capsule_wire_roundtrip:
  "protoToCapsule (Some (capsuleToProto c)) = Some (c\<lparr>cap_Spec := protoToSpec (specToProto (cap_Spec c))\<rparr>) \<and>
   (protoToCapsule (Some (capsuleToProto c)) = Some c \<longleftrightarrow> wire_spec (cap_Spec c))"
proof -
  have "c\<lparr>cap_Spec := s\<rparr> = c \<longleftrightarrow> s = cap_Spec c" for s by (cases c) auto
  then show ?thesis by (simp add: capsule_roundtrip_view spec_roundtrip)
qed

text \<open>
  No specification that \<^verbatim>\<open>Create\<close> has given its defaults survives: the receiver gets it without the network
  mode, so a capsule created on one node never reaches another one unchanged.
\<close>

theorem defaulted_spec_changes_on_wire:
  "protoToSpec (specToProto (DefaultSpec s)) \<noteq> DefaultSpec s \<and>
   net_Mode (rt_Network (spec_Runtime (protoToSpec (specToProto (DefaultSpec s))))) = '''' \<and>
   spec_Command (protoToSpec (specToProto (DefaultSpec s))) = []"
  using spec_roundtrip [of "DefaultSpec s"] default_not_wire [of s]
  by (simp add: protoToSpec_def specToProto_def zeroSpec_def Let_def)

end
