(* ===== verification/Signing.thy ===== *)
theory Signing
  imports Falak_Prelude
begin

text \<open>
  \<^verbatim>\<open>src/node/internal/signing/buffer.go\<close>: the canonical byte buffer over which messages are signed. A byte
  string is a \<open>string\<close>. The locale \<open>prefix_free\<close> states what signing relies on: an encoded value can be told
  apart from whatever follows it. It is interpreted on the big-endian integers, on \<^verbatim>\<open>WriteField\<close>,
  \<^verbatim>\<open>WriteBool\<close> and \<^verbatim>\<open>WriteStrings\<close> here, and on the fields of the election and orbit envelopes in their
  theories.
\<close>

section \<open>Definitions\<close>

text \<open>\<^verbatim>\<open>binary.BigEndian.PutUint32\<close> and \<^verbatim>\<open>PutUint64\<close>: the low \<open>k\<close> bytes of \<open>n\<close>, the highest first.\<close>

fun bigEndian :: "nat \<Rightarrow> nat \<Rightarrow> string" where
  "bigEndian 0 n = []"
| "bigEndian (Suc k) n = bigEndian k (n div 256) @ [char_of (n mod 256)]"

definition PutUint32 :: "nat \<Rightarrow> string" where "PutUint32 n = bigEndian 4 n"
definition PutUint64 :: "nat \<Rightarrow> string" where "PutUint64 n = bigEndian 8 n"

text \<open>The conversion \<^verbatim>\<open>uint64(x)\<close> of an \<^verbatim>\<open>int64\<close>.\<close>

definition u64 :: "int \<Rightarrow> nat" where "u64 x = nat (x mod 18446744073709551616)"

type_synonym Buffer = string

definition NewBuffer :: Buffer where "NewBuffer = []"

definition WriteField :: "string \<Rightarrow> Buffer \<Rightarrow> Buffer" where
  "WriteField data b = b @ PutUint32 (length data) @ data"

definition WriteString :: "string \<Rightarrow> Buffer \<Rightarrow> Buffer" where
  "WriteString s b = WriteField s b"

definition WriteBool :: "bool \<Rightarrow> Buffer \<Rightarrow> Buffer" where
  "WriteBool v b = (if v then b @ [char_of (1::nat)] else b @ [char_of (0::nat)])"

definition WriteStrings :: "string list \<Rightarrow> Buffer \<Rightarrow> Buffer" where
  "WriteStrings ss b = fold WriteString ss (b @ PutUint32 (length ss))"

definition WriteTimeBinary :: "string \<Rightarrow> Buffer \<Rightarrow> Buffer" where
  "WriteTimeBinary timeBytes b = WriteField timeBytes b"

definition Bytes :: "Buffer \<Rightarrow> string" where "Bytes b = b"
definition Buffer_Len :: "Buffer \<Rightarrow> nat" where "Buffer_Len b = length b"
definition Buffer_Reset :: "Buffer \<Rightarrow> Buffer" where "Buffer_Reset b = []"

subsection \<open>Specification\<close>

text \<open>The writes of one message, and the buffer a caller builds with them.\<close>

datatype write_call = WField string | WBool bool | WStrings "string list"

fun do_write :: "write_call \<Rightarrow> Buffer \<Rightarrow> Buffer" where
  "do_write (WField s) b = WriteField s b"
| "do_write (WBool v) b = WriteBool v b"
| "do_write (WStrings ss) b = WriteStrings ss b"

definition message :: "write_call list \<Rightarrow> string" where
  "message ws = Bytes (fold do_write ws NewBuffer)"

fun same_kind :: "write_call \<Rightarrow> write_call \<Rightarrow> bool" where
  "same_kind (WField _) (WField _) = True"
| "same_kind (WBool _) (WBool _) = True"
| "same_kind (WStrings _) (WStrings _) = True"
| "same_kind _ _ = False"

definition short :: "string \<Rightarrow> bool" where "short s \<longleftrightarrow> length s < 4294967296"

fun small_write :: "write_call \<Rightarrow> bool" where
  "small_write (WField s) = short s"
| "small_write (WBool _) = True"
| "small_write (WStrings ss) = (length ss < 4294967296 \<and> list_all short ss)"

text \<open>The bytes that each write appends.\<close>

definition field :: "string \<Rightarrow> string" where
  "field data = PutUint32 (length data) @ data"

definition strings :: "string list \<Rightarrow> string" where
  "strings ss = PutUint32 (length ss) @ concat (map field ss)"

definition boolByte :: "bool \<Rightarrow> string" where
  "boolByte v = [if v then char_of (1::nat) else char_of (0::nat)]"

fun enc_write :: "write_call \<Rightarrow> string" where
  "enc_write (WField s) = field s"
| "enc_write (WBool v) = boolByte v"
| "enc_write (WStrings ss) = strings ss"

text \<open>The four signed fields of a gossip envelope; the timestamp is empty or eight bytes.\<close>

definition timeBytes :: "time option \<Rightarrow> string" where
  "timeBytes ts = (case ts of None \<Rightarrow> [] | Some t \<Rightarrow> PutUint64 (u64 (s64 t)))"

definition envelopeContent :: "string \<Rightarrow> string \<Rightarrow> string \<Rightarrow> time option \<Rightarrow> string" where
  "envelopeContent typ payload sender ts = field typ @ field payload @ field sender @ field (timeBytes ts)"

section \<open>Prefix-free encodings\<close>

locale prefix_free =
  fixes enc :: "'a \<Rightarrow> string" and ok :: "'a \<Rightarrow> bool"
  assumes unique: "ok a \<Longrightarrow> ok b \<Longrightarrow> enc a @ x = enc b @ y \<Longrightarrow> a = b \<and> x = y"
begin

lemma inj: "ok a \<Longrightarrow> ok b \<Longrightarrow> enc a = enc b \<Longrightarrow> a = b"
  using unique [of a b "[]" "[]"] by simp

lemma then_unique: "ok a \<Longrightarrow> ok b \<Longrightarrow> enc a @ x = enc b @ y \<longleftrightarrow> a = b \<and> x = y"
  using unique by blast

lemma concat_unique:
  "list_all ok as \<Longrightarrow> list_all ok bs \<Longrightarrow> length as = length bs \<Longrightarrow>
   concat (map enc as) @ x = concat (map enc bs) @ y \<Longrightarrow> as = bs \<and> x = y"
proof (induction as arbitrary: bs)
  case (Cons a as)
  then obtain b bs' where bs: "bs = b # bs'" by (cases bs) auto
  with Cons.prems have "enc a @ concat (map enc as) @ x = enc b @ concat (map enc bs') @ y" "ok a" "ok b" by simp_all
  then have "a = b" "concat (map enc as) @ x = concat (map enc bs') @ y" by (auto dest: unique)
  with Cons bs show ?case by auto
qed simp

end

section \<open>Lemmas\<close>

lemma length_bigEndian [simp]: "length (bigEndian k n) = k"
  by (induction k arbitrary: n) simp_all

lemma bigEndian_inj: "m < 256 ^ k \<Longrightarrow> n < 256 ^ k \<Longrightarrow> bigEndian k m = bigEndian k n \<Longrightarrow> m = n"
proof (induction k arbitrary: m n)
  case (Suc k)
  then have "bigEndian k (m div 256) = bigEndian k (n div 256)"
    and c: "(char_of (m mod 256) :: char) = char_of (n mod 256)" by simp_all
  moreover have "m div 256 < 256 ^ k" "n div 256 < 256 ^ k" using Suc.prems(1,2) by (simp_all add: less_mult_imp_div_less mult.commute)
  ultimately have "m div 256 = n div 256" using Suc.IH by blast
  moreover have "m mod 256 = n mod 256" using arg_cong [OF c, of "of_char :: char \<Rightarrow> nat"] by simp
  ultimately show ?case by (metis div_mult_mod_eq)
qed simp

interpretation uint32: prefix_free PutUint32 "\<lambda>n. n < 4294967296"
  by unfold_locales (use bigEndian_inj [of _ 4] in \<open>auto simp: PutUint32_def\<close>)

interpretation uint64: prefix_free PutUint64 "\<lambda>n. n < 18446744073709551616"
  by unfold_locales (use bigEndian_inj [of _ 8] in \<open>auto simp: PutUint64_def\<close>)

lemma WriteField_field: "WriteField data b = b @ field data"
  by (simp add: WriteField_def field_def)

interpretation field: prefix_free field short
proof
  fix a b x y :: string
  assume "short a" "short b" "field a @ x = field b @ y"
  then have "PutUint32 (length a) @ a @ x = PutUint32 (length b) @ b @ y" by (simp add: field_def)
  then have "length a = length b \<and> a @ x = b @ y" using \<open>short a\<close> \<open>short b\<close> by (intro uint32.unique) (simp_all add: short_def)
  then show "a = b \<and> x = y" by auto
qed

lemma fold_WriteString: "fold WriteString ss b = b @ concat (map field ss)"
  by (induction ss arbitrary: b) (simp_all add: WriteString_def WriteField_field)

interpretation strings: prefix_free strings "\<lambda>ss. length ss < 4294967296 \<and> list_all short ss"
proof
  fix a b x y
  assume ok: "length a < 4294967296 \<and> list_all short a" "length b < 4294967296 \<and> list_all short b"
    and eq: "strings a @ x = strings b @ y"
  from eq have "PutUint32 (length a) @ concat (map field a) @ x = PutUint32 (length b) @ concat (map field b) @ y"
    by (simp add: strings_def)
  then have "length a = length b \<and> concat (map field a) @ x = concat (map field b) @ y"
    using ok by (intro uint32.unique) simp_all
  then show "a = b \<and> x = y" using ok by (auto dest: field.concat_unique)
qed

interpretation boolByte: prefix_free boolByte "\<lambda>_. True"
  by unfold_locales (auto simp: boolByte_def split: if_splits)

lemma do_write_enc: "do_write w b = b @ enc_write w"
  by (cases w) (simp_all add: WriteField_field WriteBool_def boolByte_def WriteStrings_def fold_WriteString strings_def)

lemma fold_do_write: "fold do_write ws b = b @ concat (map enc_write ws)"
  by (induction ws arbitrary: b) (simp_all add: do_write_enc)

lemma message_concat: "message ws = concat (map enc_write ws)"
  by (simp add: message_def Bytes_def NewBuffer_def fold_do_write)

lemma enc_write_unique:
  "same_kind v w \<Longrightarrow> small_write v \<Longrightarrow> small_write w \<Longrightarrow> enc_write v @ x = enc_write w @ y \<Longrightarrow> v = w \<and> x = y"
  by (cases v; cases w) (simp_all add: field.then_unique boolByte.then_unique strings.then_unique)

lemma mod_window_inj:
  fixes s t m :: int
  assumes "nat (s mod m) = nat (t mod m)" "0 < m" "\<bar>s - t\<bar> < m"
  shows "s = t"
proof (rule ccontr)
  assume "s \<noteq> t"
  have "s mod m = t mod m" using assms(1,2) pos_mod_sign [OF assms(2), of s] pos_mod_sign [OF assms(2), of t] by (metis int_nat_eq)
  then have "m dvd s - t" by (simp add: mod_eq_dvd_iff)
  with \<open>s \<noteq> t\<close> have "\<bar>m\<bar> \<le> \<bar>s - t\<bar>" by (intro dvd_imp_le_int) simp_all
  with assms(2,3) show False by simp
qed

lemma nat_mod_bound:
  fixes x m :: int
  assumes "0 < m"
  shows "nat (x mod m) < nat m"
  using assms by (simp add: nat_less_eq_zless)

lemma u64_inj:
  assumes "in_s64 s" "in_s64 t" "u64 s = u64 t"
  shows "s = t"
  using assms(1,2) assms(3) [unfolded u64_def] unfolding in_s64_def by (intro mod_window_inj) auto

lemma u64_bound: "u64 x < 18446744073709551616"
  unfolding u64_def using nat_mod_bound [of 18446744073709551616 x] by simp

lemma PutUint64_nonempty: "PutUint64 n \<noteq> []"
  unfolding PutUint64_def by (metis length_bigEndian list.size(3) zero_neq_numeral)

lemma timeBytes_inj:
  assumes "timeBytes a = timeBytes b" "\<And>t. a = Some t \<Longrightarrow> in_s64 t" "\<And>t. b = Some t \<Longrightarrow> in_s64 t"
  shows "a = b"
proof (cases a; cases b)
  fix s t assume st: "a = Some s" "b = Some t"
  then have "PutUint64 (u64 s) = PutUint64 (u64 t)" using assms by (simp add: timeBytes_def)
  then have "u64 s = u64 t" using u64_bound by (intro uint64.inj)
  then have "s = t" using assms(2,3) st by (intro u64_inj)
  with st show ?thesis by simp
qed (use assms(1) in \<open>simp_all add: timeBytes_def PutUint64_nonempty PutUint64_nonempty [symmetric]\<close>)

lemma envelopeContent_inj:
  assumes "envelopeContent a b c ts = envelopeContent a' b' c' ts'"
    "short a" "short b" "short c" "short a'" "short b'" "short c'"
    "\<And>t. ts = Some t \<Longrightarrow> in_s64 t" "\<And>t. ts' = Some t \<Longrightarrow> in_s64 t"
  shows "a = a' \<and> b = b' \<and> c = c' \<and> ts = ts'"
proof -
  have sh: "short (timeBytes x)" for x by (simp add: short_def timeBytes_def PutUint64_def split: option.split)
  have "a = a' \<and> b = b' \<and> c = c' \<and> field (timeBytes ts) = field (timeBytes ts')"
    using assms(1-7) unfolding envelopeContent_def by (simp add: field.then_unique)
  then show ?thesis using field.inj [OF sh sh] timeBytes_inj assms(8,9) by blast
qed

section \<open>Properties\<close>

text \<open>
  C28. What is signed determines the message. Two messages written with the same sequence of write calls
  (\<^verbatim>\<open>WriteField\<close>, \<^verbatim>\<open>WriteBool\<close>, \<^verbatim>\<open>WriteStrings\<close>), with fields shorter than \<open>2\<^sup>3\<^sup>2\<close> bytes, have the same
  canonical bytes only if every field is the same; so a signature cannot be moved to another message of the
  same kind by shifting bytes between fields.
\<close>

theorem message_injective:
  assumes "list_all2 same_kind vs ws" and "list_all small_write vs" and "list_all small_write ws"
    and "message vs = message ws"
  shows "vs = ws"
  using assms(1-3) assms(4) [unfolded message_concat]
proof (induction rule: list_all2_induct)
  case (Cons v vs w ws)
  then have "enc_write v @ concat (map enc_write vs) = enc_write w @ concat (map enc_write ws)" "small_write v" "small_write w"
    by simp_all
  with Cons enc_write_unique [OF Cons.hyps(1)] show ?case by simp
qed simp

theorem message_injective_witness:
  "message [WField ''ab'', WField ''cd'', WBool True, WStrings [''x'', '''']]
   = message [WField ''ab'', WField ''cd'', WBool True, WStrings [''x'', '''']] \<and>
   message [WField ''ab'', WField ''cd''] \<noteq> message [WField ''a'', WField ''bcd'']"
  using message_injective [of "[WField ''ab'', WField ''cd'']" "[WField ''a'', WField ''bcd'']"]
  by (auto simp: short_def)

text \<open>
  Across different sequences of write calls the bytes can coincide: an empty field and an empty list of
  strings both write four zero bytes, and four \<^verbatim>\<open>false\<close> flags do too.
\<close>

theorem message_kinds_collide:
  "message [WField ''''] = message [WStrings []] \<and> message [WField ''''] = message [WBool False, WBool False, WBool False, WBool False]"
  by code_simp

end
