(* ===== verification/Replay_Guard.thy ===== *)
theory Replay_Guard
  imports Falak_Prelude
begin

text \<open>
  The three time-windowed caches that protect the network handlers: \<^verbatim>\<open>MessageDedup\<close>
  (\<^verbatim>\<open>src/node/auth/dedup.go\<close>), \<^verbatim>\<open>Deduplicator\<close> (\<^verbatim>\<open>src/capsule/orbit/subscription.go\<close>) and \<^verbatim>\<open>Limiter\<close>
  (\<^verbatim>\<open>src/node/internal/ratelimit/limiter.go\<close>). Every operation takes the time at which it runs; one operation
  holds the mutex of its object, so a run is a sequence of operations. SHA-256 is a parameter \<open>hash\<close>.

  The locale \<open>replay_guard\<close> states what a message handler relies on, and both caches are interpretations of it.
  The limiter is compared with a reference that remembers every accepted request.
\<close>

section \<open>Definitions\<close>

subsection \<open>Message deduplication of the node\<close>

record 'h MessageDedup =
  md_seen :: "('h, time) gomap"
  md_ttl :: duration

definition NewMessageDedup :: "duration \<Rightarrow> 'h MessageDedup" where
  "NewMessageDedup ttl = \<lparr>md_seen = [], md_ttl = ttl\<rparr>"

definition MessageDedup_IsDuplicate ::
  "(string \<Rightarrow> 'h) \<Rightarrow> time \<Rightarrow> string \<Rightarrow> 'h MessageDedup \<Rightarrow> bool \<times> 'h MessageDedup" where
  "MessageDedup_IsDuplicate hash now data d = (let fingerprint = hash data in
     case map_of (md_seen d) fingerprint of
       Some seenAt \<Rightarrow> if now - seenAt \<le> md_ttl d then (True, d)
         else (False, d\<lparr>md_seen := mput fingerprint now (md_seen d)\<rparr>)
     | None \<Rightarrow> (False, d\<lparr>md_seen := mput fingerprint now (md_seen d)\<rparr>))"

definition evictExpired :: "time \<Rightarrow> 'h MessageDedup \<Rightarrow> 'h MessageDedup" where
  "evictExpired now d = d\<lparr>md_seen := filter (\<lambda>(fingerprint, seenAt). \<not> now - seenAt > md_ttl d) (md_seen d)\<rparr>"

definition MessageDedup_Len :: "'h MessageDedup \<Rightarrow> nat" where
  "MessageDedup_Len d = length (md_seen d)"

subsection \<open>Message deduplication of the orbits\<close>

record 'h Deduplicator =
  dd_seen :: "('h, time) gomap"
  dd_maxAge :: duration

definition NewDeduplicator :: "'h Deduplicator" where
  "NewDeduplicator = \<lparr>dd_seen = [], dd_maxAge = 300 * Second\<rparr>"

definition WithDeduplicatorMaxAge :: "duration \<Rightarrow> 'h Deduplicator \<Rightarrow> 'h Deduplicator" where
  "WithDeduplicatorMaxAge d dd = dd\<lparr>dd_maxAge := d\<rparr>"

definition Deduplicator_IsDuplicate ::
  "(string \<Rightarrow> 'h) \<Rightarrow> time \<Rightarrow> string \<Rightarrow> 'h Deduplicator \<Rightarrow> bool \<times> 'h Deduplicator" where
  "Deduplicator_IsDuplicate hash now data d = (let h = hash data in
     if map_of (dd_seen d) h \<noteq> None then (True, d)
     else (False, d\<lparr>dd_seen := mput h now (dd_seen d)\<rparr>))"

definition Deduplicator_Cleanup :: "time \<Rightarrow> 'h Deduplicator \<Rightarrow> 'h Deduplicator" where
  "Deduplicator_Cleanup now d = d\<lparr>dd_seen := filter (\<lambda>(h, ts). \<not> now - ts > dd_maxAge d) (dd_seen d)\<rparr>"

definition Deduplicator_Size :: "'h Deduplicator \<Rightarrow> nat" where
  "Deduplicator_Size d = length (dd_seen d)"

subsection \<open>Rate limiting\<close>

record Limiter =
  lim_requests :: "(string, time list) gomap"
  lim_maxReqs :: int
  lim_window :: duration

definition NewLimiter :: "int \<Rightarrow> duration \<Rightarrow> Limiter" where
  "NewLimiter maxReqs window = \<lparr>lim_requests = [], lim_maxReqs = maxReqs, lim_window = window\<rparr>"

definition requests_of :: "string \<Rightarrow> Limiter \<Rightarrow> time list" where
  "requests_of key l = (case map_of (lim_requests l) key of None \<Rightarrow> [] | Some reqs \<Rightarrow> reqs)"

definition Allow :: "time \<Rightarrow> string \<Rightarrow> Limiter \<Rightarrow> bool \<times> Limiter" where
  "Allow now key l = (let
     cutoff = now - lim_window l;
     valid = filter (\<lambda>t. t > cutoff) (requests_of key l)
   in if int (length valid) \<ge> lim_maxReqs l then (False, l\<lparr>lim_requests := mput key valid (lim_requests l)\<rparr>)
      else (True, l\<lparr>lim_requests := mput key (valid @ [now]) (lim_requests l)\<rparr>))"

fun cleanup_loop :: "time \<Rightarrow> (string, time list) gomap \<Rightarrow> (string, time list) gomap" where
  "cleanup_loop cutoff [] = []"
| "cleanup_loop cutoff ((key, reqs) # rest) = (let valid = filter (\<lambda>t. t > cutoff) reqs in
     if length valid = 0 then cleanup_loop cutoff rest else (key, valid) # cleanup_loop cutoff rest)"

definition Limiter_cleanup :: "time \<Rightarrow> Limiter \<Rightarrow> Limiter" where
  "Limiter_cleanup now l = l\<lparr>lim_requests := cleanup_loop (now - lim_window l) (lim_requests l)\<rparr>"

text \<open>A run of the limiter: requests and ticks of the cleanup goroutine. The answers are paired with the key
  and the time of their request.\<close>

datatype limiterOp = AllowOp string | CleanupOp

fun limiter_run :: "(time \<times> limiterOp) list \<Rightarrow> Limiter \<Rightarrow> (string \<times> time \<times> bool) list \<times> Limiter" where
  "limiter_run [] l = ([], l)"
| "limiter_run ((now, AllowOp key) # ops) l = (let (ok, l) = Allow now key l; (rs, l) = limiter_run ops l
     in ((key, now, ok) # rs, l))"
| "limiter_run ((now, CleanupOp) # ops) l = limiter_run ops (Limiter_cleanup now l)"

text \<open>The reference: it remembers the time of every accepted request and never forgets one.\<close>

fun history_run ::
  "int \<Rightarrow> duration \<Rightarrow> (time \<times> limiterOp) list \<Rightarrow> (string \<Rightarrow> time list) \<Rightarrow> (string \<times> time \<times> bool) list" where
  "history_run n w [] h = []"
| "history_run n w ((now, AllowOp key) # ops) h =
     (let ok = (int (length (filter (\<lambda>t. t > now - w) (h key))) < n)
      in (key, now, ok) # history_run n w ops (if ok then h(key := h key @ [now]) else h))"
| "history_run n w ((now, CleanupOp) # ops) h = history_run n w ops h"

fun ordered_from :: "time \<Rightarrow> (time \<times> 'a) list \<Rightarrow> bool" where
  "ordered_from t [] = True"
| "ordered_from t ((now, _) # ops) = (t \<le> now \<and> ordered_from now ops)"

definition accepted_in :: "string \<Rightarrow> time \<Rightarrow> time \<Rightarrow> (string \<times> time \<times> bool) list \<Rightarrow> nat" where
  "accepted_in key from till rs = length (filter (\<lambda>(k, t, ok). k = key \<and> ok \<and> from < t \<and> t \<le> till) rs)"

definition limiter_history :: "Limiter \<Rightarrow> time \<Rightarrow> (string \<Rightarrow> time list) \<Rightarrow> bool" where
  "limiter_history l now h \<longleftrightarrow> wf_map (lim_requests l) \<and>
     (\<forall>key c. now - lim_window l \<le> c \<longrightarrow> filter (\<lambda>t. t > c) (requests_of key l) = filter (\<lambda>t. t > c) (h key))"

section \<open>The interface of a replay guard\<close>

datatype guardOp = CheckOp string | PurgeOp

locale replay_guard =
  fixes check :: "time \<Rightarrow> string \<Rightarrow> 's \<Rightarrow> bool \<times> 's"
    and purge :: "time \<Rightarrow> 's \<Rightarrow> 's"
    and seen :: "'s \<Rightarrow> string \<Rightarrow> time option"
    and ttl :: "'s \<Rightarrow> duration"
    and wf :: "'s \<Rightarrow> bool"
  assumes records: "wf s \<Longrightarrow> \<not> fst (check now m s) \<Longrightarrow> seen (snd (check now m s)) m = Some now"
    and rejects: "wf s \<Longrightarrow> seen s m = Some t \<Longrightarrow> now - t \<le> ttl s \<Longrightarrow> fst (check now m s)"
    and check_keeps: "wf s \<Longrightarrow> seen s m = Some t \<Longrightarrow> now - t \<le> ttl s \<Longrightarrow> seen (snd (check now m' s)) m = Some t"
    and purge_keeps: "wf s \<Longrightarrow> seen s m = Some t \<Longrightarrow> now - t \<le> ttl s \<Longrightarrow> seen (purge now s) m = Some t"
    and wf_check: "wf s \<Longrightarrow> wf (snd (check now m s))"
    and wf_purge: "wf s \<Longrightarrow> wf (purge now s)"
    and ttl_check: "ttl (snd (check now m s)) = ttl s"
    and ttl_purge: "ttl (purge now s) = ttl s"
begin

fun guard_step :: "time \<times> guardOp \<Rightarrow> 's \<Rightarrow> 's" where
  "guard_step (now, CheckOp m) s = snd (check now m s)"
| "guard_step (now, PurgeOp) s = purge now s"

lemma guard_step_keeps:
  assumes "wf s" "seen s m = Some t" "fst op - t \<le> ttl s"
  shows "seen (guard_step op s) m = Some t"
  using assms by (cases "(op, s)" rule: guard_step.cases) (auto simp: check_keeps purge_keeps)

lemma guard_step_wf: "wf s \<Longrightarrow> wf (guard_step op s)"
  by (cases "(op, s)" rule: guard_step.cases) (auto simp: wf_check wf_purge)

lemma guard_step_ttl [simp]: "ttl (guard_step op s) = ttl s"
  by (cases "(op, s)" rule: guard_step.cases) (auto simp: ttl_check ttl_purge)

lemma guard_run_keeps:
  "wf s \<Longrightarrow> seen s m = Some t \<Longrightarrow> \<forall>op \<in> set ops. fst op - t \<le> ttl s \<Longrightarrow>
   wf (fold guard_step ops s) \<and> ttl (fold guard_step ops s) = ttl s \<and> seen (fold guard_step ops s) m = Some t"
  by (induction ops arbitrary: s) (simp_all add: guard_step_wf guard_step_keeps)

lemma not_twice:
  assumes "wf s" "\<not> fst (check t m s)" "\<forall>op \<in> set ops. fst op - t \<le> ttl s" "t' - t \<le> ttl s"
  shows "fst (check t' m (fold guard_step ops (snd (check t m s))))"
  using guard_run_keeps [of "snd (check t m s)" m t ops] assms
  by (auto simp: wf_check ttl_check records intro!: rejects)

end

section \<open>Lemmas\<close>

lemma map_of_filter_age:
  "wf_map m \<Longrightarrow> map_of m k = Some t \<Longrightarrow> \<not> now - t > ttl \<Longrightarrow>
   map_of (filter (\<lambda>(k, seenAt). \<not> now - seenAt > ttl) m) k = Some (t :: time)"
  using map_of_filter_value [of m "\<lambda>k seenAt. \<not> now - seenAt > ttl" k] by simp

interpretation node_dedup: replay_guard "MessageDedup_IsDuplicate hash" evictExpired
  "\<lambda>d m. map_of (md_seen d) (hash m)" md_ttl "\<lambda>d. wf_map (md_seen d)"
  for hash :: "string \<Rightarrow> 'h"
  by unfold_locales
    (auto simp: MessageDedup_IsDuplicate_def evictExpired_def Let_def map_of_filter_age split: option.splits if_splits)

interpretation orbit_dedup: replay_guard "Deduplicator_IsDuplicate hash" Deduplicator_Cleanup
  "\<lambda>d m. map_of (dd_seen d) (hash m)" dd_maxAge "\<lambda>d. wf_map (dd_seen d)"
  for hash :: "string \<Rightarrow> 'h"
  by unfold_locales
    (auto simp: Deduplicator_IsDuplicate_def Deduplicator_Cleanup_def Let_def map_of_filter_age split: if_splits)

subsection \<open>The limiter and its history\<close>

lemma requests_of_mput [simp]:
  "requests_of k (l\<lparr>lim_requests := mput key v (lim_requests l)\<rparr>) = (if k = key then v else requests_of k l)"
  by (simp add: requests_of_def)

lemma cleanup_loop_keys: "fst ` set (cleanup_loop c m) \<subseteq> fst ` set m"
  by (induction m rule: cleanup_loop.induct [of "\<lambda>_ m. fst ` set (cleanup_loop c m) \<subseteq> fst ` set m" undefined])
    (auto simp: Let_def)

lemma wf_cleanup_loop: "wf_map m \<Longrightarrow> wf_map (cleanup_loop c m)"
proof (induction m)
  case (Cons kv m)
  then show ?case using cleanup_loop_keys [of c m] by (cases kv) (auto simp: Let_def wf_map_Cons)
qed simp

lemma map_of_cleanup_loop:
  "wf_map m \<Longrightarrow> (case map_of (cleanup_loop c m) k of None \<Rightarrow> [] | Some v \<Rightarrow> v) =
   filter (\<lambda>t. t > c) (case map_of m k of None \<Rightarrow> [] | Some v \<Rightarrow> v)"
proof (induction m)
  case (Cons kv m)
  obtain k' v' where kv: "kv = (k', v')" by force
  with Cons.prems have "wf_map m" "map_of m k' = None" by (auto simp: wf_map_Cons map_of_eq_None_iff)
  moreover have "map_of (cleanup_loop c m) k' = None"
    using cleanup_loop_keys [of c m] Cons.prems kv by (auto simp: wf_map_Cons map_of_eq_None_iff)
  ultimately show ?case using Cons.IH kv by (auto simp: Let_def)
qed simp

lemma filter_later: "c \<le> (d :: time) \<Longrightarrow> filter (\<lambda>t. t > d) (filter (\<lambda>t. t > c) xs) = filter (\<lambda>t. t > d) xs"
  "c \<le> d \<Longrightarrow> filter (\<lambda>t. c < t \<and> d < t) xs = filter (\<lambda>t. t > d) xs"
  by (induction xs) auto

lemma cleanup_history:
  assumes "limiter_history l now h" "now \<le> now'"
  shows "limiter_history (Limiter_cleanup now' l) now' h"
proof -
  have "requests_of key (Limiter_cleanup now' l) = filter (\<lambda>t. t > now' - lim_window l) (requests_of key l)" for key
    using assms map_of_cleanup_loop [of "lim_requests l" "now' - lim_window l" key]
    by (simp add: requests_of_def Limiter_cleanup_def limiter_history_def)
  with assms show ?thesis
    by (simp add: limiter_history_def filter_later wf_cleanup_loop Limiter_cleanup_def)
qed

lemma Allow_history:
  assumes "limiter_history l now h" "now \<le> now'"
    and ok_def: "ok = (int (length (filter (\<lambda>t. t > now' - lim_window l) (h key))) < lim_maxReqs l)"
  shows "fst (Allow now' key l) = ok"
    and "limiter_history (snd (Allow now' key l)) now' (if ok then h(key := h key @ [now']) else h)"
proof -
  let ?valid = "filter (\<lambda>t. t > now' - lim_window l) (requests_of key l)"
  have v: "?valid = filter (\<lambda>t. t > now' - lim_window l) (h key)" and wf: "wf_map (lim_requests l)"
    and old: "\<And>k c. now' - lim_window l \<le> c \<Longrightarrow> filter (\<lambda>t. t > c) (requests_of k l) = filter (\<lambda>t. t > c) (h k)"
    using assms by (auto simp: limiter_history_def)
  show ok: "fst (Allow now' key l) = ok" by (simp add: Allow_def Let_def v ok_def not_le)
  show "limiter_history (snd (Allow now' key l)) now' (if ok then h(key := h key @ [now']) else h)"
    using wf old by (simp add: limiter_history_def Allow_def Let_def v ok_def not_le filter_later)
qed

lemma Allow_sel [simp]:
  "lim_window (snd (Allow now key l)) = lim_window l" "lim_maxReqs (snd (Allow now key l)) = lim_maxReqs l"
  by (simp_all add: Allow_def Let_def)

lemma limiter_run_history:
  "limiter_history l t h \<Longrightarrow> ordered_from t ops \<Longrightarrow>
   fst (limiter_run ops l) = history_run (lim_maxReqs l) (lim_window l) ops h"
proof (induction ops arbitrary: l t h)
  case (Cons op ops)
  obtain now q where op: "op = (now, q)" by force
  show ?case
  proof (cases q)
    case (AllowOp key)
    let ?ok = "int (length (filter (\<lambda>t. t > now - lim_window l) (h key))) < lim_maxReqs l"
    obtain ok l' where A: "Allow now key l = (ok, l')" by force
    have le: "t \<le> now" "ordered_from now ops" using Cons.prems op by simp_all
    have ok: "ok = ?ok" using Allow_history(1) [OF Cons.prems(1) le(1) refl, of key] A by simp
    have "limiter_history l' now (if ok then h(key := h key @ [now]) else h)"
      using Allow_history(2) [OF Cons.prems(1) le(1) refl, of key] A ok by simp
    from Cons.IH [OF this le(2)] show ?thesis
      using Allow_sel [of now key l] op AllowOp A ok by (cases "limiter_run ops l'") (auto simp: Let_def)
  next
    case CleanupOp
    have le: "t \<le> now" "ordered_from now ops" using Cons.prems op by simp_all
    from Cons.IH [OF cleanup_history [OF Cons.prems(1) le(1)] le(2)] show ?thesis
      using op CleanupOp by (simp add: Limiter_cleanup_def)
  qed
qed simp

lemma filter_length_mono: "(\<And>x. P x \<Longrightarrow> Q x) \<Longrightarrow> length (filter P xs) \<le> length (filter Q xs)"
  by (induction xs) (auto simp: le_Suc_eq)

lemma history_run_bound:
  "(\<And>t. int (length (filter (\<lambda>x. t - w < x \<and> x \<le> t) (h key))) \<le> n) \<Longrightarrow>
   int (length (filter (\<lambda>x. t - w < x \<and> x \<le> t) (h key))) + int (accepted_in key (t - w) t (history_run n w ops h)) \<le> n"
proof (induction ops arbitrary: h)
  case Nil
  then show ?case by (simp add: accepted_in_def)
next
  case (Cons op ops)
  obtain now q where op: "op = (now, q)" by force
  show ?case
  proof (cases q)
    case (AllowOp k)
    let ?ok = "int (length (filter (\<lambda>t. t > now - w) (h k))) < n"
    let ?h = "if ?ok then h(k := h k @ [now]) else h"
    have keep: "int (length (filter (\<lambda>x. t - w < x \<and> x \<le> t) (?h key))) \<le> n" for t
    proof (cases "?ok \<and> k = key \<and> t - w < now \<and> now \<le> t")
      case True
      then have "length (filter (\<lambda>x. t - w < x \<and> x \<le> t) (h key)) \<le> length (filter (\<lambda>x. x > now - w) (h key))"
        by (intro filter_length_mono) auto
      with True show ?thesis by auto
    qed (use Cons.prems [of t] in auto)
    have "int (length (filter (\<lambda>x. t - w < x \<and> x \<le> t) (?h key))) + int (accepted_in key (t - w) t (history_run n w ops ?h)) \<le> n"
      by (rule Cons.IH) (rule keep)
    then show ?thesis
      by (auto simp: op AllowOp Let_def accepted_in_def split: if_splits)
  next
    case CleanupOp
    moreover have "int (length (filter (\<lambda>x. t - w < x \<and> x \<le> t) (h key))) + int (accepted_in key (t - w) t (history_run n w ops h)) \<le> n"
      by (rule Cons.IH) (rule Cons.prems)
    ultimately show ?thesis using op by simp
  qed
qed

lemma NewLimiter_history: "limiter_history (NewLimiter n w) t (\<lambda>_. [])"
  by (simp add: limiter_history_def NewLimiter_def requests_of_def)

section \<open>Properties\<close>

text \<open>
  Neither cache lets a message through twice within its window: once \<^verbatim>\<open>IsDuplicate\<close> has answered that a message
  is new, it answers that it is a duplicate for the whole window, whatever other messages and cleanups come in
  between.
\<close>

theorem dedup_not_twice:
  assumes "wf_map (md_seen d)" and "\<not> fst (MessageDedup_IsDuplicate hash t m d)"
    and "\<forall>op \<in> set ops. fst op - t \<le> md_ttl d" and "t' - t \<le> md_ttl d"
  shows "fst (MessageDedup_IsDuplicate hash t' m
    (fold (node_dedup.guard_step hash) ops (snd (MessageDedup_IsDuplicate hash t m d))))"
  using assms by (rule node_dedup.not_twice)

text \<open>
  C27. The rate limiter, which forgets requests, answers as one that remembers every accepted request would, and in
  no window of its length, wherever it ends, does it accept more than \<^verbatim>\<open>maxReqs\<close> requests of one key.
\<close>

theorem limiter_window:
  assumes "ordered_from t0 ops" and "0 \<le> n"
  shows "fst (limiter_run ops (NewLimiter n w)) = history_run n w ops (\<lambda>_. []) \<and>
    int (accepted_in key (t - w) t (fst (limiter_run ops (NewLimiter n w)))) \<le> n"
proof -
  have "fst (limiter_run ops (NewLimiter n w)) = history_run n w ops (\<lambda>_. [])"
    using limiter_run_history [OF NewLimiter_history assms(1)] by (simp add: NewLimiter_def)
  moreover have "int (accepted_in key (t - w) t (history_run n w ops (\<lambda>_. []))) \<le> n"
    using history_run_bound [of w "\<lambda>_. []" key n t ops] assms(2) by simp
  ultimately show ?thesis by simp
qed

theorem limiter_window_witness:
  "(let ops = [(0, AllowOp ''p''), (1, AllowOp ''p''), (2, CleanupOp), (2, AllowOp ''p''), (11, AllowOp ''p'')];
        rs = fst (limiter_run ops (NewLimiter 2 10))
    in map (snd \<circ> snd) rs = [True, True, False, True] \<and> rs = history_run 2 10 ops (\<lambda>_. []) \<and>
       int (accepted_in ''p'' (11 - 10) 11 rs) \<le> 2)"
proof -
  let ?ops = "[(0, AllowOp ''p''), (1, AllowOp ''p''), (2, CleanupOp), (2, AllowOp ''p''), (11, AllowOp ''p'')]"
  have "map (snd \<circ> snd) (fst (limiter_run ?ops (NewLimiter 2 10))) = [True, True, False, True]" by code_simp
  moreover have "ordered_from 0 ?ops" "0 \<le> (2 :: int)" by simp_all
  ultimately show ?thesis using limiter_window [of 0 ?ops 2 10 "''p''" 11] unfolding Let_def by blast
qed

end
