(* ===== verification/Orbit.thy ===== *)
theory Orbit
  imports Capsule_Wire Signing Replay_Guard
begin

text \<open>
  \<^verbatim>\<open>src/capsule/orbit\<close>: the orbits of a cluster (\<^verbatim>\<open>orbit.go\<close>), the announcer that publishes capsules on them and
  checks what arrives (\<^verbatim>\<open>announcement.go\<close>) and the bytes it signs (\<^verbatim>\<open>signing.go\<close>).

  Joining a libp2p topic and publishing on it can fail; the operations take the error as an argument. What is
  published is appended to \<open>om_sent\<close>. Protobuf encoding is the record \<open>orbitCodec\<close>, SHA-256 the argument
  \<open>hash\<close>, and signer and verifier are functions of the announcer. The announcer shares its deduplicator with the
  capsule handler, which cleans it up, so \<open>HandleMessage\<close> takes and returns it.
\<close>

section \<open>Definitions\<close>

subsection \<open>Orbits\<close>

definition BuildOrbitTopic :: "string \<Rightarrow> string \<Rightarrow> string" where
  "BuildOrbitTopic clusterPath orbitName = ''falak/'' @ clusterPath @ ''/orbit/'' @ orbitName"

definition BuildCapsuleTopic :: "string \<Rightarrow> string \<Rightarrow> string" where
  "BuildCapsuleTopic clusterPath capsuleID = ''falak/'' @ clusterPath @ ''/capsule/'' @ capsuleID"

text \<open>A joined orbit: its topic, and whether its message loop runs (its context is not cancelled).\<close>

record orbitEntry =
  oe_topic :: string
  oe_live :: bool

record OrbitManager =
  om_clusterPath :: string
  om_nodeID :: string
  om_orbits :: "(string, orbitEntry) gomap"
  om_cancelled :: bool
  om_sent :: "(string \<times> string) list"

definition NewOrbitManager :: "bool \<Rightarrow> string \<Rightarrow> string \<Rightarrow> OrbitManager" where
  "NewOrbitManager ctxCancelled clusterPath nodeID = \<lparr>om_clusterPath = clusterPath, om_nodeID = nodeID,
     om_orbits = [], om_cancelled = ctxCancelled, om_sent = []\<rparr>"

datatype orbitError =
    AlreadyJoined string
  | NotJoined string
  | JoinTopicFailed string string
  | SubscribeFailed string string
  | TopicPublishFailed string
  | MarshalFailed string
  | SignFailed string
  | DuplicateMessage
  | UnmarshalFailed
  | StaleMessage duration
  | MissingSignature
  | InvalidSignature string
  | PayloadUnmarshalFailed
  | UnknownMessageType string

definition Orbit_Join ::
  "string option \<Rightarrow> string option \<Rightarrow> string \<Rightarrow> OrbitManager \<Rightarrow> orbitError option \<times> OrbitManager" where
  "Orbit_Join joinErr subErr orbitName m =
     (if map_of (om_orbits m) orbitName \<noteq> None then (Some (AlreadyJoined orbitName), m)
      else let topicName = BuildOrbitTopic (om_clusterPath m) orbitName in
      case joinErr of Some e \<Rightarrow> (Some (JoinTopicFailed topicName e), m)
      | None \<Rightarrow> (case subErr of Some e \<Rightarrow> (Some (SubscribeFailed topicName e), m)
        | None \<Rightarrow> (None, m\<lparr>om_orbits := mput orbitName \<lparr>oe_topic = topicName, oe_live = \<not> om_cancelled m\<rparr> (om_orbits m)\<rparr>)))"

definition Orbit_Leave :: "string \<Rightarrow> OrbitManager \<Rightarrow> orbitError option \<times> OrbitManager" where
  "Orbit_Leave orbitName m =
     (if map_of (om_orbits m) orbitName = None then (Some (NotJoined orbitName), m)
      else (None, m\<lparr>om_orbits := mdel orbitName (om_orbits m)\<rparr>))"

definition Orbit_LeaveAll :: "OrbitManager \<Rightarrow> OrbitManager" where
  "Orbit_LeaveAll m = m\<lparr>om_orbits := [], om_cancelled := True\<rparr>"

definition Orbit_Publish ::
  "string option \<Rightarrow> string \<Rightarrow> string \<Rightarrow> OrbitManager \<Rightarrow> orbitError option \<times> OrbitManager" where
  "Orbit_Publish pubErr orbitName data m = (case map_of (om_orbits m) orbitName of
     None \<Rightarrow> (Some (NotJoined orbitName), m)
   | Some entry \<Rightarrow> (case pubErr of Some e \<Rightarrow> (Some (TopicPublishFailed e), m)
     | None \<Rightarrow> (None, m\<lparr>om_sent := om_sent m @ [(oe_topic entry, data)]\<rparr>)))"

definition JoinedOrbits :: "OrbitManager \<Rightarrow> string list" where
  "JoinedOrbits m = map fst (om_orbits m)"

definition IsJoined :: "string \<Rightarrow> OrbitManager \<Rightarrow> bool" where
  "IsJoined orbitName m \<longleftrightarrow> map_of (om_orbits m) orbitName \<noteq> None"

text \<open>One turn of the message loop of an orbit: whether the handler is called with the message.\<close>

definition messageLoop_delivers :: "string \<Rightarrow> string \<Rightarrow> OrbitManager \<Rightarrow> bool" where
  "messageLoop_delivers orbitName receivedFrom m \<longleftrightarrow> (case map_of (om_orbits m) orbitName of
     None \<Rightarrow> False | Some entry \<Rightarrow> oe_live entry \<and> receivedFrom \<noteq> om_nodeID m)"

subsection \<open>Messages\<close>

record OrbitMessage =
  omsg_Type :: string
  omsg_Payload :: string
  omsg_SenderId :: string
  omsg_Timestamp :: "time option"
  omsg_Signature :: string

record PbAnnouncement =
  pa_Capsule :: "PbCapsule option"
  pa_AnnouncingNode :: string

record PbStatusUpdate =
  psu_CapsuleId :: string
  psu_Status :: string
  psu_Replicas :: "PbReplicaState list"
  psu_Momentum :: "PbMomentumState option"
  psu_Timestamp :: "time option"

record PbWithdrawal =
  pw_CapsuleId :: string
  pw_Reason :: string

datatype orbitPayload = PAnnouncement PbAnnouncement | PStatus PbStatusUpdate | PWithdrawal PbWithdrawal

record orbitCodec =
  marshalOrbit :: "OrbitMessage \<Rightarrow> string + string"
  marshalPayload_o :: "orbitPayload \<Rightarrow> string + string"
  unmarshalOrbit :: "string \<Rightarrow> OrbitMessage option"
  unmarshalAnnouncement :: "string \<Rightarrow> PbAnnouncement option"
  unmarshalStatus :: "string \<Rightarrow> PbStatusUpdate option"
  unmarshalWithdrawal :: "string \<Rightarrow> PbWithdrawal option"

definition writeField :: "string \<Rightarrow> string \<Rightarrow> string" where
  "writeField buf data = (let buf = buf @ PutUint32 (length data) in buf @ data)"

definition orbitCanonicalContent :: "OrbitMessage \<Rightarrow> string" where
  "orbitCanonicalContent msg = (let
     buf = writeField [] (omsg_Type msg);
     buf = writeField buf (omsg_Payload msg);
     buf = writeField buf (omsg_SenderId msg);
     tsBytes = (case omsg_Timestamp msg of None \<Rightarrow> [] | Some ts \<Rightarrow> PutUint64 (u64 (s64 ts)))
   in writeField buf tsBytes)"

definition MaxMessageAge :: duration where "MaxMessageAge = 30 * Second"

subsection \<open>The announcer\<close>

record Announcer =
  an_nodeID :: string
  an_signer :: "(string \<Rightarrow> string + string) option"
  an_verifier :: "(string \<Rightarrow> string \<Rightarrow> string \<Rightarrow> bool) option"

definition buildSignedMessage ::
  "orbitCodec \<Rightarrow> time \<Rightarrow> string \<Rightarrow> string \<Rightarrow> Announcer \<Rightarrow> orbitError + string" where
  "buildSignedMessage cd now msgType payload a = (let
     msg = \<lparr>omsg_Type = msgType, omsg_Payload = payload, omsg_SenderId = an_nodeID a, omsg_Timestamp = Some now,
       omsg_Signature = []\<rparr>;
     signed = (case an_signer a of None \<Rightarrow> Inr msg
       | Some sign \<Rightarrow> (case sign (orbitCanonicalContent msg) of
           Inl err \<Rightarrow> Inl (SignFailed err)
         | Inr sig \<Rightarrow> Inr (msg\<lparr>omsg_Signature := sig\<rparr>)))
   in case signed of Inl err \<Rightarrow> Inl err
      | Inr msg \<Rightarrow> (case marshalOrbit cd msg of Inl err \<Rightarrow> Inl (MarshalFailed err) | Inr data \<Rightarrow> Inr data))"

text \<open>Marshalling a payload, signing the envelope and publishing it: the part that \<^verbatim>\<open>Announce\<close>, \<^verbatim>\<open>UpdateStatus\<close>
  and \<^verbatim>\<open>Withdraw\<close> have in common.\<close>

definition sendPayload ::
  "orbitCodec \<Rightarrow> time \<Rightarrow> string option \<Rightarrow> string \<Rightarrow> orbitPayload \<Rightarrow> string \<Rightarrow> Announcer \<Rightarrow> OrbitManager \<Rightarrow>
   orbitError option \<times> OrbitManager" where
  "sendPayload cd now pubErr msgType p orbitName a m = (case marshalPayload_o cd p of
     Inl err \<Rightarrow> (Some (MarshalFailed err), m)
   | Inr payload \<Rightarrow> (case buildSignedMessage cd now msgType payload a of
       Inl err \<Rightarrow> (Some err, m)
     | Inr data \<Rightarrow> Orbit_Publish pubErr orbitName data m))"

definition announcementOf :: "Capsule \<Rightarrow> Announcer \<Rightarrow> PbAnnouncement" where
  "announcementOf c a = \<lparr>pa_Capsule = Some (capsuleToProto c), pa_AnnouncingNode = an_nodeID a\<rparr>"

definition Orbit_Announce ::
  "orbitCodec \<Rightarrow> time \<Rightarrow> string option \<Rightarrow> Capsule \<Rightarrow> Announcer \<Rightarrow> OrbitManager \<Rightarrow> orbitError option \<times> OrbitManager" where
  "Orbit_Announce cd now pubErr c a m =
     sendPayload cd now pubErr ''announcement'' (PAnnouncement (announcementOf c a)) (spec_Orbit (cap_Spec c)) a m"

definition UpdateStatus ::
  "orbitCodec \<Rightarrow> time \<Rightarrow> time \<Rightarrow> string option \<Rightarrow> Capsule \<Rightarrow> Announcer \<Rightarrow> OrbitManager \<Rightarrow> orbitError option \<times> OrbitManager" where
  "UpdateStatus cd stamp now pubErr c a m =
     sendPayload cd now pubErr ''status'' (PStatus \<lparr>psu_CapsuleId = cap_ID c, psu_Status = cap_Status c,
       psu_Replicas = replicaStatesToProto (cap_Replicas c), psu_Momentum = Some (momentumToProto (cap_Momentum c)),
       psu_Timestamp = Some stamp\<rparr>) (spec_Orbit (cap_Spec c)) a m"

definition Withdraw ::
  "orbitCodec \<Rightarrow> time \<Rightarrow> string option \<Rightarrow> string \<Rightarrow> CapsuleID \<Rightarrow> string \<Rightarrow> Announcer \<Rightarrow> OrbitManager \<Rightarrow>
   orbitError option \<times> OrbitManager" where
  "Withdraw cd now pubErr orbitName capsuleID reason a m =
     sendPayload cd now pubErr ''withdrawal'' (PWithdrawal \<lparr>pw_CapsuleId = capsuleID, pw_Reason = reason\<rparr>) orbitName a m"

text \<open>The switch of \<^verbatim>\<open>HandleMessage\<close> on the message type.\<close>

definition parsePayload :: "orbitCodec \<Rightarrow> OrbitMessage \<Rightarrow> orbitError + string \<times> orbitPayload" where
  "parsePayload cd msg = (let
     ok = (\<lambda>p. case p of None \<Rightarrow> Inl PayloadUnmarshalFailed | Some p \<Rightarrow> Inr (omsg_Type msg, p))
   in if omsg_Type msg = ''announcement'' then ok (map_option PAnnouncement (unmarshalAnnouncement cd (omsg_Payload msg)))
      else if omsg_Type msg = ''status'' then ok (map_option PStatus (unmarshalStatus cd (omsg_Payload msg)))
      else if omsg_Type msg = ''withdrawal'' then ok (map_option PWithdrawal (unmarshalWithdrawal cd (omsg_Payload msg)))
      else Inl (UnknownMessageType (omsg_Type msg)))"

definition HandleMessage ::
  "orbitCodec \<Rightarrow> (string \<Rightarrow> 'h) \<Rightarrow> time \<Rightarrow> string \<Rightarrow> Announcer \<Rightarrow> 'h Deduplicator \<Rightarrow>
   (orbitError + string \<times> orbitPayload) \<times> 'h Deduplicator" where
  "HandleMessage cd hash now data a dedup = (let (dup, dedup) = Deduplicator_IsDuplicate hash now data dedup in
     (if dup then Inl DuplicateMessage
      else case unmarshalOrbit cd data of
        None \<Rightarrow> Inl UnmarshalFailed
      | Some msg \<Rightarrow>
          if (case omsg_Timestamp msg of None \<Rightarrow> False | Some ts \<Rightarrow> now - ts > MaxMessageAge)
          then Inl (StaleMessage (now - asTime (omsg_Timestamp msg)))
          else case an_verifier a of
            None \<Rightarrow> parsePayload cd msg
          | Some verify \<Rightarrow>
              if length (omsg_Signature msg) = 0 then Inl MissingSignature
              else let sig = omsg_Signature msg;
                       content = orbitCanonicalContent (msg\<lparr>omsg_Signature := []\<rparr>)
                in if \<not> verify (omsg_SenderId msg) content sig then Inl (InvalidSignature (omsg_SenderId msg))
                   else parsePayload cd msg, dedup))"

subsection \<open>Specification\<close>

text \<open>What happens to one deduplicator: messages are handled and the cleanup loop ticks.\<close>

datatype orbitOp = OrbitMsg string | OrbitCleanup

fun orbit_step ::
  "orbitCodec \<Rightarrow> (string \<Rightarrow> 'h) \<Rightarrow> Announcer \<Rightarrow> time \<times> orbitOp \<Rightarrow> 'h Deduplicator \<Rightarrow> 'h Deduplicator" where
  "orbit_step cd hash a (now, OrbitMsg data) d = snd (HandleMessage cd hash now data a d)"
| "orbit_step cd hash a (now, OrbitCleanup) d = Deduplicator_Cleanup now d"

text \<open>A message means the same for every order of its maps and whether an empty map is nil or not: \<open>normalLabels\<close>
  sorts the entries and makes an empty map nil.\<close>

definition normalLabels :: "labels \<Rightarrow> labels" where
  "normalLabels l = (if lbl l = [] then None else Some (sort_key fst (lbl l)))"

definition normalSpec :: "PbCapsuleSpec \<Rightarrow> PbCapsuleSpec" where
  "normalSpec s = s\<lparr>psp_Labels := normalLabels (psp_Labels s),
     psp_Runtime := map_option (\<lambda>r. r\<lparr>prt_Env := normalLabels (prt_Env r)\<rparr>) (psp_Runtime s),
     psp_PlacementRules := map (\<lambda>r. r\<lparr>ppr_Labels := normalLabels (ppr_Labels r)\<rparr>) (psp_PlacementRules s)\<rparr>"

definition normalCapsule :: "PbCapsule \<Rightarrow> PbCapsule" where
  "normalCapsule c = c\<lparr>pc_Spec := map_option normalSpec (pc_Spec c)\<rparr>"

definition normalAnnouncement :: "PbAnnouncement \<Rightarrow> PbAnnouncement" where
  "normalAnnouncement p = p\<lparr>pa_Capsule := map_option normalCapsule (pa_Capsule p)\<rparr>"

text \<open>What the code relies on of protobuf: decoding an encoded message gives an equal message.\<close>

definition orbit_codec_law :: "orbitCodec \<Rightarrow> bool" where
  "orbit_codec_law cd \<longleftrightarrow>
     (\<forall>m d. marshalOrbit cd m = Inr d \<longrightarrow> unmarshalOrbit cd d = Some m) \<and>
     (\<forall>p d. marshalPayload_o cd (PAnnouncement p) = Inr d \<longrightarrow>
        (\<exists>p'. unmarshalAnnouncement cd d = Some p' \<and> normalAnnouncement p' = normalAnnouncement p)) \<and>
     (\<forall>p d. marshalPayload_o cd (PStatus p) = Inr d \<longrightarrow> unmarshalStatus cd d = Some p) \<and>
     (\<forall>p d. marshalPayload_o cd (PWithdrawal p) = Inr d \<longrightarrow> unmarshalWithdrawal cd d = Some p)"

text \<open>The invariant of an orbit manager.\<close>

definition orbit_inv :: "OrbitManager \<Rightarrow> bool" where
  "orbit_inv m \<longleftrightarrow> wf_map (om_orbits m) \<and>
     (\<forall>name entry. map_of (om_orbits m) name = Some entry \<longrightarrow>
        oe_topic entry = BuildOrbitTopic (om_clusterPath m) name \<and> (oe_live entry \<longrightarrow> \<not> om_cancelled m))"

datatype orbitCall =
    OJoin "string option" "string option" string
  | OLeave string
  | OLeaveAll
  | OPublish "string option" string string

fun orbit_call :: "orbitCall \<Rightarrow> OrbitManager \<Rightarrow> OrbitManager" where
  "orbit_call (OJoin je se name) m = snd (Orbit_Join je se name m)"
| "orbit_call (OLeave name) m = snd (Orbit_Leave name m)"
| "orbit_call OLeaveAll m = Orbit_LeaveAll m"
| "orbit_call (OPublish pe name data) m = snd (Orbit_Publish pe name data m)"

text \<open>Data for the concrete runs: a codec that knows one withdrawal.\<close>

definition sampleOrbitMessage :: "time \<Rightarrow> OrbitMessage" where
  "sampleOrbitMessage ts = \<lparr>omsg_Type = ''withdrawal'', omsg_Payload = ''w'', omsg_SenderId = ''n2'',
     omsg_Timestamp = Some ts, omsg_Signature = ''s''\<rparr>"

definition sampleOrbitCodec :: "time \<Rightarrow> orbitCodec" where
  "sampleOrbitCodec ts = \<lparr>marshalOrbit = (\<lambda>m. if m = sampleOrbitMessage ts then Inr ''m'' else Inl ''''),
     marshalPayload_o = (\<lambda>p. if p = PWithdrawal \<lparr>pw_CapsuleId = ''c1'', pw_Reason = ''deleted''\<rparr> then Inr ''w'' else Inl ''''),
     unmarshalOrbit = (\<lambda>d. if d = ''m'' then Some (sampleOrbitMessage ts) else None),
     unmarshalAnnouncement = (\<lambda>d. None), unmarshalStatus = (\<lambda>d. None),
     unmarshalWithdrawal = (\<lambda>d. if d = ''w'' then Some \<lparr>pw_CapsuleId = ''c1'', pw_Reason = ''deleted''\<rparr> else None)\<rparr>"

definition sampleAnnouncer :: Announcer where
  "sampleAnnouncer = \<lparr>an_nodeID = ''n1'', an_signer = None,
     an_verifier = Some (\<lambda>sender content sig. sender = ''n2'' \<and> sig = ''s'')\<rparr>"

section \<open>Lemmas\<close>

lemma orbitCanonicalContent_envelope:
  "orbitCanonicalContent m = envelopeContent (omsg_Type m) (omsg_Payload m) (omsg_SenderId m) (omsg_Timestamp m)"
  by (simp add: orbitCanonicalContent_def writeField_def envelopeContent_def field_def timeBytes_def Let_def split: option.split)

lemma snd_HandleMessage: "snd (HandleMessage cd hash now data a d) = snd (Deduplicator_IsDuplicate hash now data d)"
  by (simp add: HandleMessage_def split: prod.split)

lemma HandleMessage_Inr:
  assumes "fst (HandleMessage cd hash now data a d) = Inr r"
  obtains msg where "\<not> fst (Deduplicator_IsDuplicate hash now data d)" "unmarshalOrbit cd data = Some msg"
    "\<And>ts. omsg_Timestamp msg = Some ts \<Longrightarrow> now - ts \<le> MaxMessageAge"
    "\<And>verify. an_verifier a = Some verify \<Longrightarrow> omsg_Signature msg \<noteq> [] \<and>
       verify (omsg_SenderId msg) (orbitCanonicalContent msg) (omsg_Signature msg)"
    "parsePayload cd msg = Inr r"
  using assms
  by (auto simp: HandleMessage_def Let_def orbitCanonicalContent_envelope not_less split: prod.splits if_splits option.splits)

lemma HandleMessage_duplicate:
  "fst (Deduplicator_IsDuplicate hash now data d) \<Longrightarrow> fst (HandleMessage cd hash now data a d) = Inl DuplicateMessage"
  by (cases "Deduplicator_IsDuplicate hash now data d") (simp add: HandleMessage_def)

lemma orbit_step_guard:
  "orbit_step cd hash a op d = orbit_dedup.guard_step hash
     (fst op, case snd op of OrbitMsg m \<Rightarrow> CheckOp m | OrbitCleanup \<Rightarrow> PurgeOp) d"
  by (cases "(cd, hash, a, op, d)" rule: orbit_step.cases) (simp_all add: snd_HandleMessage)

lemma fold_orbit_step:
  "fold (orbit_step cd hash a) ops d = fold (orbit_dedup.guard_step hash)
     (map (\<lambda>op. (fst op, case snd op of OrbitMsg m \<Rightarrow> CheckOp m | OrbitCleanup \<Rightarrow> PurgeOp)) ops) d"
  by (induction ops arbitrary: d) (simp_all add: orbit_step_guard)

lemma ordered_from_append: "ordered_from t (ops @ [(t', x)]) \<Longrightarrow> t \<le> t' \<and> (\<forall>op \<in> set ops. fst op \<le> t')"
proof (induction ops arbitrary: t)
  case (Cons op ops)
  then show ?case by (cases op) fastforce
qed simp

lemma BuildOrbitTopic_inj [simp]: "BuildOrbitTopic p a = BuildOrbitTopic p b \<longleftrightarrow> a = b"
  by (simp add: BuildOrbitTopic_def)

lemma orbit_inv_new: "orbit_inv (NewOrbitManager b path node)"
  by (simp add: orbit_inv_def NewOrbitManager_def)

lemma orbit_inv_call: "orbit_inv m \<Longrightarrow> orbit_inv (orbit_call c m)"
  by (cases c)
    (auto simp: orbit_inv_def Orbit_Join_def Orbit_Leave_def Orbit_LeaveAll_def Orbit_Publish_def Let_def
      split: option.splits if_splits)

lemma orbit_inv_run: "orbit_inv (fold orbit_call cs (NewOrbitManager b path node))"
proof -
  have "orbit_inv m \<Longrightarrow> orbit_inv (fold orbit_call cs m)" for m by (induction cs arbitrary: m) (simp_all add: orbit_inv_call)
  then show ?thesis using orbit_inv_new by blast
qed

lemma orbit_call_sel: "om_clusterPath (orbit_call c m) = om_clusterPath m" "om_nodeID (orbit_call c m) = om_nodeID m"
  by (cases c; auto simp: Orbit_Join_def Orbit_Leave_def Orbit_LeaveAll_def Orbit_Publish_def Let_def split: option.splits if_splits)+

lemma sendPayload_ok:
  assumes "sendPayload cd now pubErr typ p orbitName a m = (None, m')"
  obtains raw msg data entry where "marshalPayload_o cd p = Inr raw" "marshalOrbit cd msg = Inr data"
    "omsg_Type msg = typ" "omsg_Payload msg = raw" "omsg_SenderId msg = an_nodeID a" "omsg_Timestamp msg = Some now"
    "\<And>sign. an_signer a = Some sign \<Longrightarrow> sign (orbitCanonicalContent msg) = Inr (omsg_Signature msg)"
    "map_of (om_orbits m) orbitName = Some entry" "m' = m\<lparr>om_sent := om_sent m @ [(oe_topic entry, data)]\<rparr>"
proof -
  from assms obtain raw data where raw: "marshalPayload_o cd p = Inr raw" and b: "buildSignedMessage cd now typ raw a = Inr data"
    and pub: "Orbit_Publish pubErr orbitName data m = (None, m')"
    by (auto simp: sendPayload_def split: sum.splits)
  from pub obtain entry where "map_of (om_orbits m) orbitName = Some entry" "m' = m\<lparr>om_sent := om_sent m @ [(oe_topic entry, data)]\<rparr>"
    by (auto simp: Orbit_Publish_def split: option.splits)
  moreover from b obtain msg where "marshalOrbit cd msg = Inr data" "omsg_Type msg = typ" "omsg_Payload msg = raw"
    "omsg_SenderId msg = an_nodeID a" "omsg_Timestamp msg = Some now"
    "\<And>sign. an_signer a = Some sign \<Longrightarrow> sign (orbitCanonicalContent msg) = Inr (omsg_Signature msg)"
    by (auto simp: buildSignedMessage_def Let_def orbitCanonicalContent_envelope split: option.splits sum.splits)
  ultimately show thesis using raw that by blast
qed

lemma HandleMessage_accepts:
  assumes "map_of (dd_seen d) (hash data) = None" "unmarshalOrbit cd data = Some msg" "omsg_Timestamp msg = Some now"
    "now' - now \<le> MaxMessageAge"
    "an_verifier a = Some verify" "omsg_Signature msg \<noteq> []"
    "verify (omsg_SenderId msg) (orbitCanonicalContent msg) (omsg_Signature msg)"
  shows "fst (HandleMessage cd hash now' data a d) = parsePayload cd msg"
  using assms by (simp add: HandleMessage_def Deduplicator_IsDuplicate_def Let_def orbitCanonicalContent_envelope)

section \<open>Properties\<close>

text \<open>
  C16. An orbit message takes effect at most once. If a message was accepted and its timestamp was not in the future
  then, it is refused at every later time, whatever other messages and cleanups come in between: as long as the
  cache remembers it, it is a duplicate, and when the cleanup may drop it, it is older than \<^verbatim>\<open>MaxMessageAge\<close>.
\<close>

theorem orbit_no_replay:
  assumes "wf_map (dd_seen d)" and "MaxMessageAge \<le> dd_maxAge d"
    and "HandleMessage cd hash t data a d = (Inr r, d1)"
    and "unmarshalOrbit cd data = Some msg" and "omsg_Timestamp msg = Some ts" and "ts \<le> t"
    and "ordered_from t (ops @ [(t', OrbitMsg data)])"
  shows "\<exists>e. fst (HandleMessage cd hash t' data a (fold (orbit_step cd hash a) ops d1)) = Inl e"
proof -
  let ?d = "fold (orbit_step cd hash a) ops d1"
  have t: "t \<le> t'" "\<And>op. op \<in> set ops \<Longrightarrow> fst op \<le> t'" using ordered_from_append [OF assms(7)] by auto
  have new: "\<not> fst (Deduplicator_IsDuplicate hash t data d)"
    by (rule HandleMessage_Inr [of cd hash t data a d r]) (simp_all add: assms(3))
  have d1: "d1 = snd (Deduplicator_IsDuplicate hash t data d)" using snd_HandleMessage [of cd hash t data a d] assms(3) by simp
  show ?thesis
  proof (cases "t' - t \<le> dd_maxAge d")
    case True
    then have "fst (Deduplicator_IsDuplicate hash t' data ?d)"
      unfolding fold_orbit_step d1 using t by (intro orbit_dedup.not_twice assms(1) new) force+
    then show ?thesis by (metis HandleMessage_duplicate)
  next
    case False
    then have "t' - ts > MaxMessageAge" using assms(2,6) by simp
    then have "\<nexists>r. fst (HandleMessage cd hash t' data a ?d) = Inr r" using assms(4,5) by (auto elim!: HandleMessage_Inr)
    then show ?thesis by (metis sum.exhaust)
  qed
qed

theorem orbit_no_replay_witness:
  "\<exists>e. fst (HandleMessage (sampleOrbitCodec 0) id (301 * Second) ''m'' sampleAnnouncer
     (fold (orbit_step (sampleOrbitCodec 0) id sampleAnnouncer) [(301 * Second, OrbitCleanup)]
       (snd (HandleMessage (sampleOrbitCodec 0) id Second ''m'' sampleAnnouncer NewDeduplicator)))) = Inl e"
  by (rule orbit_no_replay [of NewDeduplicator _ _ Second _ _
        "(''withdrawal'', PWithdrawal \<lparr>pw_CapsuleId = ''c1'', pw_Reason = ''deleted''\<rparr>)" _ "sampleOrbitMessage 0" 0])
    (simp_all add: NewDeduplicator_def MaxMessageAge_def HandleMessage_def Deduplicator_IsDuplicate_def
      sampleOrbitCodec_def sampleOrbitMessage_def sampleAnnouncer_def parsePayload_def)

text \<open>
  The condition on the timestamp is needed, because nothing checks it: a message dated ten minutes ahead is
  accepted, and once the cleanup loop has dropped it from the cache, it is accepted a second time.
\<close>

theorem orbit_future_message_replayed:
  "\<exists>r. fst (HandleMessage (sampleOrbitCodec (600 * Second)) id 0 ''m'' sampleAnnouncer NewDeduplicator) = Inr r \<and>
   fst (HandleMessage (sampleOrbitCodec (600 * Second)) id (301 * Second) ''m'' sampleAnnouncer
     (Deduplicator_Cleanup (301 * Second)
       (snd (HandleMessage (sampleOrbitCodec (600 * Second)) id 0 ''m'' sampleAnnouncer NewDeduplicator)))) = Inr r"
  by (simp add: NewDeduplicator_def MaxMessageAge_def HandleMessage_def Deduplicator_IsDuplicate_def Deduplicator_Cleanup_def
      sampleOrbitCodec_def sampleOrbitMessage_def sampleAnnouncer_def parsePayload_def mput_def)

text \<open>
  C26. What an orbit accepts was signed by its sender. If the verifier accepts only contents that a node has signed,
  then an accepted message has the type, payload, sender and timestamp of a message the sender signed: no field
  can be changed or moved to another one.
\<close>

theorem orbit_accepts_authentic:
  assumes "fst (HandleMessage cd hash now data a d) = Inr (typ, p)" and "an_verifier a = Some verify"
    and "\<And>sender content sig. verify sender content sig \<Longrightarrow> \<exists>m. signed sender m \<and> content = orbitCanonicalContent m"
    and "\<And>sender m. signed sender m \<Longrightarrow> short (omsg_Type m) \<and> short (omsg_Payload m) \<and> short (omsg_SenderId m) \<and>
      (\<forall>t. omsg_Timestamp m = Some t \<longrightarrow> in_s64 t)"
    and "\<And>m. unmarshalOrbit cd data = Some m \<Longrightarrow> short (omsg_Type m) \<and> short (omsg_Payload m) \<and> short (omsg_SenderId m) \<and>
      (\<forall>t. omsg_Timestamp m = Some t \<longrightarrow> in_s64 t)"
  shows "\<exists>m msg. unmarshalOrbit cd data = Some msg \<and> signed (omsg_SenderId msg) m \<and>
    omsg_Type m = typ \<and> omsg_Payload m = omsg_Payload msg \<and> omsg_SenderId m = omsg_SenderId msg \<and>
    omsg_Timestamp m = omsg_Timestamp msg \<and> (\<forall>ts. omsg_Timestamp m = Some ts \<longrightarrow> now - ts \<le> MaxMessageAge)"
proof (rule HandleMessage_Inr [OF assms(1)])
  fix msg
  assume msg: "unmarshalOrbit cd data = Some msg" and fresh: "\<And>ts. omsg_Timestamp msg = Some ts \<Longrightarrow> now - ts \<le> MaxMessageAge"
    and ok: "\<And>verify. an_verifier a = Some verify \<Longrightarrow> omsg_Signature msg \<noteq> [] \<and>
      verify (omsg_SenderId msg) (orbitCanonicalContent msg) (omsg_Signature msg)"
    and parse: "parsePayload cd msg = Inr (typ, p)"
  from assms(3) ok [OF assms(2)] obtain m where m: "signed (omsg_SenderId msg) m" "orbitCanonicalContent msg = orbitCanonicalContent m"
    by blast
  have "omsg_Type msg = omsg_Type m \<and> omsg_Payload msg = omsg_Payload m \<and> omsg_SenderId msg = omsg_SenderId m \<and>
      omsg_Timestamp msg = omsg_Timestamp m"
    using m(2) assms(4) [OF m(1)] assms(5) [OF msg] unfolding orbitCanonicalContent_envelope by (intro envelopeContent_inj) auto
  moreover have "omsg_Type msg = typ" using parse by (auto simp: parsePayload_def Let_def split: if_splits option.splits)
  ultimately show ?thesis using msg m(1) fresh by metis
qed

theorem orbit_accepts_authentic_witness:
  "\<exists>msg. unmarshalOrbit (sampleOrbitCodec 0) ''m'' = Some msg \<and> omsg_SenderId msg = ''n2''"
proof -
  let ?a = "sampleAnnouncer\<lparr>an_verifier := Some (\<lambda>sender content sig. sender = ''n2'' \<and> content = orbitCanonicalContent (sampleOrbitMessage 0))\<rparr>"
  have "fst (HandleMessage (sampleOrbitCodec 0) id Second ''m'' ?a NewDeduplicator) =
      Inr (''withdrawal'', PWithdrawal \<lparr>pw_CapsuleId = ''c1'', pw_Reason = ''deleted''\<rparr>)"
    by (simp add: NewDeduplicator_def MaxMessageAge_def HandleMessage_def Deduplicator_IsDuplicate_def orbitCanonicalContent_envelope
        sampleOrbitCodec_def sampleOrbitMessage_def sampleAnnouncer_def parsePayload_def)
  from orbit_accepts_authentic [OF this, of _ "\<lambda>sender m. sender = ''n2'' \<and> m = sampleOrbitMessage 0"]
  have "\<exists>m msg. unmarshalOrbit (sampleOrbitCodec 0) ''m'' = Some msg \<and> (omsg_SenderId msg = ''n2'' \<and> m = sampleOrbitMessage 0)"
    by (fastforce simp: sampleOrbitMessage_def sampleOrbitCodec_def short_def in_s64_def split: if_splits)
  then show ?thesis by blast
qed

text \<open>
  An announcement arrives. If \<^verbatim>\<open>Announce\<close> succeeds on one node, the bytes it published on the orbit's topic,
  received within 30 seconds by a node that has not seen them and knows the key of the sender, are accepted and
  decode to the announcement of that capsule.
\<close>

theorem announcement_delivered:
  assumes "orbit_codec_law cd" and "Orbit_Announce cd now pubErr c a m = (None, m')" and "an_signer a = Some sign"
    and "an_verifier b = Some verify" and "\<And>content sig. sign content = Inr sig \<Longrightarrow> sig \<noteq> [] \<and> verify (an_nodeID a) content sig"
    and "now' - now \<le> MaxMessageAge"
  shows "\<exists>topic data p. om_sent m' = om_sent m @ [(topic, data)] \<and> normalAnnouncement p = normalAnnouncement (announcementOf c a) \<and>
    (\<forall>(hash :: string \<Rightarrow> 'h) d. map_of (dd_seen d) (hash data) = None \<longrightarrow>
       fst (HandleMessage cd hash now' data b d) = Inr (''announcement'', PAnnouncement p))"
proof (rule sendPayload_ok [OF assms(2) [unfolded Orbit_Announce_def]])
  fix raw msg data entry
  assume *: "marshalPayload_o cd (PAnnouncement (announcementOf c a)) = Inr raw" "marshalOrbit cd msg = Inr data"
    "omsg_Type msg = ''announcement''" "omsg_Payload msg = raw" "omsg_SenderId msg = an_nodeID a" "omsg_Timestamp msg = Some now"
    "\<And>sign. an_signer a = Some sign \<Longrightarrow> sign (orbitCanonicalContent msg) = Inr (omsg_Signature msg)"
    "m' = m\<lparr>om_sent := om_sent m @ [(oe_topic entry, data)]\<rparr>"
  obtain p where p: "unmarshalAnnouncement cd raw = Some p" "normalAnnouncement p = normalAnnouncement (announcementOf c a)"
    using assms(1) *(1) unfolding orbit_codec_law_def by blast
  have "unmarshalOrbit cd data = Some msg" using assms(1) *(2) unfolding orbit_codec_law_def by blast
  moreover have "omsg_Signature msg \<noteq> [] \<and> verify (omsg_SenderId msg) (orbitCanonicalContent msg) (omsg_Signature msg)"
    using assms(5) *(5) *(7) [OF assms(3)] by metis
  moreover have "parsePayload cd msg = Inr (''announcement'', PAnnouncement p)"
    using *(3,4) p(1) by (simp add: parsePayload_def)
  ultimately have "map_of (dd_seen d) (hash data) = None \<Longrightarrow>
      fst (HandleMessage cd hash now' data b d) = Inr (''announcement'', PAnnouncement p)" for hash :: "string \<Rightarrow> 'h" and d
    using assms(4,6) *(6) by (subst HandleMessage_accepts [where msg = msg and now = now and verify = verify]) auto
  then show ?thesis using *(8) p(2) by auto
qed

text \<open>
  Orbits keep apart. After any sequence of joins, leaves and publishes, every joined orbit has the topic of its
  own name, a publish on one orbit is seen only by the subscribers of that orbit's topic, and after
  \<^verbatim>\<open>LeaveAll\<close> no message is delivered any more, even if an orbit is joined again.
\<close>

theorem orbits_isolated:
  "let m = fold orbit_call cs (NewOrbitManager False path node) in
   (\<forall>name entry. map_of (om_orbits m) name = Some entry \<longrightarrow> oe_topic entry = BuildOrbitTopic path name) \<and>
   (\<forall>e name data m'. Orbit_Publish e name data m = (None, m') \<longrightarrow> om_sent m' = om_sent m @ [(BuildOrbitTopic path name, data)]) \<and>
   (\<forall>cs' name from. \<not> messageLoop_delivers name from (fold orbit_call cs' (Orbit_LeaveAll m)))"
proof -
  let ?m = "fold orbit_call cs (NewOrbitManager False path node)"
  have path: "om_clusterPath (fold orbit_call cs m) = om_clusterPath m" for m
    by (induction cs arbitrary: m) (simp_all add: orbit_call_sel)
  have inv: "orbit_inv ?m" by (rule orbit_inv_run)
  then have topics: "map_of (om_orbits ?m) name = Some entry \<Longrightarrow> oe_topic entry = BuildOrbitTopic path name" for name entry
    using path [of "NewOrbitManager False path node"] by (auto simp: orbit_inv_def NewOrbitManager_def)
  have step: "orbit_inv m \<and> om_cancelled m \<Longrightarrow> orbit_inv (orbit_call c m) \<and> om_cancelled (orbit_call c m)" for c m
    using orbit_inv_call [of m c]
    by (cases c) (auto simp: Orbit_Join_def Orbit_Leave_def Orbit_LeaveAll_def Orbit_Publish_def Let_def split: option.splits if_splits)
  have "orbit_inv m \<and> om_cancelled m \<Longrightarrow> orbit_inv (fold orbit_call cs' m) \<and> om_cancelled (fold orbit_call cs' m)" for cs' m
    by (induction cs' arbitrary: m) (simp_all add: step)
  moreover have "orbit_inv (Orbit_LeaveAll ?m) \<and> om_cancelled (Orbit_LeaveAll ?m)"
    using orbit_inv_call [OF inv, of OLeaveAll] by (simp add: Orbit_LeaveAll_def)
  ultimately have "\<not> messageLoop_delivers name from (fold orbit_call cs' (Orbit_LeaveAll ?m))" for cs' name "from"
    by (force simp: messageLoop_delivers_def orbit_inv_def split: option.splits)
  then show ?thesis using topics by (auto simp: Let_def Orbit_Publish_def split: option.splits)
qed

end
