(* ===== verification/Go_Strings.thy ===== *)
theory Go_Strings
  imports Falak_Prelude
begin

text \<open>
  The string functions of the Go standard library that the source calls. A string is its list of bytes.
  \<open>Atoi\<close> is \<^verbatim>\<open>strconv.Atoi\<close>: an optional sign and one or more decimal digits, \<open>None\<close> for a syntax
  error or a value outside \<^verbatim>\<open>int64\<close>.
\<close>

section \<open>Definitions\<close>

definition isDigit :: "char \<Rightarrow> bool" where
  "isDigit c \<longleftrightarrow> 48 \<le> (of_char c :: nat) \<and> (of_char c :: nat) \<le> 57"

definition digitVal :: "char \<Rightarrow> nat" where
  "digitVal c = of_char c - 48"

fun digitsVal :: "nat \<Rightarrow> string \<Rightarrow> nat" where
  "digitsVal acc [] = acc"
| "digitsVal acc (c # cs) = digitsVal (10 * acc + digitVal c) cs"

definition parseUint :: "string \<Rightarrow> nat option" where
  "parseUint s = (if s \<noteq> [] \<and> list_all isDigit s then Some (digitsVal 0 s) else None)"

definition signed :: "bool \<Rightarrow> nat option \<Rightarrow> int option" where
  "signed neg r = (case r of None \<Rightarrow> None
     | Some n \<Rightarrow> (let v = (if neg then - int n else int n) in if in_s64 v then Some v else None))"

fun Atoi :: "string \<Rightarrow> int option" where
  "Atoi [] = None"
| "Atoi (c # cs) = (if c = CHR ''-'' then signed True (parseUint cs)
     else if c = CHR ''+'' then signed False (parseUint cs)
     else signed False (parseUint (c # cs)))"

section \<open>Lemmas\<close>

lemma signed_range: "signed neg r = Some v \<Longrightarrow> in_s64 v"
  by (auto simp: signed_def Let_def split: option.splits if_splits)

lemma Atoi_range: "Atoi s = Some v \<Longrightarrow> in_s64 v"
  by (cases s) (auto dest: signed_range split: if_splits)

end
