(* ===== verification/Go_Parse.thy ===== *)
theory Go_Parse
  imports Go_Float Go_Strings
begin

text \<open>
  String scanning of the Go standard library: \<^verbatim>\<open>strings.TrimSpace\<close>, \<^verbatim>\<open>strings.Fields\<close>, prefixes and suffixes, and
  \<^verbatim>\<open>strconv.ParseFloat\<close> for 64 bits. A string is its list of bytes; white space is recognised by the UTF-8 bytes of
  the runes that \<^verbatim>\<open>unicode.IsSpace\<close> accepts. No other rune contains such a byte sequence, because the first byte of
  a multi-byte rune is never a continuation byte. A \<^verbatim>\<open>float64\<close> that may be infinite or not a number is a
  \<open>gofloat\<close>.
\<close>

section \<open>Definitions\<close>

subsection \<open>Floating-point values\<close>

datatype gofloat = Fin f64 | PosInf | NegInf | NotANumber

fun gless :: "gofloat \<Rightarrow> gofloat \<Rightarrow> bool" where
  "gless (Fin a) (Fin b) = (a < b)"
| "gless (Fin a) PosInf = True"
| "gless NegInf (Fin b) = True"
| "gless NegInf PosInf = True"
| "gless _ _ = False"

fun geq :: "gofloat \<Rightarrow> gofloat \<Rightarrow> bool" where
  "geq (Fin a) (Fin b) = (a = b)"
| "geq PosInf PosInf = True"
| "geq NegInf NegInf = True"
| "geq _ _ = False"

definition glesseq :: "gofloat \<Rightarrow> gofloat \<Rightarrow> bool" where
  "glesseq a b \<longleftrightarrow> gless a b \<or> geq a b"

subsection \<open>White space\<close>

abbreviation byte :: "char \<Rightarrow> nat" where "byte c \<equiv> of_char c"

text \<open>The number of bytes of the white space rune at the start of the string; 0 if there is none.\<close>

definition spaceLen :: "string \<Rightarrow> nat" where
  "spaceLen s = (case map (of_char :: char \<Rightarrow> nat) (take 3 s) of
     [] \<Rightarrow> 0
   | x # xs \<Rightarrow> if List.member [9, 10, 11, 12, 13, 32] x then 1
     else case xs of
       [] \<Rightarrow> 0
     | y # ys \<Rightarrow> if x = 194 \<and> (y = 133 \<or> y = 160) then 2
       else case ys of
         [] \<Rightarrow> 0
       | z # _ \<Rightarrow> if x = 225 \<and> y = 154 \<and> z = 128
             \<or> x = 226 \<and> y = 128 \<and> (128 \<le> z \<and> z \<le> 138 \<or> z = 168 \<or> z = 169 \<or> z = 175)
             \<or> x = 226 \<and> y = 129 \<and> z = 159
             \<or> x = 227 \<and> y = 128 \<and> z = 128 then 3 else 0)"

text \<open>The same for the end of the string, given in reverse.\<close>

definition spaceLenEnd :: "string \<Rightarrow> nat" where
  "spaceLenEnd r = (if spaceLen (rev (take 1 r)) = 1 then 1
     else if spaceLen (rev (take 2 r)) = 2 then 2
     else if spaceLen (rev (take 3 r)) = 3 then 3 else 0)"

lemma spaceLen_Nil [simp]: "spaceLen [] = 0"
  by (simp add: spaceLen_def)

lemma spaceLenEnd_Nil [simp]: "spaceLenEnd [] = 0"
  by (simp add: spaceLenEnd_def)

lemma drop_shorter: "length s - n < length s \<longleftrightarrow> 0 < n \<and> s \<noteq> []"
  by (cases s) auto

function trimLeft :: "string \<Rightarrow> string" where
  "trimLeft s = (if spaceLen s = 0 then s else trimLeft (drop (spaceLen s) s))"
  by auto
termination
  by (relation "measure length") (auto simp: drop_shorter)

function trimRight :: "string \<Rightarrow> string" where
  "trimRight r = (if spaceLenEnd r = 0 then r else trimRight (drop (spaceLenEnd r) r))"
  by auto
termination
  by (relation "measure length") (auto simp: drop_shorter)

declare trimLeft.simps [simp del] trimRight.simps [simp del]

definition TrimSpace :: "string \<Rightarrow> string" where
  "TrimSpace s = rev (trimRight (rev (trimLeft s)))"

text \<open>\<open>fieldsFrom acc s\<close>: the fields of \<open>s\<close> when the bytes \<open>acc\<close> of the current field are already read.\<close>

function fieldsFrom :: "string \<Rightarrow> string \<Rightarrow> string list" where
  "fieldsFrom acc s = (if s = [] then (if acc = [] then [] else [acc])
     else if spaceLen s = 0 then fieldsFrom (acc @ [hd s]) (tl s)
     else (if acc = [] then [] else [acc]) @ fieldsFrom [] (drop (spaceLen s) s))"
  by auto
termination
  by (relation "measure (\<lambda>(acc, s). length s)") (auto simp: drop_shorter)

declare fieldsFrom.simps [simp del]

definition Fields :: "string \<Rightarrow> string list" where
  "Fields s = fieldsFrom [] s"

subsection \<open>Prefixes and suffixes\<close>

definition HasPrefix :: "string \<Rightarrow> string \<Rightarrow> bool" where
  "HasPrefix s p \<longleftrightarrow> take (length p) s = p"

definition HasSuffix :: "string \<Rightarrow> string \<Rightarrow> bool" where
  "HasSuffix s p \<longleftrightarrow> length p \<le> length s \<and> drop (length s - length p) s = p"

definition TrimSuffix :: "string \<Rightarrow> string \<Rightarrow> string" where
  "TrimSuffix s p = (if HasSuffix s p then take (length s - length p) s else s)"

subsection \<open>ParseFloat\<close>

definition lowerByte :: "char \<Rightarrow> nat" where
  "lowerByte c = (if 65 \<le> byte c \<and> byte c \<le> 90 then byte c + 32 else byte c)"

definition equalFold :: "string \<Rightarrow> string \<Rightarrow> bool" where
  "equalFold s t \<longleftrightarrow> map lowerByte s = map (of_char :: char \<Rightarrow> nat) t"

definition special :: "string \<Rightarrow> gofloat option" where
  "special s = (if equalFold s ''inf'' \<or> equalFold s ''infinity'' \<or> equalFold s ''+inf'' \<or> equalFold s ''+infinity'' then Some PosInf
     else if equalFold s ''-inf'' \<or> equalFold s ''-infinity'' then Some NegInf
     else if equalFold s ''nan'' then Some NotANumber else None)"

definition hexVal :: "char \<Rightarrow> nat option" where
  "hexVal c = (if isDigit c then Some (digitVal c)
     else if 97 \<le> lowerByte c \<and> lowerByte c \<le> 102 then Some (lowerByte c - 87) else None)"

record scan =
  sc_dot :: bool
  sc_digits :: bool
  sc_mant :: nat
  sc_frac :: nat
  sc_under :: bool

text \<open>The digits of the mantissa: their value, how many follow the point, and the unread rest.\<close>

fun scanMant :: "bool \<Rightarrow> scan \<Rightarrow> string \<Rightarrow> scan \<times> string" where
  "scanMant hex st [] = (st, [])"
| "scanMant hex st (c # cs) =
     (if c = CHR ''_'' then scanMant hex (st\<lparr>sc_under := True\<rparr>) cs
      else if c = CHR ''.'' then (if sc_dot st then (st, c # cs) else scanMant hex (st\<lparr>sc_dot := True\<rparr>) cs)
      else case (if isDigit c then Some (digitVal c) else if hex then hexVal c else None) of
        None \<Rightarrow> (st, c # cs)
      | Some d \<Rightarrow> scanMant hex (st\<lparr>sc_digits := True, sc_mant := (if hex then 16 else 10) * sc_mant st + d,
          sc_frac := (if sc_dot st then Suc (sc_frac st) else sc_frac st)\<rparr>) cs)"

text \<open>The digits of the exponent; the value stops growing at 10000, as in the library.\<close>

fun scanExp :: "nat \<Rightarrow> bool \<Rightarrow> string \<Rightarrow> nat \<times> bool \<times> string" where
  "scanExp e u [] = (e, u, [])"
| "scanExp e u (c # cs) =
     (if c = CHR ''_'' then scanExp e True cs
      else if isDigit c then scanExp (if e < 10000 then e * 10 + digitVal c else e) u cs
      else (e, u, c # cs))"

datatype seen = AtStart | SawDigit | SawUnderscore | SawOther

fun underscoreScan :: "bool \<Rightarrow> seen \<Rightarrow> string \<Rightarrow> bool" where
  "underscoreScan hex saw [] = (saw \<noteq> SawUnderscore)"
| "underscoreScan hex saw (c # cs) =
     (if isDigit c \<or> hex \<and> hexVal c \<noteq> None then underscoreScan hex SawDigit cs
      else if c = CHR ''_'' then (if saw \<noteq> SawDigit then False else underscoreScan hex SawUnderscore cs)
      else if saw = SawUnderscore then False
      else underscoreScan hex SawOther cs)"

definition dropSign :: "string \<Rightarrow> string" where
  "dropSign s = (case s of c # cs \<Rightarrow> if c = CHR ''+'' \<or> c = CHR ''-'' then cs else s | [] \<Rightarrow> [])"

definition underscoreOK :: "string \<Rightarrow> bool" where
  "underscoreOK s = (case dropSign s of
     c # d # cs \<Rightarrow> if c = CHR ''0'' \<and> List.member [98, 111, 120] (lowerByte d)
       then underscoreScan (lowerByte d = 120) SawDigit cs else underscoreScan False AtStart (c # d # cs)
   | s' \<Rightarrow> underscoreScan False AtStart s')"

text \<open>The exponent part after the mantissa: the exponent, whether it has underscores, and the rest; \<open>None\<close> if it is
  malformed or a hexadecimal number has none.\<close>

definition readExp :: "bool \<Rightarrow> string \<Rightarrow> (int \<times> bool \<times> string) option" where
  "readExp hex rest = (case rest of
     [] \<Rightarrow> if hex then None else Some (0, False, [])
   | c # cs \<Rightarrow> if lowerByte c = (if hex then 112 else 101) then
       (let (sign, ds) = (case cs of d # ds \<Rightarrow> if d = CHR ''+'' then (1, ds) else if d = CHR ''-'' then (-1, ds) else (1, cs) | [] \<Rightarrow> (1, []))
        in case ds of
          [] \<Rightarrow> None
        | d # _ \<Rightarrow> if \<not> isDigit d then None
            else let (e, u, rest') = scanExp 0 False ds in Some (sign * int e, u, rest'))
     else if hex then None else Some (0, False, rest))"

text \<open>The exact value of a well-formed number that uses the whole string.\<close>

definition readFloat :: "string \<Rightarrow> rat option" where
  "readFloat s = (if s = [] then None else let
     neg = (hd s = CHR ''-'');
     body = dropSign s;
     hex = (2 < length body \<and> body ! 0 = CHR ''0'' \<and> lowerByte (body ! 1) = 120);
     body = (if hex then drop 2 body else body);
     (st, rest) = scanMant hex \<lparr>sc_dot = False, sc_digits = False, sc_mant = 0, sc_frac = 0, sc_under = False\<rparr> body
     in if \<not> sc_digits st then None
     else case readExp hex rest of
       None \<Rightarrow> None
     | Some (e, u, rest') \<Rightarrow>
         if rest' \<noteq> [] \<or> ((sc_under st \<or> u) \<and> \<not> underscoreOK s) then None
         else let m = of_nat (sc_mant st);
                  v = (if hex then m * 2 powi (e - 4 * int (sc_frac st)) else m * 10 powi (e - int (sc_frac st)))
              in Some (if neg then - v else v))"

definition ParseFloat :: "string \<Rightarrow> gofloat option" where
  "ParseFloat s = (case special s of
     Some f \<Rightarrow> Some f
   | None \<Rightarrow> (case readFloat s of
       None \<Rightarrow> None
     | Some x \<Rightarrow> let v = f64 x in if \<bar>v\<bar> < 2 ^ 1024 then Some (Fin v) else None))"

text \<open>A graphic character is a printable ASCII character other than the blank.\<close>

definition graphic :: "char \<Rightarrow> bool" where
  "graphic c \<longleftrightarrow> 32 < byte c \<and> byte c < 128"

section \<open>Lemmas\<close>

lemma spaceLen_ascii:
  assumes "32 < byte c" "byte c < 128"
  shows "spaceLen (c # t) = 0"
proof -
  have "take 3 (c # t) = c # take 2 t" by simp
  then show ?thesis using assms by (simp add: spaceLen_def split: list.split)
qed

lemma spaceLen_graphic: "graphic c \<Longrightarrow> spaceLen (c # t) = 0"
  by (simp add: graphic_def spaceLen_ascii)

lemma spaceLen_blank: "spaceLen (CHR '' '' # t) = 1"
proof -
  have "take 3 (CHR '' '' # t) = CHR '' '' # take 2 t" by simp
  then show ?thesis by (simp add: spaceLen_def)
qed

lemma fieldsFrom_word: "list_all graphic w \<Longrightarrow> fieldsFrom acc (w @ s) = fieldsFrom (acc @ w) s"
proof (induction w arbitrary: acc)
  case (Cons c w)
  then show ?case
    by (subst fieldsFrom.simps) (simp add: spaceLen_graphic)
qed simp

lemma fieldsFrom_blank:
  "fieldsFrom acc (CHR '' '' # s) = (if acc = [] then [] else [acc]) @ fieldsFrom [] s"
  by (subst fieldsFrom.simps) (simp add: spaceLen_blank)

lemma fieldsFrom_Nil: "fieldsFrom acc [] = (if acc = [] then [] else [acc])"
  by (subst fieldsFrom.simps) simp

lemmas fields_simps = fieldsFrom_word fieldsFrom_blank fieldsFrom_Nil

lemma trimLeft_graphic: "s \<noteq> [] \<Longrightarrow> graphic (hd s) \<Longrightarrow> trimLeft s = s"
  by (cases s) (simp_all add: trimLeft.simps spaceLen_graphic)

lemma spaceLen_last_graphic:
  assumes "graphic c"
  shows "spaceLen (s @ [c]) \<noteq> Suc (length s)"
proof -
  consider (a) "s = []" | (b) x where "s = [x]" | (c) x y where "s = [x, y]" | (d) "3 \<le> length s"
    by (cases s; cases "tl s"; cases "tl (tl s)") (auto simp: Suc_le_eq neq_Nil_conv)
  then show ?thesis
  proof cases
    case a
    then show ?thesis using spaceLen_graphic [OF assms, of "[]"] by simp
  next
    case b
    then show ?thesis using assms by (auto simp: spaceLen_def graphic_def)
  next
    case c
    then show ?thesis using assms by (auto simp: spaceLen_def graphic_def)
  next
    case d
    have "spaceLen t \<le> 3" for t by (simp add: spaceLen_def split: list.split)
    then show ?thesis using d by (metis Suc_n_not_le_n le_SucI le_trans)
  qed
qed

lemma spaceLen_le: "spaceLen t \<le> length t"
proof -
  consider "t = []" | x where "t = [x]" | x y where "t = [x, y]" | x y z t' where "t = x # y # z # t'"
    by (metis list.exhaust)
  then show ?thesis by cases (simp_all add: spaceLen_def)
qed

lemma spaceLenEnd_graphic:
  assumes "graphic c"
  shows "spaceLenEnd (c # r) = 0"
proof -
  have "spaceLen (rev (take k (c # r))) \<noteq> k" if "0 < k" "k \<le> 3" for k
  proof (cases "k \<le> Suc (length r)")
    case True
    from that obtain j where "k = Suc j" by (cases k) auto
    then show ?thesis using True spaceLen_last_graphic [OF assms, of "rev (take j r)"] by simp
  next
    case False
    then show ?thesis using spaceLen_le [of "rev (take k (c # r))"] by simp
  qed
  from this [of 1] this [of 2] this [of 3] show ?thesis by (simp add: spaceLenEnd_def)
qed

lemma TrimSpace_graphic:
  assumes "s \<noteq> []" "graphic (hd s)" "graphic (last s)"
  shows "TrimSpace s = s"
proof -
  from assms obtain c r where r: "rev s = c # r" "graphic c"
    by (metis hd_rev list.exhaust_sel rev_is_Nil_conv)
  then have "trimRight (rev s) = rev s"
    by (simp add: trimRight.simps spaceLenEnd_graphic)
  then show ?thesis using assms by (simp add: TrimSpace_def trimLeft_graphic)
qed

lemma digit_graphic: "isDigit c \<Longrightarrow> graphic c"
  by (simp add: isDigit_def graphic_def)

lemma digit_not_special:
  assumes "isDigit c"
  shows "c \<noteq> CHR ''_''" "c \<noteq> CHR ''.''" "c \<noteq> CHR ''+''" "c \<noteq> CHR ''-''" "lowerByte c = of_char c"
    "of_char c \<noteq> (120 :: nat)" "of_char c \<noteq> (105 :: nat)" "of_char c \<noteq> (110 :: nat)" "of_char c \<noteq> (43 :: nat)" "of_char c \<noteq> (45 :: nat)"
  using assms by (auto simp: isDigit_def lowerByte_def)

lemma scanMant_digits:
  "list_all isDigit ds \<Longrightarrow> \<not> sc_dot st \<Longrightarrow>
   scanMant False st ds = (st\<lparr>sc_digits := (sc_digits st \<or> ds \<noteq> []), sc_mant := digitsVal (sc_mant st) ds\<rparr>, [])"
  by (induction ds arbitrary: st) (simp_all add: digit_not_special)

lemma readFloat_digits:
  assumes "ds \<noteq> []" "list_all isDigit ds"
  shows "readFloat ds = Some (of_nat (digitsVal 0 ds))"
proof -
  from assms have hd: "isDigit (hd ds)" by (cases ds) auto
  have nohex: "(2 < length ds \<and> ds ! 0 = CHR ''0'' \<and> lowerByte (ds ! 1) = 120) = False"
    using assms(2) digit_not_special(5, 6) by (metis (no_types) list_all_length less_trans one_less_numeral_iff semiring_norm(76))
  have sign: "dropSign ds = ds" "hd ds \<noteq> CHR ''-''"
    using assms(1) hd by (cases ds; simp add: dropSign_def digit_not_special)+
  show ?thesis
    using assms unfolding readFloat_def Let_def sign nohex
    by (simp add: scanMant_digits readExp_def sign(2))
qed

lemma special_digits: "isDigit d \<Longrightarrow> special (d # ds) = None"
  by (simp add: special_def equalFold_def digit_not_special)

lemma ParseFloat_digits:
  assumes "ds \<noteq> []" "list_all isDigit ds" "int (digitsVal 0 ds) \<le> 2 ^ 53"
  shows "ParseFloat ds = Some (Fin (of_nat (digitsVal 0 ds)))"
proof -
  have "special ds = None" using assms(1, 2) by (cases ds) (simp_all add: special_digits)
  moreover have "of_nat (digitsVal 0 ds) < (2 :: rat) ^ 1024"
  proof -
    have "rat_of_int (int (digitsVal 0 ds)) \<le> rat_of_int (2 ^ 53)" using assms(3) by (simp only: of_int_le_iff)
    also have "\<dots> = 2 ^ 53" by (simp only: of_int_power of_int_numeral)
    also have "\<dots> < (2 :: rat) ^ 1024" by (rule power_strict_increasing) simp_all
    finally show ?thesis by (simp only: of_int_of_nat_eq)
  qed
  ultimately show ?thesis
    using assms by (simp add: ParseFloat_def readFloat_digits f64_of_nat Let_def)
qed

end
