(* ===== verification/Scaling.thy ===== *)
theory Scaling
  imports Capsule_Types Go_Parse
begin

text \<open>
  \<^verbatim>\<open>src/capsule/scaling\<close>: the parser of scaling conditions, the rule evaluator with its cooldowns, the registry of
  metrics providers and one pass of the monitor. A metrics provider is an interface of the source: a function from a
  metric name to its value, \<open>None\<close> for an unknown metric. The handler of the monitor receives its events; the
  model keeps them in \<open>mo_emitted\<close>, in order.
\<close>

section \<open>Definitions\<close>

subsection \<open>Conditions\<close>

definition opGreaterThan :: string where "opGreaterThan = ''>''"
definition opLessThan :: string where "opLessThan = ''<''"
definition opEqual :: string where "opEqual = ''==''"
definition opGreaterEq :: string where "opGreaterEq = ''>=''"
definition opLessEq :: string where "opLessEq = ''<=''"

record Condition =
  cd_Metric :: string
  cd_Operator :: string
  cd_Value :: gofloat
  cd_Unit :: string
  cd_Raw :: string

datatype scalingError =
    InvalidCondition string
  | UnknownOperator string
  | InvalidNumber string
  | InCondition string scalingError
  | InScalingRule string scalingError

definition tokenize :: "string \<Rightarrow> string list" where
  "tokenize s = filter (\<lambda>part. part \<noteq> []) (Fields s)"

definition parseOperator :: "string \<Rightarrow> scalingError + string" where
  "parseOperator s = (if s = ''>'' then Inr opGreaterThan else if s = ''<'' then Inr opLessThan
     else if s = ''=='' then Inr opEqual else if s = ''>='' then Inr opGreaterEq
     else if s = ''<='' then Inr opLessEq else Inl (UnknownOperator s))"

definition parseNumber :: "string \<Rightarrow> string \<Rightarrow> scalingError + (gofloat \<times> string)" where
  "parseNumber numStr unit = (case ParseFloat numStr of
     None \<Rightarrow> Inl (InvalidNumber numStr)
   | Some v \<Rightarrow> Inr (v, unit))"

definition parseValue :: "string \<Rightarrow> scalingError + (gofloat \<times> string)" where
  "parseValue s = (case find (HasSuffix s) [''%'', ''ms'', ''m'', ''s''] of
     Some unit \<Rightarrow> parseNumber (TrimSuffix s unit) unit
   | None \<Rightarrow> parseNumber s '''')"

definition ParseCondition :: "string \<Rightarrow> scalingError + Condition" where
  "ParseCondition raw = (let raw = TrimSpace raw in
     if HasPrefix raw ''schedule:'' then
       Inr \<lparr>cd_Metric = ''schedule'', cd_Operator = '''', cd_Value = Fin 0, cd_Unit = '''', cd_Raw = raw\<rparr>
     else case tokenize raw of
       [metric, p1, p2] \<Rightarrow> (case parseOperator p1 of
           Inl e \<Rightarrow> Inl (InCondition raw e)
         | Inr operator \<Rightarrow> (case parseValue p2 of
             Inl e \<Rightarrow> Inl (InCondition raw e)
           | Inr (v, unit) \<Rightarrow> Inr \<lparr>cd_Metric = metric, cd_Operator = operator, cd_Value = v, cd_Unit = unit, cd_Raw = raw\<rparr>))
     | _ \<Rightarrow> Inl (InvalidCondition raw))"

definition Condition_Evaluate :: "Condition \<Rightarrow> gofloat \<Rightarrow> bool" where
  "Condition_Evaluate c metricValue = (
     if cd_Operator c = opGreaterThan then gless (cd_Value c) metricValue
     else if cd_Operator c = opLessThan then gless metricValue (cd_Value c)
     else if cd_Operator c = opEqual then geq metricValue (cd_Value c)
     else if cd_Operator c = opGreaterEq then glesseq (cd_Value c) metricValue
     else if cd_Operator c = opLessEq then glesseq metricValue (cd_Value c)
     else False)"

subsection \<open>Rules\<close>

record Scaling_Rule =
  sl_Name :: string
  sl_Trigger :: string
  sl_Conditions :: "Condition list"
  sl_Action :: string
  sl_Cooldown :: duration

fun parseConditions :: "string list \<Rightarrow> scalingError + Condition list" where
  "parseConditions [] = Inr []"
| "parseConditions (raw # raws) = (case ParseCondition raw of
     Inl e \<Rightarrow> Inl e
   | Inr cond \<Rightarrow> (case parseConditions raws of Inl e \<Rightarrow> Inl e | Inr conds \<Rightarrow> Inr (cond # conds)))"

definition Scaling_FromSpec :: "ScalingRule \<Rightarrow> scalingError + Scaling_Rule" where
  "Scaling_FromSpec spec = (case parseConditions (sr_Conditions spec) of
     Inl e \<Rightarrow> Inl (InScalingRule (sr_Name spec) e)
   | Inr conds \<Rightarrow> Inr \<lparr>sl_Name = sr_Name spec, sl_Trigger = sr_Trigger spec, sl_Conditions = conds,
       sl_Action = sr_Action spec, sl_Cooldown = sr_Cooldown spec\<rparr>)"

fun Scaling_FromSpecList :: "ScalingRule list \<Rightarrow> scalingError + Scaling_Rule list" where
  "Scaling_FromSpecList [] = Inr []"
| "Scaling_FromSpecList (spec # specs) = (case Scaling_FromSpec spec of
     Inl e \<Rightarrow> Inl e
   | Inr rule \<Rightarrow> (case Scaling_FromSpecList specs of Inl e \<Rightarrow> Inl e | Inr rules \<Rightarrow> Inr (rule # rules)))"

subsection \<open>The evaluator\<close>

type_synonym MetricsProvider = "string \<Rightarrow> gofloat option"

record EvalResult =
  er_RuleName :: string
  er_Action :: string
  er_Matched :: bool

record Evaluator =
  ev_cooldowns :: "(string, time) gomap"

definition NewEvaluator :: Evaluator where
  "NewEvaluator = \<lparr>ev_cooldowns = []\<rparr>"

definition cooldownKey :: "string \<Rightarrow> string \<Rightarrow> string" where
  "cooldownKey capsuleID ruleName = capsuleID @ '':'' @ ruleName"

fun evaluateAll :: "Condition list \<Rightarrow> MetricsProvider \<Rightarrow> bool" where
  "evaluateAll [] metrics = True"
| "evaluateAll (cond # conds) metrics =
     (if cd_Metric cond = ''schedule'' then evaluateAll conds metrics
      else case metrics (cd_Metric cond) of
        None \<Rightarrow> False
      | Some v \<Rightarrow> if \<not> Condition_Evaluate cond v then False else evaluateAll conds metrics)"

fun evaluateAny :: "Condition list \<Rightarrow> MetricsProvider \<Rightarrow> bool" where
  "evaluateAny [] metrics = False"
| "evaluateAny (cond # conds) metrics =
     (if cd_Metric cond = ''schedule'' then evaluateAny conds metrics
      else case metrics (cd_Metric cond) of
        None \<Rightarrow> evaluateAny conds metrics
      | Some v \<Rightarrow> if Condition_Evaluate cond v then True else evaluateAny conds metrics)"

definition Evaluator_evaluateRule :: "Scaling_Rule \<Rightarrow> MetricsProvider \<Rightarrow> bool" where
  "Evaluator_evaluateRule rule metrics = (
     if sl_Trigger rule = triggerModeAll then evaluateAll (sl_Conditions rule) metrics
     else if sl_Trigger rule = triggerModeAny then evaluateAny (sl_Conditions rule) metrics
     else False)"

definition isInCooldown :: "Evaluator \<Rightarrow> string \<Rightarrow> duration \<Rightarrow> time \<Rightarrow> bool" where
  "isInCooldown e key cooldown now = (if cooldown = 0 then False
     else case map_of (ev_cooldowns e) key of
       None \<Rightarrow> False
     | Some lastTriggered \<Rightarrow> now < lastTriggered + cooldown)"

definition recordCooldown :: "string \<Rightarrow> time \<Rightarrow> Evaluator \<Rightarrow> Evaluator" where
  "recordCooldown key now e = e\<lparr>ev_cooldowns := mput key now (ev_cooldowns e)\<rparr>"

text \<open>The loop of \<^verbatim>\<open>Evaluate\<close>: the first rule that is not cooling down and holds.\<close>

fun matchRule :: "time \<Rightarrow> string \<Rightarrow> Scaling_Rule list \<Rightarrow> MetricsProvider \<Rightarrow> Evaluator \<Rightarrow> Scaling_Rule option" where
  "matchRule now capsuleID [] metrics e = None"
| "matchRule now capsuleID (rule # rules) metrics e =
     (if isInCooldown e (cooldownKey capsuleID (sl_Name rule)) (sl_Cooldown rule) now then matchRule now capsuleID rules metrics e
      else if Evaluator_evaluateRule rule metrics then Some rule
      else matchRule now capsuleID rules metrics e)"

definition Evaluate :: "time \<Rightarrow> string \<Rightarrow> Scaling_Rule list \<Rightarrow> MetricsProvider \<Rightarrow> Evaluator \<Rightarrow> EvalResult option \<times> Evaluator" where
  "Evaluate now capsuleID rules metrics e = (case matchRule now capsuleID rules metrics e of
     None \<Rightarrow> (None, e)
   | Some rule \<Rightarrow> (Some \<lparr>er_RuleName = sl_Name rule, er_Action = sl_Action rule, er_Matched = True\<rparr>,
       recordCooldown (cooldownKey capsuleID (sl_Name rule)) now e))"

definition ResetCooldown :: "string \<Rightarrow> string \<Rightarrow> Evaluator \<Rightarrow> Evaluator" where
  "ResetCooldown capsuleID ruleName e = e\<lparr>ev_cooldowns := mdel (cooldownKey capsuleID ruleName) (ev_cooldowns e)\<rparr>"

definition ResetAllCooldowns :: "string \<Rightarrow> Evaluator \<Rightarrow> Evaluator" where
  "ResetAllCooldowns capsuleID e = (let prefix = capsuleID @ '':'' in
     e\<lparr>ev_cooldowns := filter (\<lambda>(key, t). \<not> (length prefix \<le> length key \<and> take (length prefix) key = prefix)) (ev_cooldowns e)\<rparr>)"

subsection \<open>The registry of metrics providers\<close>

record InMemoryRegistry =
  rg_providers :: "(string, MetricsProvider) gomap"

definition NewInMemoryRegistry :: InMemoryRegistry where
  "NewInMemoryRegistry = \<lparr>rg_providers = []\<rparr>"

definition InMemoryRegistry_Register :: "string \<Rightarrow> MetricsProvider \<Rightarrow> InMemoryRegistry \<Rightarrow> InMemoryRegistry" where
  "InMemoryRegistry_Register cid provider r = r\<lparr>rg_providers := mput cid provider (rg_providers r)\<rparr>"

definition InMemoryRegistry_Unregister :: "string \<Rightarrow> InMemoryRegistry \<Rightarrow> InMemoryRegistry" where
  "InMemoryRegistry_Unregister cid r = r\<lparr>rg_providers := mdel cid (rg_providers r)\<rparr>"

definition InMemoryRegistry_Get :: "InMemoryRegistry \<Rightarrow> string \<Rightarrow> MetricsProvider option" where
  "InMemoryRegistry_Get r cid = map_of (rg_providers r) cid"

definition InMemoryRegistry_Count :: "InMemoryRegistry \<Rightarrow> nat" where
  "InMemoryRegistry_Count r = length (rg_providers r)"

subsection \<open>The monitor\<close>

record ScaleEvent =
  se_CapsuleID :: string
  se_RuleName :: string
  se_Action :: string
  se_Timestamp :: time

record CapsuleMetrics =
  cm_CapsuleID :: string
  cm_Rules :: "Scaling_Rule list"
  cm_Metrics :: "MetricsProvider option"

record Monitor =
  mo_evaluator :: Evaluator
  mo_capsules :: "(string, CapsuleMetrics) gomap"
  mo_registry :: "InMemoryRegistry option"
  mo_interval :: duration
  mo_emitted :: "ScaleEvent list"

definition NewMonitor :: Monitor where
  "NewMonitor = \<lparr>mo_evaluator = NewEvaluator, mo_capsules = [], mo_registry = None, mo_interval = 10 * 1000000000,
     mo_emitted = []\<rparr>"

definition WithMonitorInterval :: "duration \<Rightarrow> Monitor \<Rightarrow> Monitor" where
  "WithMonitorInterval d m = m\<lparr>mo_interval := d\<rparr>"

definition WithMonitorRegistry :: "InMemoryRegistry \<Rightarrow> Monitor \<Rightarrow> Monitor" where
  "WithMonitorRegistry r m = m\<lparr>mo_registry := Some r\<rparr>"

definition Monitor_Register :: "CapsuleMetrics \<Rightarrow> Monitor \<Rightarrow> Monitor" where
  "Monitor_Register cm m = m\<lparr>mo_capsules := mput (cm_CapsuleID cm) cm (mo_capsules m)\<rparr>"

definition Monitor_Unregister :: "string \<Rightarrow> Monitor \<Rightarrow> Monitor" where
  "Monitor_Unregister cid m = m\<lparr>mo_capsules := mdel cid (mo_capsules m),
     mo_evaluator := ResetAllCooldowns cid (mo_evaluator m)\<rparr>"

definition providerFor :: "Monitor \<Rightarrow> CapsuleMetrics \<Rightarrow> MetricsProvider option" where
  "providerFor m cm = (let
     provider = (case mo_registry m of None \<Rightarrow> None | Some r \<Rightarrow> InMemoryRegistry_Get r (cm_CapsuleID cm))
     in if Option.is_none provider then cm_Metrics cm else provider)"

text \<open>One capsule of a pass; \<open>clock\<close> gives the two readings of the clock, in \<^verbatim>\<open>Evaluate\<close> and for the event.\<close>

definition evaluateCapsule :: "(string \<Rightarrow> time \<times> time) \<Rightarrow> CapsuleMetrics \<Rightarrow> Monitor \<Rightarrow> Monitor" where
  "evaluateCapsule clock cm m = (case providerFor m cm of
     None \<Rightarrow> m
   | Some provider \<Rightarrow> (let
       (now, stamp) = clock (cm_CapsuleID cm);
       (result, e) = Evaluate now (cm_CapsuleID cm) (cm_Rules cm) provider (mo_evaluator m);
       m = m\<lparr>mo_evaluator := e\<rparr>
       in case result of
         None \<Rightarrow> m
       | Some res \<Rightarrow> if er_Matched res then m\<lparr>mo_emitted := mo_emitted m @ [\<lparr>se_CapsuleID = cm_CapsuleID cm,
             se_RuleName = er_RuleName res, se_Action = er_Action res, se_Timestamp = stamp\<rparr>]\<rparr> else m))"

definition Monitor_evaluate :: "(string \<Rightarrow> time \<times> time) \<Rightarrow> Monitor \<Rightarrow> Monitor" where
  "Monitor_evaluate clock m = fold (evaluateCapsule clock) (map snd (mo_capsules m)) m"

text \<open>A sequence of calls of \<^verbatim>\<open>Evaluate\<close> and the rules that fire: the cooldown key, the cooldown of the rule and
  the time.\<close>

record EvalCall =
  ec_now :: time
  ec_capsule :: string
  ec_rules :: "Scaling_Rule list"
  ec_metrics :: MetricsProvider

fun runFirings :: "EvalCall list \<Rightarrow> Evaluator \<Rightarrow> (string \<times> duration \<times> time) list" where
  "runFirings [] e = []"
| "runFirings (c # cs) e =
     (case matchRule (ec_now c) (ec_capsule c) (ec_rules c) (ec_metrics c) e of
        None \<Rightarrow> []
      | Some rule \<Rightarrow> [(cooldownKey (ec_capsule c) (sl_Name rule), sl_Cooldown rule, ec_now c)])
     @ runFirings cs (snd (Evaluate (ec_now c) (ec_capsule c) (ec_rules c) (ec_metrics c) e))"

definition operators :: "string list" where
  "operators = [''>'', ''<'', ''=='', ''>='', ''<='']"

definition units :: "string list" where
  "units = ['''', ''%'', ''ms'', ''m'', ''s'']"

definition cpuRule :: Scaling_Rule where
  "cpuRule = \<lparr>sl_Name = ''busy'', sl_Trigger = ''all'',
     sl_Conditions = [\<lparr>cd_Metric = ''cpu'', cd_Operator = ''>'', cd_Value = Fin 70, cd_Unit = ''%'', cd_Raw = ''cpu > 70%''\<rparr>],
     sl_Action = ''scaleUp'', sl_Cooldown = 60\<rparr>"

definition cpuCall :: "time \<Rightarrow> EvalCall" where
  "cpuCall now = \<lparr>ec_now = now, ec_capsule = ''web'', ec_rules = [cpuRule], ec_metrics = [''cpu'' \<mapsto> Fin 90]\<rparr>"

section \<open>Conditions\<close>

lemma HasSuffix_one: "HasSuffix s [c] \<longleftrightarrow> s \<noteq> [] \<and> last s = c"
  by (cases s rule: rev_cases) (auto simp: HasSuffix_def)

lemma HasSuffix_two: "HasSuffix (s @ [x]) [c, d] \<longleftrightarrow> x = d \<and> s \<noteq> [] \<and> last s = c"
  by (cases s rule: rev_cases) (auto simp: HasSuffix_def)

lemma TrimSuffix_append: "TrimSuffix (s @ u) u = s"
  by (simp add: TrimSuffix_def HasSuffix_def)

lemma HasPrefix_word:
  assumes "list_all graphic p" and "HasPrefix (w @ CHR '' '' # t) p"
  shows "HasPrefix w p"
proof (cases "length p \<le> length w")
  case True
  then show ?thesis using assms(2) by (simp add: HasPrefix_def)
next
  case False
  then have "p ! length w = CHR '' ''"
    using assms(2) unfolding HasPrefix_def
    by (metis nth_append_length nth_take not_le)
  moreover have "graphic (p ! length w)" using assms(1) False by (simp add: list_all_length)
  ultimately show ?thesis by (simp add: graphic_def)
qed

lemma parseOperator_ok: "List.member operators p \<Longrightarrow> parseOperator p = Inr p"
  by (auto simp: operators_def parseOperator_def opGreaterThan_def opLessThan_def opEqual_def
      opGreaterEq_def opLessEq_def)

lemma parseValue_digits:
  assumes "ds \<noteq> []" "list_all isDigit ds" "int (digitsVal 0 ds) \<le> 2 ^ 53" "List.member units u"
  shows "parseValue (ds @ u) = Inr (Fin (of_nat (digitsVal 0 ds)), u)"
proof -
  obtain ds' d where ds: "ds = ds' @ [d]" "isDigit d" using assms(1, 2) by (cases ds rule: rev_cases) auto
  then have d: "d \<noteq> CHR ''%''" "d \<noteq> CHR ''s''" "d \<noteq> CHR ''m''" by (auto simp: isDigit_def)
  have suffix: "HasSuffix (ds @ [x]) [c, e] \<longleftrightarrow> x = e \<and> last ds = c"
    "HasSuffix (ds @ [x, y]) [c, e] \<longleftrightarrow> x = c \<and> y = e" for x y c e
    using HasSuffix_two [of ds x c e] HasSuffix_two [of "ds @ [x]" y c e] assms(1) by auto
  have plain: "\<not> HasSuffix ds ''ms''" using ds d HasSuffix_two [of ds' d] by simp
  have "find (HasSuffix (ds @ u)) [''%'', ''ms'', ''m'', ''s''] = (if u = '''' then None else Some u)"
    using assms(4) ds d suffix plain by (auto simp: units_def HasSuffix_one)
  then show ?thesis
    using ParseFloat_digits [OF assms(1-3)] by (auto simp: parseValue_def parseNumber_def TrimSuffix_append)
qed

lemma graphic_units: "List.member units u \<Longrightarrow> list_all graphic u"
  by (auto simp: units_def graphic_def)

lemma graphic_operators: "List.member operators p \<Longrightarrow> list_all graphic p \<and> p \<noteq> []"
  by (auto simp: operators_def graphic_def)

lemma list_all_digit_graphic: "list_all isDigit ds \<Longrightarrow> list_all graphic ds"
  by (auto simp: list_all_iff digit_graphic)

lemma tokenize_three:
  assumes "list_all graphic a" "list_all graphic b" "list_all graphic c" "a \<noteq> []" "b \<noteq> []" "c \<noteq> []"
  shows "tokenize (a @ '' '' @ b @ '' '' @ c) = [a, b, c]"
  using assms fieldsFrom_word [of c "[]" "[]"] by (simp add: tokenize_def Fields_def fields_simps)

lemma parse_written_condition:
  assumes "metric \<noteq> []" "list_all graphic metric" "\<not> HasPrefix metric ''schedule:''"
    and "List.member operators p" and "ds \<noteq> []" "list_all isDigit ds" "int (digitsVal 0 ds) \<le> 2 ^ 53" "List.member units u"
  defines "raw \<equiv> metric @ '' '' @ p @ '' '' @ ds @ u"
  shows "ParseCondition raw = Inr \<lparr>cd_Metric = metric, cd_Operator = p, cd_Value = Fin (of_nat (digitsVal 0 ds)), cd_Unit = u, cd_Raw = raw\<rparr>"
proof -
  have w: "list_all graphic (ds @ u)" using assms list_all_digit_graphic graphic_units by simp
  then have "graphic (last (ds @ u))" using assms(5) last_in_set [of "ds @ u"] by (auto simp: list_all_iff simp del: last_append)
  moreover have "graphic (hd raw)" using assms(1, 2) by (cases metric) (simp_all add: raw_def)
  moreover have "last raw = last (ds @ u)" using assms(5) by (simp add: raw_def)
  ultimately have trim: "TrimSpace raw = raw" by (intro TrimSpace_graphic) (simp_all add: raw_def)
  have "list_all graphic ''schedule:''" by (simp add: graphic_def)
  then have "\<not> HasPrefix raw ''schedule:''" using HasPrefix_word [of "''schedule:''" metric "p @ '' '' @ ds @ u"] assms(3)
    unfolding raw_def by auto
  moreover have "tokenize raw = [metric, p, ds @ u]"
    unfolding raw_def using assms(1, 2, 5) w graphic_operators [OF assms(4)] by (intro tokenize_three) simp_all
  ultimately show ?thesis
    using parseOperator_ok [OF assms(4)] parseValue_digits [OF assms(5-8)] by (simp add: ParseCondition_def trim)
qed

section \<open>Rules and cooldowns\<close>

lemma matchRule_Some:
  "matchRule now cid rules metrics e = Some rule \<Longrightarrow>
   rule \<in> set rules \<and> \<not> isInCooldown e (cooldownKey cid (sl_Name rule)) (sl_Cooldown rule) now \<and> Evaluator_evaluateRule rule metrics"
  by (induction rules) (auto split: if_splits)

lemma isInCooldown_after:
  "\<not> isInCooldown e key d now \<Longrightarrow> map_of (ev_cooldowns e) key = Some prev \<Longrightarrow> prev \<le> now \<Longrightarrow> prev + d \<le> now"
  by (auto simp: isInCooldown_def split: if_splits)

lemma firing_after_last:
  assumes "(k, d, t) \<in> set (runFirings calls e)" and "map_of (ev_cooldowns e) k = Some prev"
    and "sorted (map ec_now calls)" and "\<forall>c \<in> set calls. prev \<le> ec_now c"
  shows "prev + d \<le> t"
  using assms
proof (induction calls arbitrary: e prev)
  case (Cons c cs)
  show ?case
  proof (cases "matchRule (ec_now c) (ec_capsule c) (ec_rules c) (ec_metrics c) e")
    case None
    with Cons show ?thesis by (auto simp: Evaluate_def)
  next
    case (Some rule)
    let ?k = "cooldownKey (ec_capsule c) (sl_Name rule)"
    note m = matchRule_Some [OF Some]
    from Some Cons.prems(1) consider "(k, d, t) = (?k, sl_Cooldown rule, ec_now c)"
      | "(k, d, t) \<in> set (runFirings cs (recordCooldown ?k (ec_now c) e))"
      by (auto simp: Evaluate_def)
    then show ?thesis
    proof cases
      case 1
      then show ?thesis using m Cons.prems(2, 4) isInCooldown_after by auto
    next
      case 2
      show ?thesis
      proof (cases "k = ?k")
        case True
        have "ec_now c + d \<le> t"
          using Cons.IH [OF 2, of "ec_now c"] Cons.prems(3) True by (simp add: recordCooldown_def)
        then show ?thesis using Cons.prems(4) by simp
      next
        case False
        then show ?thesis using Cons.IH [OF 2, of prev] Cons.prems by (simp add: recordCooldown_def)
      qed
    qed
  qed
qed simp

section \<open>The registry and the monitor\<close>

interpretation metrics_registry: keyed_map InMemoryRegistry_Get InMemoryRegistry_Register InMemoryRegistry_Unregister "\<lambda>r. wf_map (rg_providers r)"
  by unfold_locales (auto simp: InMemoryRegistry_Get_def InMemoryRegistry_Register_def InMemoryRegistry_Unregister_def fun_eq_iff)

text \<open>A capsule without a registered provider and without one of its own is left out of a pass.\<close>

lemma evaluateCapsule_without_provider:
  assumes "mo_registry m = Some r" and "wf_map (rg_providers r)" and "cm_Metrics cm = None"
  shows "evaluateCapsule clock cm (m\<lparr>mo_registry := Some (InMemoryRegistry_Unregister (cm_CapsuleID cm) r)\<rparr>) =
    m\<lparr>mo_registry := Some (InMemoryRegistry_Unregister (cm_CapsuleID cm) r)\<rparr>"
  using assms metrics_registry.get_del_same [OF assms(2)] by (simp add: evaluateCapsule_def providerFor_def)

lemma evaluateCapsule_capsules: "mo_capsules (evaluateCapsule clock cm m) = mo_capsules m"
  by (simp add: evaluateCapsule_def Let_def split: option.split prod.split)

section \<open>Properties\<close>

text \<open>
  C14. A rule does not fire again before its cooldown has passed: in any sequence of evaluations at non-decreasing
  times, over any capsules, rules and metrics, two firings with the same capsule and rule name are at least the
  cooldown of the later firing apart.\<close>

theorem cooldown_respected:
  assumes "sorted (map ec_now calls)"
  shows "sorted_wrt (\<lambda>(k, d, t) (k', d', t'). k = k' \<longrightarrow> t + d' \<le> t') (runFirings calls e)"
  using assms
proof (induction calls arbitrary: e)
  case (Cons c cs)
  show ?case
  proof (cases "matchRule (ec_now c) (ec_capsule c) (ec_rules c) (ec_metrics c) e")
    case None
    with Cons show ?thesis by (simp add: Evaluate_def)
  next
    case (Some rule)
    have "ec_now c + d' \<le> t'"
      if "(cooldownKey (ec_capsule c) (sl_Name rule), d', t')
        \<in> set (runFirings cs (recordCooldown (cooldownKey (ec_capsule c) (sl_Name rule)) (ec_now c) e))" for d' t'
      using firing_after_last [OF that, of "ec_now c"] Cons.prems by (simp add: recordCooldown_def)
    with Some Cons show ?thesis by (auto simp: Evaluate_def)
  qed
qed simp

theorem cooldown_respected_witness:
  "sorted (map ec_now [cpuCall 0, cpuCall 30, cpuCall 60]) \<and>
   runFirings [cpuCall 0, cpuCall 30, cpuCall 60] NewEvaluator = [(''web:busy'', 60, 0), (''web:busy'', 60, 60)] \<and>
   sorted_wrt (\<lambda>(k, d, t) (k', d', t'). k = k' \<longrightarrow> t + d' \<le> t') (runFirings [cpuCall 0, cpuCall 30, cpuCall 60] NewEvaluator)"
proof -
  have s: "sorted (map ec_now [cpuCall 0, cpuCall 30, cpuCall 60])" by (simp add: cpuCall_def)
  have "runFirings [cpuCall 0, cpuCall 30, cpuCall 60] NewEvaluator = [(''web:busy'', 60, 0), (''web:busy'', 60, 60)]"
    by (simp add: cpuCall_def cpuRule_def NewEvaluator_def Evaluate_def recordCooldown_def isInCooldown_def cooldownKey_def
        Evaluator_evaluateRule_def triggerModeAll_def Condition_Evaluate_def opGreaterThan_def)
  then show ?thesis using s cooldown_respected [OF s] by blast
qed

text \<open>
  C32. The condition parser reads back every condition written as metric, operator and decimal value with an optional
  unit: the metric, the operator, the exact value and the unit are those written. The unit is not applied to the value.\<close>

theorem ParseCondition_roundtrip:
  assumes "metric \<noteq> []" "list_all graphic metric" "\<not> HasPrefix metric ''schedule:''"
    and "List.member operators p" and "ds \<noteq> []" "list_all isDigit ds" "int (digitsVal 0 ds) \<le> 2 ^ 53" "List.member units u"
  shows "ParseCondition (metric @ '' '' @ p @ '' '' @ ds @ u) =
    Inr \<lparr>cd_Metric = metric, cd_Operator = p, cd_Value = Fin (of_nat (digitsVal 0 ds)), cd_Unit = u,
      cd_Raw = metric @ '' '' @ p @ '' '' @ ds @ u\<rparr>"
  using parse_written_condition [OF assms] .

theorem ParseCondition_roundtrip_witness:
  "ParseCondition ''latency.p95 >= 200ms'' =
    Inr \<lparr>cd_Metric = ''latency.p95'', cd_Operator = ''>='', cd_Value = Fin 200, cd_Unit = ''ms'', cd_Raw = ''latency.p95 >= 200ms''\<rparr>"
  using ParseCondition_roundtrip [of "''latency.p95''" "''>=''" "''200''" "''ms''"]
  by (simp add: graphic_def HasPrefix_def operators_def isDigit_def digitVal_def units_def)

text \<open>
  Minutes are compared as seconds: the condition of the documentation, idle for more than five minutes, holds
  for a capsule that has been idle for six seconds, because the idle metric is in seconds and the unit is dropped.\<close>

theorem idle_minutes_compared_as_seconds:
  "\<exists>c. ParseCondition ''idle > 5m'' = Inr c \<and> cd_Unit c = ''m'' \<and> Condition_Evaluate c (Fin 6)"
  using parse_written_condition [of "''idle''" "''>''" "''5''" "''m''"]
  by (simp add: graphic_def HasPrefix_def operators_def isDigit_def digitVal_def units_def Condition_Evaluate_def opGreaterThan_def)

text \<open>
  A rule whose conditions are all schedules fires whenever it is not cooling down, at any time and whatever the
  schedules say, if its trigger mode is all.\<close>

theorem schedule_rule_always_fires:
  assumes "sl_Trigger rule = triggerModeAll" and "list_all (\<lambda>c. cd_Metric c = ''schedule'') (sl_Conditions rule)"
    and "\<not> isInCooldown e (cooldownKey cid (sl_Name rule)) (sl_Cooldown rule) now"
  shows "fst (Evaluate now cid (rule # rules) metrics e) =
    Some \<lparr>er_RuleName = sl_Name rule, er_Action = sl_Action rule, er_Matched = True\<rparr>"
proof -
  have "list_all (\<lambda>c. cd_Metric c = ''schedule'') cs \<Longrightarrow> evaluateAll cs metrics" for cs
    by (induction cs) auto
  then show ?thesis using assms by (simp add: Evaluate_def Evaluator_evaluateRule_def)
qed

theorem schedule_rule_always_fires_witness:
  "fst (Evaluate 7 ''web'' [\<lparr>sl_Name = ''night'', sl_Trigger = ''all'',
      sl_Conditions = [\<lparr>cd_Metric = ''schedule'', cd_Operator = '''', cd_Value = Fin 0, cd_Unit = '''', cd_Raw = ''schedule: weekdays 8-18''\<rparr>],
      sl_Action = ''scaleToZero'', sl_Cooldown = 60\<rparr>] (\<lambda>_. None) NewEvaluator) =
    Some \<lparr>er_RuleName = ''night'', er_Action = ''scaleToZero'', er_Matched = True\<rparr>"
  using schedule_rule_always_fires [of "\<lparr>sl_Name = ''night'', sl_Trigger = ''all'',
      sl_Conditions = [\<lparr>cd_Metric = ''schedule'', cd_Operator = '''', cd_Value = Fin 0, cd_Unit = '''', cd_Raw = ''schedule: weekdays 8-18''\<rparr>],
      sl_Action = ''scaleToZero'', sl_Cooldown = 60\<rparr>" NewEvaluator "''web''" 7 "[]" "\<lambda>_. None"]
  by (simp add: triggerModeAll_def isInCooldown_def NewEvaluator_def)

end
