(* ===== verification/Shared.thy ===== *)
theory Shared
  imports Signing
begin

text \<open>
  \<^verbatim>\<open>src/shared\<close>: cluster paths and topic names, the retry loops, and the length-prefixed framing of protobuf
  messages on a stream. Protobuf is a parameter: \<open>marshal\<close> and \<open>unmarshal\<close>, with \<open>None\<close> for an error. A stream that
  is read is the list of its remaining bytes; a write to a stream may fail.
\<close>

section \<open>Definitions\<close>

subsection \<open>Cluster paths\<close>

text \<open>\<^verbatim>\<open>strings.Split\<close> at a separator of one byte.\<close>

fun splitAt :: "char \<Rightarrow> string \<Rightarrow> string list" where
  "splitAt sep [] = [[]]"
| "splitAt sep (c # cs) = (if c = sep then [] # splitAt sep cs
     else (case splitAt sep cs of p # ps \<Rightarrow> (c # p) # ps | [] \<Rightarrow> [[c]]))"

definition DefaultRegion :: string where "DefaultRegion = ''default''"
definition DefaultDatacenter :: string where "DefaultDatacenter = ''default''"

record ClusterPath =
  cp_Region :: string
  cp_Datacenter :: string
  cp_Cluster :: string

datatype pathError = BadFormat string | EmptyComponent string

definition ClusterPath_String :: "ClusterPath \<Rightarrow> string" where
  "ClusterPath_String cp = cp_Region cp @ ''/'' @ cp_Datacenter cp @ ''/'' @ cp_Cluster cp"

definition ParseClusterPath :: "string \<Rightarrow> pathError + ClusterPath" where
  "ParseClusterPath path = (case splitAt CHR ''/'' path of
     [p0, p1, p2] \<Rightarrow> if p0 = '''' \<or> p1 = '''' \<or> p2 = '''' then Inl (EmptyComponent path)
       else Inr \<lparr>cp_Region = p0, cp_Datacenter = p1, cp_Cluster = p2\<rparr>
   | _ \<Rightarrow> Inl (BadFormat path))"

definition ExtractRegion :: "string \<Rightarrow> string" where
  "ExtractRegion clusterPath = (case ParseClusterPath clusterPath of Inl _ \<Rightarrow> '''' | Inr cp \<Rightarrow> cp_Region cp)"

definition ExtractDatacenter :: "string \<Rightarrow> string" where
  "ExtractDatacenter clusterPath = (case ParseClusterPath clusterPath of Inl _ \<Rightarrow> '''' | Inr cp \<Rightarrow> cp_Datacenter cp)"

definition ExtractCluster :: "string \<Rightarrow> string" where
  "ExtractCluster clusterPath = (case ParseClusterPath clusterPath of Inl _ \<Rightarrow> '''' | Inr cp \<Rightarrow> cp_Cluster cp)"

definition BuildClusterPath :: "string \<Rightarrow> string \<Rightarrow> string \<Rightarrow> string" where
  "BuildClusterPath region datacenter cluster = (let
     region = (if region = '''' then DefaultRegion else region);
     datacenter = (if datacenter = '''' then DefaultDatacenter else datacenter)
     in region @ ''/'' @ datacenter @ ''/'' @ cluster)"

definition BuildHealthTopic :: "string \<Rightarrow> string" where
  "BuildHealthTopic clusterPath = ''falak/'' @ clusterPath @ ''/health''"

definition BuildAuthTopic :: "string \<Rightarrow> string" where
  "BuildAuthTopic clusterPath = ''falak/'' @ clusterPath @ ''/auth''"

definition BuildMetricsTopic :: "string \<Rightarrow> string" where
  "BuildMetricsTopic clusterPath = ''falak/'' @ clusterPath @ ''/metrics''"

subsection \<open>Retries\<close>

text \<open>The function that is retried works on a state \<open>'s\<close>. \<open>ctxErr attempt\<close> is the error of the context if it is
  done during the wait after that attempt. \<open>remaining\<close> is the number of attempts left.\<close>

record RetryConfig =
  rt_MaxRetries :: int
  rt_Delay :: duration

definition DefaultRetryConfig :: RetryConfig where
  "DefaultRetryConfig = \<lparr>rt_MaxRetries = 3, rt_Delay = 100 * 1000000\<rparr>"

fun retryFrom :: "nat \<Rightarrow> (nat \<Rightarrow> 'e option) \<Rightarrow> ('s \<Rightarrow> ('e + 'a) \<times> 's) \<Rightarrow> nat \<Rightarrow> 'e option \<Rightarrow> 's \<Rightarrow> ('e option + 'a) \<times> 's" where
  "retryFrom 0 ctxErr fn attempt lastErr s = (Inl lastErr, s)"
| "retryFrom (Suc remaining) ctxErr fn attempt lastErr s = (case fn s of
     (Inr result, s) \<Rightarrow> (Inr result, s)
   | (Inl err, s) \<Rightarrow> (if 0 < remaining \<and> ctxErr attempt \<noteq> None then (Inl (ctxErr attempt), s)
       else retryFrom remaining ctxErr fn (Suc attempt) (Some err) s))"

text \<open>\<^verbatim>\<open>RetryWithResult\<close> returns a result and an error; \<open>None\<close> as the error is \<^verbatim>\<open>nil\<close>.\<close>

definition RetryWithResult :: "RetryConfig \<Rightarrow> (nat \<Rightarrow> 'e option) \<Rightarrow> 'a \<Rightarrow> ('s \<Rightarrow> ('e + 'a) \<times> 's) \<Rightarrow> 's \<Rightarrow> ('a \<times> 'e option) \<times> 's" where
  "RetryWithResult cfg ctxErr zero fn s = (case retryFrom (nat (rt_MaxRetries cfg)) ctxErr fn 0 None s of
     (Inr result, s) \<Rightarrow> ((result, None), s)
   | (Inl err, s) \<Rightarrow> ((zero, err), s))"

definition Retry :: "RetryConfig \<Rightarrow> (nat \<Rightarrow> 'e option) \<Rightarrow> ('s \<Rightarrow> 'e option \<times> 's) \<Rightarrow> 's \<Rightarrow> 'e option \<times> 's" where
  "Retry cfg ctxErr fn s = (case retryFrom (nat (rt_MaxRetries cfg)) ctxErr
       (\<lambda>s. case fn s of (None, s) \<Rightarrow> (Inr (), s) | (Some e, s) \<Rightarrow> (Inl e, s)) 0 None s of
     (Inr _, s) \<Rightarrow> (None, s)
   | (Inl err, s) \<Rightarrow> (err, s))"

subsection \<open>Framing\<close>

definition MaxMessageSize :: nat where "MaxMessageSize = 10 * 1024 * 1024"

datatype frameError =
    MarshalFailed
  | WriteLengthFailed
  | WriteDataFailed
  | ReadLengthFailed
  | TooLarge nat
  | ReadDataFailed
  | UnmarshalFailed
  | DeadlineFailed

definition WriteProto :: "('m \<Rightarrow> string option) \<Rightarrow> (string \<Rightarrow> 'w \<Rightarrow> bool \<times> 'w) \<Rightarrow> 'm \<Rightarrow> 'w \<Rightarrow> frameError option \<times> 'w" where
  "WriteProto marshal put msg w = (case marshal msg of
     None \<Rightarrow> (Some MarshalFailed, w)
   | Some data \<Rightarrow> (case put (PutUint32 (length data)) w of
       (False, w) \<Rightarrow> (Some WriteLengthFailed, w)
     | (True, w) \<Rightarrow> (case put data w of
         (False, w) \<Rightarrow> (Some WriteDataFailed, w)
       | (True, w) \<Rightarrow> (None, w))))"

definition Uint32 :: "string \<Rightarrow> nat" where
  "Uint32 bs = foldl (\<lambda>n c. 256 * n + of_char c) 0 bs"

definition ReadFull :: "nat \<Rightarrow> string \<Rightarrow> (string \<times> string) option" where
  "ReadFull n r = (if length r < n then None else Some (take n r, drop n r))"

definition ReadProto :: "(string \<Rightarrow> 'm option) \<Rightarrow> string \<Rightarrow> frameError + ('m \<times> string)" where
  "ReadProto unmarshal r = (case ReadFull 4 r of
     None \<Rightarrow> Inl ReadLengthFailed
   | Some (lenBuf, r) \<Rightarrow> (let n = Uint32 lenBuf in
       if n > MaxMessageSize then Inl (TooLarge n)
       else (case ReadFull n r of
         None \<Rightarrow> Inl ReadDataFailed
       | Some (data, r) \<Rightarrow> (case unmarshal data of
           None \<Rightarrow> Inl UnmarshalFailed
         | Some msg \<Rightarrow> Inr (msg, r)))))"

definition ReadProtoWithDeadline :: "(string \<Rightarrow> 'm option) \<Rightarrow> bool \<Rightarrow> string \<Rightarrow> frameError + ('m \<times> string)" where
  "ReadProtoWithDeadline unmarshal deadlineSet r =
     (if \<not> deadlineSet then Inl DeadlineFailed else ReadProto unmarshal r)"

subsection \<open>Specification\<close>

text \<open>A stream that accepts every write.\<close>

definition append_stream :: "string \<Rightarrow> string \<Rightarrow> bool \<times> string" where
  "append_stream data w = (True, w @ data)"

text \<open>The bytes of a sequence of messages, and reading as many messages back.\<close>

definition frames :: "('m \<Rightarrow> string option) \<Rightarrow> 'm list \<Rightarrow> string" where
  "frames marshal msgs = fold (\<lambda>msg w. snd (WriteProto marshal append_stream msg w)) msgs []"

fun read_all :: "(string \<Rightarrow> 'm option) \<Rightarrow> nat \<Rightarrow> string \<Rightarrow> frameError + ('m list \<times> string)" where
  "read_all unmarshal 0 r = Inr ([], r)"
| "read_all unmarshal (Suc n) r = (case ReadProto unmarshal r of
     Inl e \<Rightarrow> Inl e
   | Inr (msg, r) \<Rightarrow> (case read_all unmarshal n r of Inl e \<Rightarrow> Inl e | Inr (msgs, r) \<Rightarrow> Inr (msg # msgs, r)))"

definition sendable :: "('m \<Rightarrow> string option) \<Rightarrow> (string \<Rightarrow> 'm option) \<Rightarrow> 'm \<Rightarrow> bool" where
  "sendable marshal unmarshal msg \<longleftrightarrow> (case marshal msg of None \<Rightarrow> False
     | Some data \<Rightarrow> length data \<le> MaxMessageSize \<and> unmarshal data = Some msg)"

text \<open>A function whose call number \<open>i\<close> has the outcome \<open>outcomes i\<close>; its state counts the calls.\<close>

definition scripted :: "(nat \<Rightarrow> 'e option) \<Rightarrow> nat \<Rightarrow> 'e option \<times> nat" where
  "scripted outcomes i = (outcomes i, Suc i)"

definition path_part :: "string \<Rightarrow> bool" where
  "path_part p \<longleftrightarrow> p \<noteq> '''' \<and> list_all (\<lambda>c. c \<noteq> CHR ''/'') p"

section \<open>Lemmas\<close>

lemma splitAt_Nil [simp]: "splitAt sep s \<noteq> []"
  by (induction s) (auto split: list.split)

lemma splitAt_plain: "list_all (\<lambda>c. c \<noteq> sep) p \<Longrightarrow> splitAt sep p = [p]"
  by (induction p) auto

lemma splitAt_append:
  "list_all (\<lambda>c. c \<noteq> sep) p \<Longrightarrow> splitAt sep (p @ sep # s) = p # splitAt sep s"
  by (induction p) auto

lemma splitAt_parts: "p \<in> set (splitAt sep s) \<Longrightarrow> list_all (\<lambda>c. c \<noteq> sep) p"
  by (induction s arbitrary: p) (auto split: list.splits if_splits)

fun joinWith :: "char \<Rightarrow> string list \<Rightarrow> string" where
  "joinWith sep [] = []"
| "joinWith sep [p] = p"
| "joinWith sep (p # ps) = p @ sep # joinWith sep ps"

lemma joinWith_splitAt: "joinWith sep (splitAt sep s) = s"
proof (induction s)
  case (Cons c s)
  obtain p ps where s: "splitAt sep s = p # ps" using splitAt_Nil [of sep s] by (cases "splitAt sep s") auto
  with Cons.IH show ?case by (cases ps) auto
qed simp

lemma Uint32_bigEndian: "foldl (\<lambda>n c. 256 * n + of_char c) 0 (bigEndian k n) = n mod 256 ^ k"
proof (induction k arbitrary: n)
  case (Suc k)
  then show ?case by (simp add: mod_mult2_eq)
qed simp

lemma Uint32_PutUint32: "n < 4294967296 \<Longrightarrow> Uint32 (PutUint32 n) = n"
  by (simp add: Uint32_def PutUint32_def Uint32_bigEndian)

lemma length_PutUint32 [simp]: "length (PutUint32 n) = 4"
  by (simp add: PutUint32_def)

lemma WriteProto_append:
  "marshal msg = Some data \<Longrightarrow> WriteProto marshal append_stream msg w = (None, w @ PutUint32 (length data) @ data)"
  by (simp add: WriteProto_def append_stream_def)

lemma ReadProto_frame:
  assumes "length data \<le> MaxMessageSize" and "unmarshal data = Some msg"
  shows "ReadProto unmarshal (PutUint32 (length data) @ data @ rest) = Inr (msg, rest)"
  using assms by (simp add: ReadProto_def ReadFull_def Uint32_PutUint32 MaxMessageSize_def)

lemma frames_acc:
  assumes "list_all (sendable marshal unmarshal) msgs"
  shows "fold (\<lambda>msg w. snd (WriteProto marshal append_stream msg w)) msgs w = w @ frames marshal msgs"
  using assms unfolding frames_def
proof (induction msgs arbitrary: w)
  case (Cons m ms)
  then obtain data where "marshal m = Some data" by (auto simp: sendable_def split: option.splits)
  with Cons.IH [of "w @ _"] Cons.IH [of "PutUint32 (length data) @ data"] Cons.prems show ?case
    by (simp add: WriteProto_append)
qed simp

lemma retryFrom_scripted:
  "retryFrom n (\<lambda>_. None) (\<lambda>s. case scripted outcomes s of (None, s) \<Rightarrow> (Inr (), s) | (Some e, s) \<Rightarrow> (Inl e, s)) attempt lastErr i =
     (case find (\<lambda>j. outcomes j = None) [i..<i + n] of
        Some j \<Rightarrow> (Inr (), Suc j)
      | None \<Rightarrow> (Inl (if n = 0 then lastErr else outcomes (i + n - 1)), i + n))"
proof (induction n arbitrary: attempt lastErr i)
  case (Suc n)
  have "[i..<i + Suc n] = i # [Suc i..<Suc i + n]" by (simp add: upt_conv_Cons)
  then show ?case
    using Suc.IH [of "Suc attempt" "outcomes i" "Suc i"]
    by (cases "outcomes i") (simp_all add: scripted_def split: option.split)
qed simp

section \<open>Properties\<close>

text \<open>
  C33. Framing round trip: a sequence of messages, each at most 10 MB long and decoded from its own bytes, written one
  after the other to a stream is read back in order, and the bytes behind the last message are left unread.
\<close>

theorem frames_roundtrip:
  assumes "list_all (sendable marshal unmarshal) msgs"
  shows "read_all unmarshal (length msgs) (frames marshal msgs @ rest) = Inr (msgs, rest)"
  using assms
proof (induction msgs)
  case (Cons m ms)
  then obtain data where d: "marshal m = Some data" "length data \<le> MaxMessageSize" "unmarshal data = Some m"
    by (auto simp: sendable_def split: option.splits)
  have ok: "list_all (sendable marshal unmarshal) ms" using Cons.prems by simp
  have "frames marshal (m # ms) = PutUint32 (length data) @ data @ frames marshal ms"
    unfolding frames_def [of marshal "m # ms"] by (simp add: WriteProto_append [of marshal m data, OF d(1)] frames_acc [OF ok])
  then show ?case using Cons.IH [OF ok] by (simp add: ReadProto_frame [of data unmarshal m, OF d(2, 3)])
qed (simp add: frames_def)

theorem frames_roundtrip_witness:
  "list_all (sendable Some Some) [''ping'', '''', ''ack''] \<and>
   read_all Some 3 (frames Some [''ping'', '''', ''ack''] @ ''more'') = Inr ([''ping'', '''', ''ack''], ''more'')"
  using frames_roundtrip [of Some Some "[''ping'', '''', ''ack'']" "''more''"]
  by (simp add: sendable_def MaxMessageSize_def numeral_3_eq_3)

text \<open>
  Cluster paths: the parser accepts exactly the strings made of three non-empty components without a slash, and
  printing the result gives the string back.
\<close>

theorem ParseClusterPath_iff:
  "ParseClusterPath path = Inr cp \<longleftrightarrow>
   path_part (cp_Region cp) \<and> path_part (cp_Datacenter cp) \<and> path_part (cp_Cluster cp) \<and> path = ClusterPath_String cp"
proof
  assume "ParseClusterPath path = Inr cp"
  then obtain a b c where s: "splitAt CHR ''/'' path = [a, b, c]" "a \<noteq> ''''" "b \<noteq> ''''" "c \<noteq> ''''"
    and cp: "cp = \<lparr>cp_Region = a, cp_Datacenter = b, cp_Cluster = c\<rparr>"
    by (auto simp: ParseClusterPath_def split: list.splits if_splits)
  have "list_all (\<lambda>c. c \<noteq> CHR ''/'') p" if "p \<in> set [a, b, c]" for p
    using splitAt_parts [of p "CHR ''/''" path] that s(1) by simp
  then show "path_part (cp_Region cp) \<and> path_part (cp_Datacenter cp) \<and> path_part (cp_Cluster cp) \<and> path = ClusterPath_String cp"
    using s cp joinWith_splitAt [of "CHR ''/''" path] by (simp add: path_part_def ClusterPath_String_def)
next
  assume "path_part (cp_Region cp) \<and> path_part (cp_Datacenter cp) \<and> path_part (cp_Cluster cp) \<and> path = ClusterPath_String cp"
  then show "ParseClusterPath path = Inr cp"
    by (simp add: ParseClusterPath_def path_part_def ClusterPath_String_def splitAt_append splitAt_plain)
qed

text \<open>
  The retry loop is first-success: with a context that is not cancelled, the function is called until its first
  success or until the attempts are used up, whichever is earlier; the result is success in the first case and the
  error of the last call in the second. A limit of zero or less means no call and success.
\<close>

theorem Retry_first_success:
  "Retry cfg (\<lambda>_. None) (scripted outcomes) 0 =
     (case find (\<lambda>i. outcomes i = None) [0..<nat (rt_MaxRetries cfg)] of
        Some i \<Rightarrow> (None, Suc i)
      | None \<Rightarrow> (if rt_MaxRetries cfg \<le> 0 then None else outcomes (nat (rt_MaxRetries cfg) - 1), nat (rt_MaxRetries cfg)))"
  using retryFrom_scripted [of "nat (rt_MaxRetries cfg)" outcomes 0 None 0]
  by (auto simp: Retry_def split: option.split)

end
