(* ===== verification/Phonebook.thy ===== *)
theory Phonebook
  imports Capsule_Store Go_Float Shared
begin

text \<open>
  \<^verbatim>\<open>src/node/phonebook\<close>: the peers a node knows, one row per node and cluster in an SQLite table, and the event
  subscriber that fills it. The database is third-party code: the parameter \<open>D\<close> executes the statements and queries of
  the source, \<open>None\<close> for an error; a failed statement changes nothing. The locale \<open>phonebook_db\<close> says what the code
  relies on: the statements act on the rows that their condition selects, the primary key is unique, a query returns
  each selected row once. A statement carries its condition and its assignments as functions on rows. The clock is an
  argument. The integer columns are unbounded.
\<close>

section \<open>Definitions\<close>

subsection \<open>Entries\<close>

definition pbStatusActive :: string where "pbStatusActive = ''active''"
definition pbStatusSuspected :: string where "pbStatusSuspected = ''suspected''"
definition pbStatusQuarantined :: string where "pbStatusQuarantined = ''quarantined''"
definition pbStatusFailed :: string where "pbStatusFailed = ''failed''"

record Capabilities =
  caps_CPUCores :: int
  caps_MemoryMB :: int
  caps_DiskGB :: int
  caps_Datacenter :: string
  caps_Tags :: "string list"
  caps_Metadata :: labels

record Entry =
  pe_NodeID :: string
  pe_ClusterPath :: string
  pe_PublicKey :: string
  pe_Addresses :: "string list"
  pe_Region :: string
  pe_Datacenter :: string
  pe_Capabilities :: "Capabilities option"
  pe_FirstSeen :: time
  pe_LastSeen :: time
  pe_LastConnected :: time
  pe_UpdatedAt :: time
  pe_ConnectionAttempts :: int
  pe_ConnectionSuccess :: int
  pe_SuccessRate :: f64
  pe_ConsecutiveFails :: int
  pe_ReliabilityScore :: f64
  pe_LastProbeTime :: time
  pe_LastProbeSuccess :: bool
  pe_Status :: string
  pe_IsConnected :: bool

subsection \<open>The table\<close>

record pbrow =
  pw_node_id :: string
  pw_cluster_path :: string
  pw_public_key :: string
  pw_addresses :: "string list json_text option"
  pw_region :: string
  pw_datacenter :: string
  pw_capabilities :: "Capabilities json_text option"
  pw_first_seen :: int
  pw_last_seen :: int
  pw_last_connected :: int
  pw_updated_at :: int
  pw_conn_attempts :: int
  pw_conn_success :: int
  pw_success_rate :: f64
  pw_consec_fails :: int
  pw_reliability_score :: f64
  pw_last_probe_time :: int
  pw_last_probe_success :: int
  pw_status :: string
  pw_is_connected :: int

datatype pb_stmt =
    PbMigrate
  | PbInsert pbrow
  | PbUpdate "pbrow \<Rightarrow> pbrow" "pbrow \<Rightarrow> bool"
  | PbDelete "pbrow \<Rightarrow> bool"

text \<open>\<open>pb_Exec\<close> also returns the number of affected rows; \<open>pb_SelectBest\<close> is the query with an order and a limit.\<close>

record 'db pbsql =
  pb_Exec :: "pb_stmt \<Rightarrow> 'db \<Rightarrow> ('db \<times> int) option"
  pb_Select :: "(pbrow \<Rightarrow> bool) \<Rightarrow> 'db \<Rightarrow> pbrow list option"
  pb_SelectBest :: "(pbrow \<Rightarrow> bool) \<Rightarrow> int \<Rightarrow> 'db \<Rightarrow> pbrow list option"
  pb_SelectCount :: "(pbrow \<Rightarrow> bool) \<Rightarrow> 'db \<Rightarrow> int option"

definition atKey :: "string \<Rightarrow> string \<Rightarrow> pbrow \<Rightarrow> bool" where
  "atKey nodeID clusterPath r \<longleftrightarrow> pw_node_id r = nodeID \<and> pw_cluster_path r = clusterPath"

definition exec :: "'db pbsql \<Rightarrow> pb_stmt \<Rightarrow> 'db \<Rightarrow> 'db option" where
  "exec D st db = map_option fst (pb_Exec D st db)"

definition boolToInt :: "bool \<Rightarrow> int" where
  "boolToInt b = (if b then 1 else 0)"

definition Phonebook_Open :: "'db pbsql \<Rightarrow> 'db \<Rightarrow> 'db option" where
  "Phonebook_Open D db = exec D PbMigrate db"

text \<open>Reading a JSON column ignores its errors: the destination keeps its zero value.\<close>

definition scanAddrs :: "string list json_text option \<Rightarrow> string list" where
  "scanAddrs col = (case col of Some (JsonOf v) \<Rightarrow> v | _ \<Rightarrow> [])"

definition zeroCapabilities :: Capabilities where
  "zeroCapabilities = \<lparr>caps_CPUCores = 0, caps_MemoryMB = 0, caps_DiskGB = 0, caps_Datacenter = '''', caps_Tags = [],
     caps_Metadata = None\<rparr>"

definition scanCaps :: "Capabilities json_text option \<Rightarrow> Capabilities option" where
  "scanCaps col = (case col of None \<Rightarrow> None
     | Some EmptyText \<Rightarrow> None
     | Some (JsonOf v) \<Rightarrow> Some v
     | Some Malformed \<Rightarrow> Some zeroCapabilities)"

definition scanEntry :: "pbrow \<Rightarrow> Entry" where
  "scanEntry r = \<lparr>pe_NodeID = pw_node_id r, pe_ClusterPath = pw_cluster_path r, pe_PublicKey = pw_public_key r,
     pe_Addresses = scanAddrs (pw_addresses r), pe_Region = pw_region r, pe_Datacenter = pw_datacenter r,
     pe_Capabilities = scanCaps (pw_capabilities r), pe_FirstSeen = time_UnixMilli (pw_first_seen r),
     pe_LastSeen = time_UnixMilli (pw_last_seen r), pe_LastConnected = time_UnixMilli (pw_last_connected r),
     pe_UpdatedAt = time_UnixMilli (pw_updated_at r), pe_ConnectionAttempts = pw_conn_attempts r,
     pe_ConnectionSuccess = pw_conn_success r, pe_SuccessRate = pw_success_rate r, pe_ConsecutiveFails = pw_consec_fails r,
     pe_ReliabilityScore = pw_reliability_score r, pe_LastProbeTime = time_UnixMilli (pw_last_probe_time r),
     pe_LastProbeSuccess = (pw_last_probe_success r = 1), pe_Status = pw_status r, pe_IsConnected = (pw_is_connected r = 1)\<rparr>"

definition scanEntries :: "pbrow list \<Rightarrow> Entry list" where
  "scanEntries rows = map scanEntry rows"

subsection \<open>Lookups\<close>

text \<open>The result of a lookup is \<open>None\<close> for an error.\<close>

definition Phonebook_Get :: "'db pbsql \<Rightarrow> 'db \<Rightarrow> string \<Rightarrow> string \<Rightarrow> Entry option option" where
  "Phonebook_Get D db nodeID clusterPath = (case pb_Select D (atKey nodeID clusterPath) db of
     None \<Rightarrow> None
   | Some [] \<Rightarrow> Some None
   | Some (r # _) \<Rightarrow> Some (Some (scanEntry r)))"

definition Phonebook_Exists :: "'db pbsql \<Rightarrow> 'db \<Rightarrow> string \<Rightarrow> string \<Rightarrow> bool option" where
  "Phonebook_Exists D db nodeID clusterPath = map_option (\<lambda>n. n > 0) (pb_SelectCount D (atKey nodeID clusterPath) db)"

definition GetByCluster :: "'db pbsql \<Rightarrow> 'db \<Rightarrow> string \<Rightarrow> Entry list option" where
  "GetByCluster D db clusterPath = map_option scanEntries (pb_Select D (\<lambda>r. pw_cluster_path r = clusterPath) db)"

definition GetByNode :: "'db pbsql \<Rightarrow> 'db \<Rightarrow> string \<Rightarrow> Entry list option" where
  "GetByNode D db nodeID = map_option scanEntries (pb_Select D (\<lambda>r. pw_node_id r = nodeID) db)"

definition GetBestPeers :: "'db pbsql \<Rightarrow> 'db \<Rightarrow> string \<Rightarrow> int \<Rightarrow> Entry list option" where
  "GetBestPeers D db clusterPath limit =
     map_option scanEntries (pb_SelectBest D (\<lambda>r. pw_cluster_path r = clusterPath \<and> pw_status r = ''active'') limit db)"

definition GetByStatus :: "'db pbsql \<Rightarrow> 'db \<Rightarrow> string \<Rightarrow> string \<Rightarrow> Entry list option" where
  "GetByStatus D db clusterPath status =
     map_option scanEntries (pb_Select D (\<lambda>r. pw_cluster_path r = clusterPath \<and> pw_status r = status) db)"

definition Phonebook_Count :: "'db pbsql \<Rightarrow> 'db \<Rightarrow> int option" where
  "Phonebook_Count D db = pb_SelectCount D (\<lambda>_. True) db"

definition CountByCluster :: "'db pbsql \<Rightarrow> 'db \<Rightarrow> string \<Rightarrow> int option" where
  "CountByCluster D db clusterPath = pb_SelectCount D (\<lambda>r. pw_cluster_path r = clusterPath) db"

subsection \<open>Mutations\<close>

definition capsColumn :: "Capabilities option \<Rightarrow> Capabilities json_text option" where
  "capsColumn c = Some (case c of None \<Rightarrow> EmptyText | Some v \<Rightarrow> JsonOf v)"

definition Phonebook_Add :: "'db pbsql \<Rightarrow> time \<Rightarrow> Entry \<Rightarrow> 'db \<Rightarrow> 'db option" where
  "Phonebook_Add D t e db = (let
     now = UnixMilli t;
     firstSeen = UnixMilli (pe_FirstSeen e);
     firstSeen = (if firstSeen = 0 then now else firstSeen);
     lastSeen = UnixMilli (pe_LastSeen e);
     lastSeen = (if lastSeen = 0 then now else lastSeen);
     status = (if pe_Status e = '''' then pbStatusActive else pe_Status e)
     in exec D (PbInsert \<lparr>pw_node_id = pe_NodeID e, pw_cluster_path = pe_ClusterPath e, pw_public_key = pe_PublicKey e,
       pw_addresses = Some (JsonOf (pe_Addresses e)), pw_region = pe_Region e, pw_datacenter = pe_Datacenter e,
       pw_capabilities = capsColumn (pe_Capabilities e), pw_first_seen = firstSeen, pw_last_seen = lastSeen,
       pw_last_connected = UnixMilli (pe_LastConnected e), pw_updated_at = now,
       pw_conn_attempts = pe_ConnectionAttempts e, pw_conn_success = pe_ConnectionSuccess e,
       pw_success_rate = pe_SuccessRate e, pw_consec_fails = pe_ConsecutiveFails e,
       pw_reliability_score = pe_ReliabilityScore e, pw_last_probe_time = UnixMilli (pe_LastProbeTime e),
       pw_last_probe_success = boolToInt (pe_LastProbeSuccess e), pw_status = status,
       pw_is_connected = boolToInt (pe_IsConnected e)\<rparr>) db)"

definition Phonebook_Update :: "'db pbsql \<Rightarrow> time \<Rightarrow> Entry \<Rightarrow> 'db \<Rightarrow> 'db option" where
  "Phonebook_Update D t e db = exec D (PbUpdate (\<lambda>r. r\<lparr>pw_public_key := pe_PublicKey e,
       pw_addresses := Some (JsonOf (pe_Addresses e)), pw_region := pe_Region e, pw_datacenter := pe_Datacenter e,
       pw_capabilities := capsColumn (pe_Capabilities e), pw_last_seen := UnixMilli (pe_LastSeen e),
       pw_last_connected := UnixMilli (pe_LastConnected e), pw_updated_at := UnixMilli t,
       pw_conn_attempts := pe_ConnectionAttempts e, pw_conn_success := pe_ConnectionSuccess e,
       pw_success_rate := pe_SuccessRate e, pw_consec_fails := pe_ConsecutiveFails e,
       pw_reliability_score := pe_ReliabilityScore e, pw_last_probe_time := UnixMilli (pe_LastProbeTime e),
       pw_last_probe_success := boolToInt (pe_LastProbeSuccess e), pw_status := pe_Status e,
       pw_is_connected := boolToInt (pe_IsConnected e)\<rparr>) (atKey (pe_NodeID e) (pe_ClusterPath e))) db"

definition Phonebook_Remove :: "'db pbsql \<Rightarrow> string \<Rightarrow> string \<Rightarrow> 'db \<Rightarrow> 'db option" where
  "Phonebook_Remove D nodeID clusterPath db = exec D (PbDelete (atKey nodeID clusterPath)) db"

definition RemoveAllForNode :: "'db pbsql \<Rightarrow> string \<Rightarrow> 'db \<Rightarrow> 'db option" where
  "RemoveAllForNode D nodeID db = exec D (PbDelete (\<lambda>r. pw_node_id r = nodeID)) db"

definition RecordConnectionAttempt :: "'db pbsql \<Rightarrow> time \<Rightarrow> string \<Rightarrow> string \<Rightarrow> bool \<Rightarrow> 'db \<Rightarrow> 'db option" where
  "RecordConnectionAttempt D t nodeID clusterPath success db = (let now = UnixMilli t in
     if success then exec D (PbUpdate (\<lambda>r. r\<lparr>pw_conn_attempts := pw_conn_attempts r + 1, pw_conn_success := pw_conn_success r + 1,
       pw_success_rate := fdiv (of_integer (pw_conn_success r + 1)) (of_integer (pw_conn_attempts r + 1)), pw_consec_fails := 0,
       pw_last_connected := now, pw_last_seen := now, pw_updated_at := now, pw_is_connected := 1\<rparr>) (atKey nodeID clusterPath)) db
     else exec D (PbUpdate (\<lambda>r. r\<lparr>pw_conn_attempts := pw_conn_attempts r + 1,
       pw_success_rate := fdiv (of_integer (pw_conn_success r)) (of_integer (pw_conn_attempts r + 1)),
       pw_consec_fails := pw_consec_fails r + 1, pw_updated_at := now\<rparr>) (atKey nodeID clusterPath)) db)"

definition RecordDisconnect :: "'db pbsql \<Rightarrow> time \<Rightarrow> string \<Rightarrow> string \<Rightarrow> 'db \<Rightarrow> 'db option" where
  "RecordDisconnect D t nodeID clusterPath db = (let now = UnixMilli t in
     exec D (PbUpdate (\<lambda>r. r\<lparr>pw_is_connected := 0, pw_last_seen := now, pw_updated_at := now\<rparr>) (atKey nodeID clusterPath)) db)"

definition SetReliabilityScore :: "'db pbsql \<Rightarrow> time \<Rightarrow> string \<Rightarrow> string \<Rightarrow> f64 \<Rightarrow> 'db \<Rightarrow> 'db option" where
  "SetReliabilityScore D t nodeID clusterPath score db =
     exec D (PbUpdate (\<lambda>r. r\<lparr>pw_reliability_score := score, pw_updated_at := UnixMilli t\<rparr>) (atKey nodeID clusterPath)) db"

definition SetStatus :: "'db pbsql \<Rightarrow> time \<Rightarrow> string \<Rightarrow> string \<Rightarrow> string \<Rightarrow> 'db \<Rightarrow> 'db option" where
  "SetStatus D t nodeID clusterPath status db =
     exec D (PbUpdate (\<lambda>r. r\<lparr>pw_status := status, pw_updated_at := UnixMilli t\<rparr>) (atKey nodeID clusterPath)) db"

definition RecordProbe :: "'db pbsql \<Rightarrow> time \<Rightarrow> string \<Rightarrow> string \<Rightarrow> bool \<Rightarrow> 'db \<Rightarrow> 'db option" where
  "RecordProbe D t nodeID clusterPath success db =
     exec D (PbUpdate (\<lambda>r. r\<lparr>pw_last_probe_time := UnixMilli t, pw_last_probe_success := boolToInt success,
       pw_updated_at := UnixMilli t\<rparr>) (atKey nodeID clusterPath)) db"

definition Prune :: "'db pbsql \<Rightarrow> time \<Rightarrow> duration \<Rightarrow> int \<Rightarrow> 'db \<Rightarrow> ('db \<times> int) option" where
  "Prune D t maxAge maxConsecutiveFails db = (let cutoff = UnixMilli (t - maxAge) in
     pb_Exec D (PbDelete (\<lambda>r. pw_last_seen r < cutoff \<and> pw_consec_fails r > maxConsecutiveFails)) db)"

subsection \<open>The subscriber\<close>

definition addOrUpdateEntry :: "'db pbsql \<Rightarrow> time \<Rightarrow> string \<Rightarrow> string \<Rightarrow> string list \<Rightarrow> string \<Rightarrow> Capabilities option \<Rightarrow> 'db \<Rightarrow> 'db" where
  "addOrUpdateEntry D now nodeID clusterPath addresses publicKey caps db = (let
     cp = (case ParseClusterPath clusterPath of Inr cp \<Rightarrow> cp | Inl _ \<Rightarrow> \<lparr>cp_Region = '''', cp_Datacenter = '''', cp_Cluster = ''''\<rparr>);
     entry = \<lparr>pe_NodeID = nodeID, pe_ClusterPath = clusterPath, pe_PublicKey = publicKey, pe_Addresses = addresses,
       pe_Region = cp_Region cp, pe_Datacenter = cp_Datacenter cp, pe_Capabilities = caps, pe_FirstSeen = now, pe_LastSeen = now,
       pe_LastConnected = zeroTime, pe_UpdatedAt = zeroTime, pe_ConnectionAttempts = 0, pe_ConnectionSuccess = 0,
       pe_SuccessRate = 0, pe_ConsecutiveFails = 0, pe_ReliabilityScore = 0, pe_LastProbeTime = zeroTime,
       pe_LastProbeSuccess = False, pe_Status = pbStatusActive, pe_IsConnected = False\<rparr>;
     exists = (case Phonebook_Exists D db nodeID clusterPath of Some b \<Rightarrow> b | None \<Rightarrow> False)
     in if exists then (case Phonebook_Update D now entry db of None \<Rightarrow> db | Some db' \<Rightarrow> db')
        else (case Phonebook_Add D now entry db of None \<Rightarrow> db | Some db' \<Rightarrow> db'))"

record memberInfo =
  mi_NodeID :: string
  mi_Addresses :: "string list"
  mi_PublicKey :: string
  mi_Capabilities :: "Capabilities option"

text \<open>The three events of the subscriber.\<close>

datatype memberEvent =
    NewMemberAnnounced string memberInfo
  | NewMemberReceived string memberInfo
  | ClusterMembersReceived string "memberInfo list"

definition storeMember :: "'db pbsql \<Rightarrow> time \<Rightarrow> string \<Rightarrow> memberInfo \<Rightarrow> 'db \<Rightarrow> 'db" where
  "storeMember D now clusterPath m db =
     addOrUpdateEntry D now (mi_NodeID m) clusterPath (mi_Addresses m) (mi_PublicKey m) (mi_Capabilities m) db"

fun handleMemberEvent :: "'db pbsql \<Rightarrow> time \<Rightarrow> memberEvent \<Rightarrow> 'db \<Rightarrow> 'db" where
  "handleMemberEvent D now (NewMemberAnnounced clusterPath m) db = storeMember D now clusterPath m db"
| "handleMemberEvent D now (NewMemberReceived clusterPath m) db = storeMember D now clusterPath m db"
| "handleMemberEvent D now (ClusterMembersReceived clusterPath ms) db = fold (storeMember D now clusterPath) ms db"

subsection \<open>Specification\<close>

text \<open>The phonebook as a map from node and cluster to entries, the mutations on it, and their effect on the map. Times are
  kept to the millisecond.\<close>

type_synonym pbmap = "string \<times> string \<Rightarrow> Entry option"

definition rowKey :: "pbrow \<Rightarrow> string \<times> string" where
  "rowKey r = (pw_node_id r, pw_cluster_path r)"

definition entryKey :: "Entry \<Rightarrow> string \<times> string" where
  "entryKey e = (pe_NodeID e, pe_ClusterPath e)"

definition entries :: "('db \<Rightarrow> string \<times> string \<Rightarrow> pbrow option) \<Rightarrow> 'db \<Rightarrow> pbmap" where
  "entries tbl db k = map_option scanEntry (tbl db k)"

definition ms :: "time \<Rightarrow> time" where
  "ms t = t - t mod Millisecond"

definition msOr :: "time \<Rightarrow> time \<Rightarrow> time" where
  "msOr now t = (if UnixMilli t = 0 then ms now else ms t)"

datatype pbOp =
    PAdd time Entry
  | PUpdate time Entry
  | PRemove string string
  | PRemoveAll string
  | PAttempt time string string bool
  | PDisconnect time string string
  | PScore time string string f64
  | PStatus time string string string
  | PProbe time string string bool
  | PPrune time duration int

fun pb_do :: "'db pbsql \<Rightarrow> pbOp \<Rightarrow> 'db \<Rightarrow> 'db option" where
  "pb_do D (PAdd t e) db = Phonebook_Add D t e db"
| "pb_do D (PUpdate t e) db = Phonebook_Update D t e db"
| "pb_do D (PRemove n c) db = Phonebook_Remove D n c db"
| "pb_do D (PRemoveAll n) db = RemoveAllForNode D n db"
| "pb_do D (PAttempt t n c success) db = RecordConnectionAttempt D t n c success db"
| "pb_do D (PDisconnect t n c) db = RecordDisconnect D t n c db"
| "pb_do D (PScore t n c score) db = SetReliabilityScore D t n c score db"
| "pb_do D (PStatus t n c status) db = SetStatus D t n c status db"
| "pb_do D (PProbe t n c success) db = RecordProbe D t n c success db"
| "pb_do D (PPrune t maxAge maxFails) db = map_option fst (Prune D t maxAge maxFails db)"

fun pb_run :: "'db pbsql \<Rightarrow> pbOp list \<Rightarrow> 'db \<Rightarrow> 'db option" where
  "pb_run D [] db = Some db"
| "pb_run D (p # ps) db = (case pb_do D p db of None \<Rightarrow> None | Some db' \<Rightarrow> pb_run D ps db')"

definition atEntry :: "string \<times> string \<Rightarrow> (Entry \<Rightarrow> Entry) \<Rightarrow> pbmap \<Rightarrow> pbmap" where
  "atEntry k g M = M(k := map_option g (M k))"

definition without :: "(Entry \<Rightarrow> bool) \<Rightarrow> pbmap \<Rightarrow> pbmap" where
  "without P M k = (case M k of None \<Rightarrow> None | Some e \<Rightarrow> if P e then None else Some e)"

fun pb_spec :: "pbOp \<Rightarrow> pbmap \<Rightarrow> pbmap" where
  "pb_spec (PAdd t e) M = M(entryKey e \<mapsto> e\<lparr>pe_FirstSeen := msOr t (pe_FirstSeen e), pe_LastSeen := msOr t (pe_LastSeen e),
     pe_LastConnected := ms (pe_LastConnected e), pe_UpdatedAt := ms t, pe_LastProbeTime := ms (pe_LastProbeTime e),
     pe_Status := (if pe_Status e = '''' then ''active'' else pe_Status e)\<rparr>)"
| "pb_spec (PUpdate t e) M = atEntry (entryKey e) (\<lambda>old. e\<lparr>pe_FirstSeen := pe_FirstSeen old, pe_LastSeen := ms (pe_LastSeen e),
     pe_LastConnected := ms (pe_LastConnected e), pe_UpdatedAt := ms t, pe_LastProbeTime := ms (pe_LastProbeTime e)\<rparr>) M"
| "pb_spec (PRemove n c) M = M((n, c) := None)"
| "pb_spec (PRemoveAll n) M = without (\<lambda>e. pe_NodeID e = n) M"
| "pb_spec (PAttempt t n c success) M = atEntry (n, c) (\<lambda>e. if success
     then e\<lparr>pe_ConnectionAttempts := pe_ConnectionAttempts e + 1, pe_ConnectionSuccess := pe_ConnectionSuccess e + 1,
       pe_SuccessRate := fdiv (of_integer (pe_ConnectionSuccess e + 1)) (of_integer (pe_ConnectionAttempts e + 1)),
       pe_ConsecutiveFails := 0, pe_LastConnected := ms t, pe_LastSeen := ms t, pe_UpdatedAt := ms t, pe_IsConnected := True\<rparr>
     else e\<lparr>pe_ConnectionAttempts := pe_ConnectionAttempts e + 1,
       pe_SuccessRate := fdiv (of_integer (pe_ConnectionSuccess e)) (of_integer (pe_ConnectionAttempts e + 1)),
       pe_ConsecutiveFails := pe_ConsecutiveFails e + 1, pe_UpdatedAt := ms t\<rparr>) M"
| "pb_spec (PDisconnect t n c) M = atEntry (n, c) (\<lambda>e. e\<lparr>pe_IsConnected := False, pe_LastSeen := ms t, pe_UpdatedAt := ms t\<rparr>) M"
| "pb_spec (PScore t n c score) M = atEntry (n, c) (\<lambda>e. e\<lparr>pe_ReliabilityScore := score, pe_UpdatedAt := ms t\<rparr>) M"
| "pb_spec (PStatus t n c status) M = atEntry (n, c) (\<lambda>e. e\<lparr>pe_Status := status, pe_UpdatedAt := ms t\<rparr>) M"
| "pb_spec (PProbe t n c success) M = atEntry (n, c) (\<lambda>e. e\<lparr>pe_LastProbeTime := ms t, pe_LastProbeSuccess := success, pe_UpdatedAt := ms t\<rparr>) M"
| "pb_spec (PPrune t maxAge maxFails) M =
     without (\<lambda>e. UnixMilli (pe_LastSeen e) < UnixMilli (t - maxAge) \<and> pe_ConsecutiveFails e > maxFails) M"

text \<open>Well-formed entries: the counters are consistent and the success rate is their quotient.\<close>

definition rate :: "int \<Rightarrow> int \<Rightarrow> f64" where
  "rate success attempts = (if attempts = 0 then 0 else fdiv (of_integer success) (of_integer attempts))"

definition wf_entry :: "Entry \<Rightarrow> bool" where
  "wf_entry e \<longleftrightarrow> 0 \<le> pe_ConnectionSuccess e \<and> pe_ConnectionSuccess e \<le> pe_ConnectionAttempts e \<and>
     0 \<le> pe_ConsecutiveFails e \<and> pe_ConsecutiveFails e \<le> pe_ConnectionAttempts e - pe_ConnectionSuccess e \<and>
     pe_SuccessRate e = rate (pe_ConnectionSuccess e) (pe_ConnectionAttempts e)"

definition wf_pbmap :: "pbmap \<Rightarrow> bool" where
  "wf_pbmap M \<longleftrightarrow> (\<forall>k e. M k = Some e \<longrightarrow> wf_entry e)"

fun op_wf :: "pbOp \<Rightarrow> bool" where
  "op_wf (PAdd t e) = wf_entry e"
| "op_wf (PUpdate t e) = wf_entry e"
| "op_wf _ = True"

text \<open>A table held as a list of rows.\<close>

fun pbrows_exec :: "pb_stmt \<Rightarrow> pbrow list \<Rightarrow> (pbrow list \<times> int) option" where
  "pbrows_exec PbMigrate rs = Some (rs, 0)"
| "pbrows_exec (PbInsert r) rs = (if List.member (map rowKey rs) (rowKey r) then None else Some (rs @ [r], 1))"
| "pbrows_exec (PbUpdate f w) rs = Some (map (\<lambda>r. if w r then f r else r) rs, int (length (filter w rs)))"
| "pbrows_exec (PbDelete w) rs = Some (filter (\<lambda>r. \<not> w r) rs, int (length (filter w rs)))"

definition pbrows_db :: "pbrow list pbsql" where
  "pbrows_db = \<lparr>pb_Exec = pbrows_exec, pb_Select = (\<lambda>w rs. Some (filter w rs)),
     pb_SelectBest = (\<lambda>w n rs. Some ((if n < 0 then id else take (nat n))
       (sort_key (\<lambda>r. - pw_success_rate r) (sort_key (\<lambda>r. - pw_last_seen r) (filter w rs))))),
     pb_SelectCount = (\<lambda>w rs. Some (int (length (filter w rs))))\<rparr>"

definition pbrows_ok :: "pbrow list \<Rightarrow> bool" where
  "pbrows_ok rs \<longleftrightarrow> distinct (map rowKey rs)"

definition pbrows_tbl :: "pbrow list \<Rightarrow> string \<times> string \<Rightarrow> pbrow option" where
  "pbrows_tbl rs k = find (\<lambda>r. rowKey r = k) rs"

text \<open>A peer and a run of the phonebook, for the concrete runs.\<close>

definition sample_peer :: Entry where
  "sample_peer = \<lparr>pe_NodeID = ''n1'', pe_ClusterPath = ''eu/dc1/main'', pe_PublicKey = ''key'', pe_Addresses = [''/ip4/10.0.0.1''],
     pe_Region = ''eu'', pe_Datacenter = ''dc1'', pe_Capabilities = None, pe_FirstSeen = 7000000000, pe_LastSeen = 7000000001,
     pe_LastConnected = 0, pe_UpdatedAt = 0, pe_ConnectionAttempts = 0, pe_ConnectionSuccess = 0, pe_SuccessRate = 0,
     pe_ConsecutiveFails = 0, pe_ReliabilityScore = 0, pe_LastProbeTime = 0, pe_LastProbeSuccess = True, pe_Status = '''',
     pe_IsConnected = False\<rparr>"

definition sample_ops :: "pbOp list" where
  "sample_ops = [PAdd 8000000000 sample_peer, PAttempt 9000000000 ''n1'' ''eu/dc1/main'' True,
     PAttempt 10000000000 ''n1'' ''eu/dc1/main'' False, PStatus 11000000000 ''n1'' ''eu/dc1/main'' ''suspected'']"

section \<open>The database interface\<close>

locale phonebook_db =
  fixes D :: "'db pbsql" and ok :: "'db \<Rightarrow> bool" and tbl :: "'db \<Rightarrow> string \<times> string \<Rightarrow> pbrow option"
  assumes insert_law: "ok db \<Longrightarrow> pb_Exec D (PbInsert r) db = Some (db', n) \<Longrightarrow>
      ok db' \<and> tbl db' = (tbl db)(rowKey r \<mapsto> r)"
    and update_law: "ok db \<Longrightarrow> (\<And>r. rowKey (f r) = rowKey r) \<Longrightarrow> pb_Exec D (PbUpdate f w) db = Some (db', n) \<Longrightarrow>
      ok db' \<and> tbl db' = (\<lambda>k. map_option (\<lambda>r. if w r then f r else r) (tbl db k))"
    and delete_law: "ok db \<Longrightarrow> pb_Exec D (PbDelete w) db = Some (db', n) \<Longrightarrow>
      ok db' \<and> tbl db' = (\<lambda>k. case tbl db k of None \<Rightarrow> None | Some r \<Rightarrow> if w r then None else Some r)"
    and select_law: "ok db \<Longrightarrow> pb_Select D w db = Some rs \<Longrightarrow>
      distinct (map rowKey rs) \<and> (\<forall>r. r \<in> set rs \<longleftrightarrow> tbl db (rowKey r) = Some r \<and> w r)"
    and count_law: "ok db \<Longrightarrow> pb_SelectCount D w db = Some n \<Longrightarrow> pb_Select D w db = Some rs \<Longrightarrow> n = int (length rs)"
    and key_law: "ok db \<Longrightarrow> tbl db k = Some r \<Longrightarrow> rowKey r = k"
begin

lemma at_row:
  assumes "ok db" and "\<And>r. rowKey (f r) = rowKey r" and "\<And>r. atKey n c r \<Longrightarrow> scanEntry (f r) = g (scanEntry r)"
    and "exec D (PbUpdate f (atKey n c)) db = Some db'"
  shows "ok db' \<and> entries tbl db' = atEntry (n, c) g (entries tbl db)"
proof -
  from assms(4) obtain m where "pb_Exec D (PbUpdate f (atKey n c)) db = Some (db', m)"
    by (auto simp: exec_def)
  then have u: "ok db'" "tbl db' = (\<lambda>k. map_option (\<lambda>r. if atKey n c r then f r else r) (tbl db k))"
    using update_law [OF assms(1, 2)] by auto
  have "entries tbl db' k = atEntry (n, c) g (entries tbl db) k" for k
  proof (cases "tbl db k")
    case (Some r)
    have "atKey n c r \<longleftrightarrow> k = (n, c)" using key_law [OF assms(1) Some] by (auto simp: atKey_def rowKey_def)
    then show ?thesis using Some assms(3) by (auto simp: entries_def atEntry_def u(2))
  qed (auto simp: entries_def atEntry_def u(2))
  then show ?thesis using u(1) by blast
qed

lemma without_rows:
  assumes "ok db" and "pb_Exec D (PbDelete w) db = Some (db', m)" and "\<And>r. w r = P (scanEntry r)"
  shows "ok db' \<and> entries tbl db' = without P (entries tbl db)"
  using delete_law [OF assms(1, 2)] by (auto simp: entries_def without_def assms(3) fun_eq_iff split: option.split)

lemma Get_entries:
  assumes "ok db" and "Phonebook_Get D db n c = Some x"
  shows "x = entries tbl db (n, c)"
proof -
  from assms(2) obtain rs where rs: "pb_Select D (atKey n c) db = Some rs"
    and x: "x = (case rs of [] \<Rightarrow> None | r # _ \<Rightarrow> Some (scanEntry r))"
    by (auto simp: Phonebook_Get_def split: option.splits list.splits)
  have mem: "r \<in> set rs \<longleftrightarrow> tbl db (rowKey r) = Some r \<and> atKey n c r" for r
    using select_law [OF assms(1) rs] by blast
  show ?thesis
  proof (cases rs)
    case Nil
    have "tbl db (n, c) = None"
    proof (rule ccontr)
      assume "tbl db (n, c) \<noteq> None"
      then obtain r where r: "tbl db (n, c) = Some r" by blast
      then have "rowKey r = (n, c)" using key_law [OF assms(1)] by blast
      then show False using mem [of r] r Nil by (simp add: atKey_def rowKey_def)
    qed
    then show ?thesis using x Nil by (simp add: entries_def)
  next
    case (Cons r rs')
    then have "tbl db (rowKey r) = Some r" "atKey n c r" using mem [of r] by auto
    then show ?thesis using x Cons by (simp add: entries_def atKey_def rowKey_def)
  qed
qed

end

lemmas pb_op_defs = Phonebook_Add_def Phonebook_Update_def Phonebook_Remove_def RemoveAllForNode_def
  RecordConnectionAttempt_def RecordDisconnect_def SetReliabilityScore_def SetStatus_def RecordProbe_def Prune_def Let_def

lemma ms_UnixMilli [simp]: "time_UnixMilli (UnixMilli t) = ms t"
  by (simp add: time_UnixMilli_def UnixMilli_def ms_def minus_mod_eq_div_mult)

lemma UnixMilli_time [simp]: "UnixMilli (time_UnixMilli n) = n"
  by (simp add: time_UnixMilli_def UnixMilli_def)

lemma boolToInt_1 [simp]: "boolToInt b = 1 \<longleftrightarrow> b"
  by (simp add: boolToInt_def)

lemma scan_columns [simp]: "scanAddrs (Some (JsonOf v)) = v" "scanCaps (capsColumn c) = c"
  by (simp_all add: scanAddrs_def scanCaps_def capsColumn_def split: option.split)

lemma entryKey_scan [simp]: "entryKey (scanEntry r) = rowKey r"
  by (simp add: entryKey_def scanEntry_def rowKey_def)

context phonebook_db
begin

lemma do_refines:
  assumes "ok db" and "pb_do D p db = Some db'"
  shows "ok db' \<and> entries tbl db' = pb_spec p (entries tbl db)"
proof (cases p)
  case (PAdd t e)
  note H = assms(2) [unfolded PAdd pb_do.simps Phonebook_Add_def Let_def exec_def]
  from H show ?thesis
    by (auto simp: PAdd dest!: insert_law [OF assms(1)])
      (auto simp: entries_def fun_eq_iff scanEntry_def rowKey_def entryKey_def msOr_def pbStatusActive_def)
next
  case (PUpdate t e)
  note H = assms(2) [unfolded PUpdate pb_do.simps Phonebook_Update_def]
  show ?thesis unfolding PUpdate pb_spec.simps entryKey_def
    by (rule at_row [OF assms(1) _ _ H]) (auto simp: rowKey_def scanEntry_def atKey_def intro!: Entry.equality)
next
  case (PRemove n c)
  note H = assms(2) [unfolded PRemove pb_do.simps Phonebook_Remove_def exec_def]
  then obtain m where "pb_Exec D (PbDelete (atKey n c)) db = Some (db', m)" by auto
  from without_rows [OF assms(1) this, of "\<lambda>e. entryKey e = (n, c)"]
  have w: "ok db' \<and> entries tbl db' = without (\<lambda>e. entryKey e = (n, c)) (entries tbl db)"
    by (simp add: atKey_def entryKey_def scanEntry_def)
  have "entries tbl db k = Some e \<Longrightarrow> entryKey e = k" for k e
    using key_law [OF assms(1), of k] by (auto simp: entries_def)
  then have "without (\<lambda>e. entryKey e = (n, c)) (entries tbl db) = (entries tbl db)((n, c) := None)"
    by (auto simp: without_def fun_eq_iff split: option.split)
  then show ?thesis using w by (simp add: PRemove)
next
  case (PRemoveAll n)
  note H = assms(2) [unfolded PRemoveAll pb_do.simps RemoveAllForNode_def exec_def]
  then obtain m where "pb_Exec D (PbDelete (\<lambda>r. pw_node_id r = n)) db = Some (db', m)" by auto
  then show ?thesis unfolding PRemoveAll pb_spec.simps by (rule without_rows [OF assms(1)]) (simp add: scanEntry_def)
next
  case (PAttempt t n c success)
  show ?thesis
  proof (cases success)
    case True
    note H = assms(2) [unfolded PAttempt pb_do.simps RecordConnectionAttempt_def Let_def if_P [OF True]]
    show ?thesis unfolding PAttempt pb_spec.simps if_P [OF True]
      by (rule at_row [OF assms(1) _ _ H]) (simp_all add: rowKey_def scanEntry_def)
  next
    case False
    note H = assms(2) [unfolded PAttempt pb_do.simps RecordConnectionAttempt_def Let_def if_not_P [OF False]]
    show ?thesis unfolding PAttempt pb_spec.simps if_not_P [OF False]
      by (rule at_row [OF assms(1) _ _ H]) (simp_all add: rowKey_def scanEntry_def)
  qed
next
  case (PDisconnect t n c)
  note H = assms(2) [unfolded PDisconnect pb_do.simps RecordDisconnect_def Let_def]
  show ?thesis unfolding PDisconnect pb_spec.simps
    by (rule at_row [OF assms(1) _ _ H]) (simp_all add: rowKey_def scanEntry_def)
next
  case (PScore t n c score)
  note H = assms(2) [unfolded PScore pb_do.simps SetReliabilityScore_def]
  show ?thesis unfolding PScore pb_spec.simps
    by (rule at_row [OF assms(1) _ _ H]) (simp_all add: rowKey_def scanEntry_def)
next
  case (PStatus t n c status)
  note H = assms(2) [unfolded PStatus pb_do.simps SetStatus_def]
  show ?thesis unfolding PStatus pb_spec.simps
    by (rule at_row [OF assms(1) _ _ H]) (simp_all add: rowKey_def scanEntry_def)
next
  case (PProbe t n c success)
  note H = assms(2) [unfolded PProbe pb_do.simps RecordProbe_def]
  show ?thesis unfolding PProbe pb_spec.simps
    by (rule at_row [OF assms(1) _ _ H]) (simp_all add: rowKey_def scanEntry_def)
next
  case (PPrune t maxAge maxFails)
  note H = assms(2) [unfolded PPrune pb_do.simps Prune_def Let_def]
  then obtain m where "pb_Exec D (PbDelete (\<lambda>r. pw_last_seen r < UnixMilli (t - maxAge) \<and> pw_consec_fails r > maxFails)) db = Some (db', m)"
    by auto
  then show ?thesis unfolding PPrune pb_spec.simps by (rule without_rows [OF assms(1)]) (simp add: scanEntry_def)
qed

lemma run_refines:
  "ok db \<Longrightarrow> pb_run D ops db = Some db' \<Longrightarrow> ok db' \<and> entries tbl db' = fold pb_spec ops (entries tbl db)"
  by (induction ops arbitrary: db) (auto split: option.splits dest: do_refines)

end

lemma pbrows_find:
  "pbrows_ok rs \<Longrightarrow> pbrows_tbl rs k = Some r \<longleftrightarrow> r \<in> set rs \<and> rowKey r = k"
proof (induction rs)
  case (Cons a rs)
  then show ?case by (auto simp: pbrows_ok_def pbrows_tbl_def)
qed (simp add: pbrows_tbl_def)

lemma pbrows_filter:
  "pbrows_ok rs \<Longrightarrow> pbrows_tbl (filter P rs) k = (case pbrows_tbl rs k of None \<Rightarrow> None | Some r \<Rightarrow> if P r then Some r else None)"
proof (induction rs)
  case (Cons a rs)
  have absent: "rowKey a = k \<Longrightarrow> find (\<lambda>r. rowKey r = k) (filter P rs) = None"
    using Cons.prems by (auto simp: pbrows_ok_def find_None_iff image_def)
  show ?case using Cons absent by (auto simp: pbrows_ok_def pbrows_tbl_def)
qed (simp add: pbrows_tbl_def)

interpretation pbrows: phonebook_db pbrows_db pbrows_ok pbrows_tbl
proof
  show "pbrows_ok db' \<and> pbrows_tbl db' = (pbrows_tbl db)(rowKey r \<mapsto> r)"
    if "pbrows_ok db" "pb_Exec pbrows_db (PbInsert r) db = Some (db', n)" for db r db' n
  proof -
    have d: "db' = db @ [r]" "rowKey r \<notin> rowKey ` set db" using that(2) by (auto simp: pbrows_db_def split: if_splits)
    then have "find (\<lambda>r'. rowKey r' = rowKey r) db = None" by (auto simp: find_None_iff image_def)
    then have "pbrows_tbl (db @ [r]) k = ((pbrows_tbl db)(rowKey r \<mapsto> r)) k" for k
      by (simp add: pbrows_tbl_def find_append split: option.split)
    then show ?thesis using that(1) d by (auto simp: pbrows_ok_def)
  qed
  show "pbrows_ok db' \<and> pbrows_tbl db' = (\<lambda>k. map_option (\<lambda>r. if w r then f r else r) (pbrows_tbl db k))"
    if "pbrows_ok db" "\<And>r. rowKey (f r) = rowKey r" "pb_Exec pbrows_db (PbUpdate f w) db = Some (db', n)" for db f w db' n
  proof -
    have d: "db' = map (\<lambda>r. if w r then f r else r) db" using that(3) by (simp add: pbrows_db_def)
    have "map rowKey db' = map rowKey db" by (simp add: d that(2))
    moreover have "pbrows_tbl (map (\<lambda>r. if w r then f r else r) rs) k = map_option (\<lambda>r. if w r then f r else r) (pbrows_tbl rs k)" for rs k
      by (induction rs) (simp_all add: pbrows_tbl_def that(2))
    moreover from calculation(1) have "pbrows_ok db'" using that(1) unfolding pbrows_ok_def by metis
    ultimately show ?thesis by (auto simp: d)
  qed
  show "pbrows_ok db' \<and> pbrows_tbl db' = (\<lambda>k. case pbrows_tbl db k of None \<Rightarrow> None | Some r \<Rightarrow> if w r then None else Some r)"
    if "pbrows_ok db" "pb_Exec pbrows_db (PbDelete w) db = Some (db', n)" for db w db' n
    using that pbrows_filter [OF that(1), of "\<lambda>r. \<not> w r"]
    by (auto simp: pbrows_db_def pbrows_ok_def fun_eq_iff distinct_map_filter split: option.split)
  show "distinct (map rowKey rs) \<and> (\<forall>r. r \<in> set rs \<longleftrightarrow> pbrows_tbl db (rowKey r) = Some r \<and> w r)"
    if "pbrows_ok db" "pb_Select pbrows_db w db = Some rs" for db w rs
    using that pbrows_find [OF that(1)] by (auto simp: pbrows_db_def pbrows_ok_def distinct_map_filter)
  show "n = int (length rs)"
    if "pbrows_ok db" "pb_SelectCount pbrows_db w db = Some n" "pb_Select pbrows_db w db = Some rs" for db w n rs
    using that by (auto simp: pbrows_db_def)
  show "rowKey r = k" if "pbrows_ok db" "pbrows_tbl db k = Some r" for db k r
    using that pbrows_find by blast
qed

text \<open>A database that is up: statements and queries do not fail, except the insertion of a second row for a key.\<close>

locale reliable_phonebook = phonebook_db +
  assumes update_total: "ok db \<Longrightarrow> pb_Exec D (PbUpdate f w) db \<noteq> None"
    and delete_total: "ok db \<Longrightarrow> pb_Exec D (PbDelete w) db \<noteq> None"
    and insert_total: "ok db \<Longrightarrow> tbl db (rowKey r) = None \<Longrightarrow> pb_Exec D (PbInsert r) db \<noteq> None"
    and select_total: "ok db \<Longrightarrow> pb_Select D w db \<noteq> None"
    and count_total: "ok db \<Longrightarrow> pb_SelectCount D w db \<noteq> None"
begin

lemma Get_ok: "ok db \<Longrightarrow> Phonebook_Get D db n c = Some (entries tbl db (n, c))"
  using select_total [of db "atKey n c"] Get_entries [of db n c]
  by (cases "Phonebook_Get D db n c") (auto simp: Phonebook_Get_def split: option.splits list.splits)

lemma update_ok:
  assumes "ok db" and "pb_do D p db = exec D (PbUpdate f w) db"
  shows "\<exists>db'. pb_do D p db = Some db' \<and> ok db' \<and> entries tbl db' = pb_spec p (entries tbl db)"
proof -
  obtain db' where "pb_do D p db = Some db'" using update_total [OF assms(1), of f w] assms(2) by (auto simp: exec_def)
  then show ?thesis using do_refines [OF assms(1)] by blast
qed

lemma SetReliabilityScore_ok:
  assumes "ok db"
  obtains db' where "SetReliabilityScore D t n c x db = Some db'" "ok db'" "entries tbl db' = pb_spec (PScore t n c x) (entries tbl db)"
  using update_ok [OF assms, of "PScore t n c x"] unfolding pb_do.simps SetReliabilityScore_def by blast

lemma SetStatus_ok:
  assumes "ok db"
  obtains db' where "SetStatus D t n c s db = Some db'" "ok db'" "entries tbl db' = pb_spec (PStatus t n c s) (entries tbl db)"
  using update_ok [OF assms, of "PStatus t n c s"] unfolding pb_do.simps SetStatus_def by blast

lemma Remove_ok:
  assumes "ok db"
  obtains db' where "Phonebook_Remove D n c db = Some db'" "ok db'" "entries tbl db' = (entries tbl db)((n, c) := None)"
proof -
  obtain db' where "pb_do D (PRemove n c) db = Some db'"
    using delete_total [OF assms, of "atKey n c"] by (auto simp: Phonebook_Remove_def exec_def)
  then show ?thesis using do_refines [OF assms] that by fastforce
qed

lemma GetByCluster_ok:
  assumes "ok db"
  obtains es where "GetByCluster D db c = Some es" "distinct (map pe_NodeID es)"
    "set es = {e. \<exists>n. entries tbl db (n, c) = Some e}" "pe_NodeID ` set es = {n. entries tbl db (n, c) \<noteq> None}"
proof -
  obtain rs where rs: "pb_Select D (\<lambda>r. pw_cluster_path r = c) db = Some rs"
    using select_total [OF assms] by blast
  have d: "distinct (map rowKey rs)" and m: "r \<in> set rs \<longleftrightarrow> tbl db (rowKey r) = Some r \<and> pw_cluster_path r = c" for r
    using select_law [OF assms rs] by auto
  have "map rowKey rs = map (\<lambda>r. (pw_node_id r, c)) rs" using m by (auto simp: rowKey_def)
  then have "distinct (map (\<lambda>r. (pw_node_id r, c)) rs)" using d by metis
  then have "distinct (map pw_node_id rs)" by (auto simp: distinct_map inj_on_def)
  moreover have "map pe_NodeID (scanEntries rs) = map pw_node_id rs" by (simp add: scanEntries_def scanEntry_def)
  moreover have in_rs: "tbl db (n, c) = Some r \<longleftrightarrow> r \<in> set rs \<and> pw_node_id r = n" for n r
    using m [of r] key_law [OF assms, of "(n, c)" r] by (auto simp: rowKey_def)
  ultimately have nodes: "distinct (map pe_NodeID (scanEntries rs))" by simp
  have "set (scanEntries rs) = {e. \<exists>n. entries tbl db (n, c) = Some e}"
    using in_rs by (auto simp: entries_def scanEntries_def)
  moreover have "pe_NodeID ` set (scanEntries rs) = {n. entries tbl db (n, c) \<noteq> None}"
    using in_rs by (auto simp: entries_def scanEntries_def scanEntry_def image_iff)
  ultimately show ?thesis using that [of "scanEntries rs"] rs nodes by (simp add: GetByCluster_def)
qed

lemma Exists_ok: "ok db \<Longrightarrow> Phonebook_Exists D db n c = Some (entries tbl db (n, c) \<noteq> None)"
proof -
  assume "ok db"
  obtain rs where rs: "pb_Select D (atKey n c) db = Some rs" using select_total [OF \<open>ok db\<close>] by blast
  obtain m where m: "pb_SelectCount D (atKey n c) db = Some m" using count_total [OF \<open>ok db\<close>] by blast
  have "entries tbl db (n, c) \<noteq> None \<longleftrightarrow> rs \<noteq> []"
    using Get_ok [OF \<open>ok db\<close>, of n c] rs by (cases rs) (auto simp: Phonebook_Get_def dest: sym)
  then show ?thesis using count_law [OF \<open>ok db\<close> m rs] m by (simp add: Phonebook_Exists_def)
qed

end

interpretation pbrows: reliable_phonebook pbrows_db pbrows_ok pbrows_tbl
  by unfold_locales (auto simp: pbrows_db_def pbrows_tbl_def find_None_iff)

section \<open>Entries\<close>

lemma rate_bounds: "0 \<le> s \<Longrightarrow> s \<le> a \<Longrightarrow> 0 \<le> rate s a \<and> rate s a \<le> 1"
proof (cases "a = 0")
  case False
  assume "0 \<le> s" "s \<le> a"
  then have "0 \<le> of_integer s" "of_integer s \<le> of_integer a" "1 \<le> of_integer a"
    using False by (auto intro: of_integer_nonneg of_integer_mono of_integer_pos)
  then have "0 \<le> of_integer s / of_integer a" "of_integer s / of_integer a \<le> 1" by (auto simp: divide_le_eq_1)
  then show ?thesis using ieee.unit False by (simp add: rate_def fdiv_def)
qed (simp add: rate_def)

lemma atEntry_wf:
  "(\<And>e. wf_entry e \<Longrightarrow> wf_entry (g e)) \<Longrightarrow> wf_pbmap M \<Longrightarrow> wf_pbmap (atEntry k g M)"
  by (auto simp: wf_pbmap_def atEntry_def)

lemma without_wf: "wf_pbmap M \<Longrightarrow> wf_pbmap (without P M)"
  by (auto simp: wf_pbmap_def without_def split: option.splits if_splits)

lemma put_wf: "wf_entry e \<Longrightarrow> wf_pbmap M \<Longrightarrow> wf_pbmap (M(k \<mapsto> e))" "wf_pbmap M \<Longrightarrow> wf_pbmap (M(k := None))"
  by (auto simp: wf_pbmap_def)

lemma wf_attempt:
  assumes "wf_entry e"
  shows "wf_entry (if success
     then e\<lparr>pe_ConnectionAttempts := pe_ConnectionAttempts e + 1, pe_ConnectionSuccess := pe_ConnectionSuccess e + 1,
       pe_SuccessRate := fdiv (of_integer (pe_ConnectionSuccess e + 1)) (of_integer (pe_ConnectionAttempts e + 1)),
       pe_ConsecutiveFails := 0, pe_LastConnected := ms t, pe_LastSeen := ms t, pe_UpdatedAt := ms t, pe_IsConnected := True\<rparr>
     else e\<lparr>pe_ConnectionAttempts := pe_ConnectionAttempts e + 1,
       pe_SuccessRate := fdiv (of_integer (pe_ConnectionSuccess e)) (of_integer (pe_ConnectionAttempts e + 1)),
       pe_ConsecutiveFails := pe_ConsecutiveFails e + 1, pe_UpdatedAt := ms t\<rparr>)"
  using assms by (cases success) (simp_all add: wf_entry_def rate_def)

lemma pb_spec_wf: "op_wf p \<Longrightarrow> wf_pbmap M \<Longrightarrow> wf_pbmap (pb_spec p M)"
proof (cases p)
  case (PAttempt t n c success)
  assume "wf_pbmap M"
  then show ?thesis unfolding PAttempt pb_spec.simps by (intro atEntry_wf wf_attempt)
qed (auto intro!: atEntry_wf without_wf put_wf simp: wf_entry_def)

lemma fold_spec_wf: "list_all op_wf ps \<Longrightarrow> wf_pbmap M \<Longrightarrow> wf_pbmap (fold pb_spec ps M)"
  by (induction ps arbitrary: M) (simp_all add: pb_spec_wf)

lemmas sample_simps = sample_peer_def pb_op_defs exec_def pbrows_db_def rowKey_def atKey_def Phonebook_Get_def scanEntry_def
  entries_def pbrows_tbl_def

section \<open>Properties\<close>

text \<open>
  C12. The phonebook implements a finite map: over every database that obeys the laws of \<open>phonebook_db\<close>, a sequence of
  mutations whose statements succeed changes the entries as the same operations change a map from node and cluster to
  entries, with times kept to the millisecond, and a lookup returns what the map holds.
\<close>

theorem phonebook_refines_map:
  assumes "phonebook_db D ok tbl" and "ok db" and "pb_run D ops db = Some db'" and "Phonebook_Get D db' n c = Some x"
  shows "entries tbl db' = fold pb_spec ops (entries tbl db) \<and> x = fold pb_spec ops (entries tbl db) (n, c)"
proof -
  from phonebook_db.run_refines [OF assms(1-3)]
  have "ok db'" "entries tbl db' = fold pb_spec ops (entries tbl db)" by auto
  then show ?thesis using phonebook_db.Get_entries [OF assms(1) _ assms(4)] by simp
qed

theorem phonebook_refines_map_witness:
  "phonebook_db pbrows_db pbrows_ok pbrows_tbl \<and>
   (\<exists>db' x. pb_run pbrows_db sample_ops [] = Some db' \<and> Phonebook_Get pbrows_db db' ''n1'' ''eu/dc1/main'' = Some (Some x) \<and>
     pe_Status x = ''suspected'' \<and> fold pb_spec sample_ops (entries pbrows_tbl []) (''n1'', ''eu/dc1/main'') = Some x)"
proof -
  obtain db' where run: "pb_run pbrows_db sample_ops [] = Some db'"
    and get: "\<exists>x. Phonebook_Get pbrows_db db' ''n1'' ''eu/dc1/main'' = Some (Some x) \<and> pe_Status x = ''suspected''"
    by (simp add: sample_ops_def sample_simps)
  from get obtain x where x: "Phonebook_Get pbrows_db db' ''n1'' ''eu/dc1/main'' = Some (Some x)" "pe_Status x = ''suspected''" by blast
  have "pbrows_ok []" by (simp add: pbrows_ok_def)
  from phonebook_refines_map [OF pbrows.phonebook_db_axioms this run x(1)]
  have "fold pb_spec sample_ops (entries pbrows_tbl []) (''n1'', ''eu/dc1/main'') = Some x" by simp
  then show ?thesis using run x pbrows.phonebook_db_axioms by blast
qed

text \<open>
  Entries stay well formed: the connection counters and the success rate of every entry are consistent after every
  sequence of mutations that adds only well-formed entries, and the rate is a float between zero and one.
\<close>

theorem entries_well_formed:
  assumes "phonebook_db D ok tbl" and "ok db" and "pb_run D ops db = Some db'" and "list_all op_wf ops"
    and "wf_pbmap (entries tbl db)" and "entries tbl db' k = Some e"
  shows "wf_entry e \<and> 0 \<le> pe_SuccessRate e \<and> pe_SuccessRate e \<le> 1"
proof -
  have "wf_pbmap (entries tbl db')"
    using phonebook_db.run_refines [OF assms(1-3)] fold_spec_wf [OF assms(4, 5)] by simp
  then have "wf_entry e" using assms(6) unfolding wf_pbmap_def by blast
  then show ?thesis using rate_bounds by (auto simp: wf_entry_def)
qed

theorem entries_well_formed_witness:
  "phonebook_db pbrows_db pbrows_ok pbrows_tbl \<and> list_all op_wf sample_ops \<and>
   (\<exists>db' e. pb_run pbrows_db sample_ops [] = Some db' \<and> entries pbrows_tbl db' (''n1'', ''eu/dc1/main'') = Some e \<and>
     pe_ConnectionAttempts e = 2 \<and> wf_entry e \<and> 0 \<le> pe_SuccessRate e \<and> pe_SuccessRate e \<le> 1)"
proof -
  obtain db' e where run: "pb_run pbrows_db sample_ops [] = Some db'"
    and e: "entries pbrows_tbl db' (''n1'', ''eu/dc1/main'') = Some e" "pe_ConnectionAttempts e = 2"
    by (simp add: sample_ops_def sample_simps)
  have ok: "list_all op_wf sample_ops" by (simp add: sample_ops_def sample_peer_def wf_entry_def rate_def)
  have "pbrows_ok []" "wf_pbmap (entries pbrows_tbl [])" by (simp_all add: pbrows_ok_def wf_pbmap_def entries_def pbrows_tbl_def)
  from entries_well_formed [OF pbrows.phonebook_db_axioms this(1) run ok this(2) e(1)] run e ok pbrows.phonebook_db_axioms show ?thesis by auto
qed

end
