(* ===== verification/Election_Types.thy ===== *)
theory Election_Types
  imports Capsule_Types Go_Float
begin

text \<open>
  \<^verbatim>\<open>src/election/elector.go\<close>: the vocabulary of an election round. A \<open>Decision\<close> is what a strategy
  answers, an \<open>Outcome\<close> how a round ends. The wire messages \<^verbatim>\<open>Claim\<close> and \<^verbatim>\<open>ElectionFailed\<close> have the
  fields of the generated protobuf types that the code reads and writes.
\<close>

section \<open>Definitions\<close>

type_synonym Reason = string

definition reasonInitial :: Reason where "reasonInitial = ''initial''"
definition reasonScaleUp :: Reason where "reasonScaleUp = ''scale_up''"
definition reasonNodeFailure :: Reason where "reasonNodeFailure = ''node_failure''"
definition reasonManual :: Reason where "reasonManual = ''manual''"
definition reasonRebalance :: Reason where "reasonRebalance = ''rebalance''"

record Request =
  rq_CapsuleID :: CapsuleID
  rq_ReplicaID :: string
  rq_ClusterPath :: string
  rq_Reason :: Reason
  rq_PreviousNodeID :: string
  rq_Priority :: int
  rq_CreatedAt :: time

record Decision =
  d_Eligible :: bool
  d_Score :: f64
  d_PublishAt :: time
  d_Reason :: string

datatype Outcome = outcomeWon | outcomeLost | outcomeFailed

record Claim =
  cl_CapsuleId :: string
  cl_ReplicaId :: string
  cl_ClusterPath :: string
  cl_NodeId :: string
  cl_GravityScore :: f64
  cl_TimestampMicros :: int

record ElectionFailed =
  ef_CapsuleId :: string
  ef_ReplicaId :: string
  ef_ClusterPath :: string
  ef_SenderId :: string
  ef_Reason :: string
  ef_TimestampMicros :: int

text \<open>\<^verbatim>\<open>time.Time.UnixMicro\<close> rounds down to whole microseconds.\<close>

definition UnixMicro :: "time \<Rightarrow> int" where
  "UnixMicro t = t div Microsecond"

end
