(* ===== verification/Capsule_Handler.thy ===== *)
theory Capsule_Handler
  imports Capsule_Manager Orbit Scaling Phonebook Election_Types
begin

text \<open>
  \<^verbatim>\<open>src/node/capsule_handler.go\<close>, with the signer adapters of \<^verbatim>\<open>src/node/capsule_signer.go\<close> and
  \<^verbatim>\<open>src/node/election_handler.go\<close>: the handler that connects the capsule manager with the orbits of each cluster,
  the scaling monitor and the event bus.

  The state is the record \<open>CapsuleHandler\<close>. What the handler publishes on the bus is appended to \<open>ch_bus\<close>. The
  manager calls its event handler from inside its methods; \<open>onManagerEvent\<close> never calls back into the manager and
  an event carries the capsule as it was when it was emitted, so \<open>withManager\<close> runs the method first and then the
  event handler on the new events, in their order. An announcer holds references to the orbit manager and the
  deduplicator of its cluster; the model looks them up under the same cluster path, where \<^verbatim>\<open>SetupCluster\<close> puts all
  three and \<^verbatim>\<open>LeaveCluster\<close> removes them, after which nothing reaches the orbit manager whose orbits it leaves.
  Stopping the scaling monitor only ends its goroutine. The field \<^verbatim>\<open>AnnouncingNode\<close> of a received event is never set
  by the handler and has no counterpart. The loops that wait for bus events are one function per event. All clock
  readings of one operation give the same time.
\<close>

section \<open>Definitions\<close>

subsection \<open>Events\<close>

record ElectionRequested =
  eq_CapsuleID :: string
  eq_ReplicaID :: string
  eq_Reason :: Reason
  eq_ClusterPath :: string
  eq_PreviousNodeID :: string
  eq_Priority :: int
  eq_OccurredAt :: time

datatype nodeEvent =
    EvCapsuleCreated string string string string
  | EvCapsuleUpdated string string string
  | EvCapsuleReceived string string string string
  | EvCapsuleAnnounced string string string string
  | EvCapsuleWithdrawn string string string
  | EvElectionRequested ElectionRequested
  | EvScaleUpNeeded string string string
  | EvScaleDownNeeded string string string
  | EvScaleToZero string string string

abbreviation priorityInitial :: int where "priorityInitial \<equiv> 50"
abbreviation priorityScaleUp :: int where "priorityScaleUp \<equiv> 60"
abbreviation priorityNodeFailure :: int where "priorityNodeFailure \<equiv> 100"

subsection \<open>Replica slots\<close>

text \<open>\<^verbatim>\<open>fmt.Sprintf("%d", i)\<close> and \<^verbatim>\<open>fmt.Sscanf(id, "%d", &n)\<close>. Scanning skips white space but no newline, takes an
  optional sign and the longest run of digits, and ignores what follows.\<close>

fun natDigits :: "nat \<Rightarrow> string" where
  "natDigits n = (if n < 10 then [char_of (48 + n)] else natDigits (n div 10) @ [char_of (48 + n mod 10)])"

declare natDigits.simps [simp del]

definition Sprintf_d :: "int \<Rightarrow> string" where
  "Sprintf_d i = (if i < 0 then CHR ''-'' # natDigits (nat (- i)) else natDigits (nat i))"

function skipSpace :: "string \<Rightarrow> string option" where
  "skipSpace s = (if s = [] then Some [] else if (of_char (hd s) :: nat) = 10 then None
     else if spaceLen s = 0 then Some s else skipSpace (drop (spaceLen s) s))"
  by auto
termination
  by (relation "measure length") (auto simp: drop_shorter)

declare skipSpace.simps [simp del]

definition Sscanf_d :: "string \<Rightarrow> int option" where
  "Sscanf_d s = (case skipSpace s of None \<Rightarrow> None
   | Some r \<Rightarrow> (let
       neg = (r \<noteq> [] \<and> hd r = CHR ''-'');
       r = (if r \<noteq> [] \<and> (hd r = CHR ''-'' \<or> hd r = CHR ''+'') then tl r else r);
       ds = takeWhile isDigit r
     in if ds = [] then None else signed neg (parseUint ds)))"

definition replicaSlotID :: "int \<Rightarrow> string" where
  "replicaSlotID i = Sprintf_d i"

definition parseReplicaSlot :: "string \<Rightarrow> int" where
  "parseReplicaSlot s = (case Sscanf_d s of None \<Rightarrow> - 1 | Some n \<Rightarrow> n)"

fun highestSlot :: "int \<Rightarrow> ReplicaState list \<Rightarrow> int" where
  "highestSlot highest [] = highest"
| "highestSlot highest (r # rs) = (let idx = parseReplicaSlot (rs_ReplicaID r)
     in highestSlot (if idx > highest then idx else highest) rs)"

definition nextReplicaSlot :: "Capsule \<Rightarrow> string" where
  "nextReplicaSlot c = replicaSlotID (s32 (s64 (highestSlot (- 1) (cap_Replicas c) + 1)))"

definition initialReplicaCount :: "ReplicaConfig \<Rightarrow> int" where
  "initialReplicaCount r = (if rc_Exact r > 0 then rc_Exact r else if rc_Min r > 0 then rc_Min r else 1)"

subsection \<open>Signatures\<close>

text \<open>libp2p's public keys: \<open>pubVerify key content signature\<close> is \<open>None\<close> when the key cannot be decoded or
  verification fails with an error.\<close>

type_synonym pubVerify = "string \<Rightarrow> string \<Rightarrow> string \<Rightarrow> bool option"

definition capsuleVerifier_Verify ::
  "pubVerify \<Rightarrow> 'pb pbsql \<Rightarrow> 'pb \<Rightarrow> string \<Rightarrow> string \<Rightarrow> string \<Rightarrow> string \<Rightarrow> bool" where
  "capsuleVerifier_Verify pv P pb clusterPath senderID content signature =
     (if length signature = 0 then False
      else case Phonebook_Get P pb senderID clusterPath of
        Some (Some entry) \<Rightarrow> pv (pe_PublicKey entry) content signature = Some True
      | _ \<Rightarrow> False)"

fun verifyAny :: "pubVerify \<Rightarrow> string \<Rightarrow> string \<Rightarrow> Entry list \<Rightarrow> bool" where
  "verifyAny pv content signature [] = False"
| "verifyAny pv content signature (entry # rest) =
     (if pv (pe_PublicKey entry) content signature = Some True then True else verifyAny pv content signature rest)"

definition electionVerifier_Verify ::
  "pubVerify \<Rightarrow> 'pb pbsql \<Rightarrow> 'pb \<Rightarrow> string \<Rightarrow> string \<Rightarrow> string \<Rightarrow> bool" where
  "electionVerifier_Verify pv P pb senderID content signature =
     (if length signature = 0 then False
      else case GetByNode P pb senderID of None \<Rightarrow> False | Some es \<Rightarrow> verifyAny pv content signature es)"

subsection \<open>State\<close>

record ('db, 'h) CapsuleHandler =
  ch_manager :: "'db Manager"
  ch_orbits :: "(string, OrbitManager) gomap"
  ch_announcers :: "(string, Announcer) gomap"
  ch_dedups :: "(string, 'h Deduplicator) gomap"
  ch_scaling :: Monitor
  ch_bus :: "nodeEvent list"
  ch_nodeID :: string
  ch_signer :: "(string \<Rightarrow> string + string) option"
  ch_verifier :: "(string \<Rightarrow> string \<Rightarrow> string \<Rightarrow> string \<Rightarrow> bool) option"
  ch_forgetter :: bool
  ch_forgotten :: "CapsuleID list"
  ch_stopped :: bool

text \<open>\<open>ch_verifier\<close> gives the verifier of a cluster. The outside world of an operation: the clock, the codec,
  SHA-256 and the error of publishing on an orbit.\<close>

record 'h hworld =
  hw_now :: time
  hw_codec :: orbitCodec
  hw_hash :: "string \<Rightarrow> 'h"
  hw_net :: "string \<Rightarrow> string option"

definition NewCapsuleHandler ::
  "'db Manager \<Rightarrow> InMemoryRegistry \<Rightarrow> string \<Rightarrow> (string \<Rightarrow> string + string) option \<Rightarrow>
   (string \<Rightarrow> string \<Rightarrow> string \<Rightarrow> string \<Rightarrow> bool) option \<Rightarrow> ('db, 'h) CapsuleHandler" where
  "NewCapsuleHandler m registry nodeID signer verifier = \<lparr>ch_manager = m, ch_orbits = [], ch_announcers = [],
     ch_dedups = [], ch_scaling = WithMonitorRegistry registry NewMonitor, ch_bus = [], ch_nodeID = nodeID,
     ch_signer = signer, ch_verifier = verifier, ch_forgetter = False, ch_forgotten = [], ch_stopped = False\<rparr>"

definition SetElectionForgetter :: "('db, 'h) CapsuleHandler \<Rightarrow> ('db, 'h) CapsuleHandler" where
  "SetElectionForgetter h = h\<lparr>ch_forgetter := True\<rparr>"

subsection \<open>Clusters and orbits\<close>

definition SetupCluster :: "string \<Rightarrow> ('db, 'h) CapsuleHandler \<Rightarrow> ('db, 'h) CapsuleHandler" where
  "SetupCluster clusterPath h =
     (if map_of (ch_orbits h) clusterPath \<noteq> None then h
      else h\<lparr>ch_dedups := mput clusterPath NewDeduplicator (ch_dedups h),
         ch_orbits := mput clusterPath (NewOrbitManager (ch_stopped h) clusterPath (ch_nodeID h)) (ch_orbits h),
         ch_announcers := mput clusterPath \<lparr>an_nodeID = ch_nodeID h, an_signer = ch_signer h,
           an_verifier = map_option (\<lambda>v. v clusterPath) (ch_verifier h)\<rparr> (ch_announcers h)\<rparr>)"

definition Handler_LeaveCluster :: "string \<Rightarrow> ('db, 'h) CapsuleHandler \<Rightarrow> ('db, 'h) CapsuleHandler" where
  "Handler_LeaveCluster clusterPath h = h\<lparr>ch_orbits := mdel clusterPath (ch_orbits h),
     ch_announcers := mdel clusterPath (ch_announcers h), ch_dedups := mdel clusterPath (ch_dedups h)\<rparr>"

definition JoinOrbit ::
  "string option \<Rightarrow> string option \<Rightarrow> string \<Rightarrow> string \<Rightarrow> ('db, 'h) CapsuleHandler \<Rightarrow>
   orbitError option \<times> ('db, 'h) CapsuleHandler" where
  "JoinOrbit joinErr subErr clusterPath orbitName h = (let h = SetupCluster clusterPath h in
     case map_of (ch_orbits h) clusterPath of
       None \<Rightarrow> (None, h)
     | Some om \<Rightarrow> (let (err, om) = Orbit_Join joinErr subErr orbitName om
         in (err, h\<lparr>ch_orbits := mput clusterPath om (ch_orbits h)\<rparr>)))"

definition Handler_Stop :: "('db, 'h) CapsuleHandler \<Rightarrow> ('db, 'h) CapsuleHandler" where
  "Handler_Stop h = h\<lparr>ch_stopped := True, ch_orbits := map (\<lambda>(path, om). (path, Orbit_LeaveAll om)) (ch_orbits h)\<rparr>"

definition dedupCleanup :: "time \<Rightarrow> ('db, 'h) CapsuleHandler \<Rightarrow> ('db, 'h) CapsuleHandler" where
  "dedupCleanup now h = h\<lparr>ch_dedups := map (\<lambda>(path, d). (path, Deduplicator_Cleanup now d)) (ch_dedups h)\<rparr>"

subsection \<open>Elections\<close>

definition busPublish :: "nodeEvent \<Rightarrow> ('db, 'h) CapsuleHandler \<Rightarrow> ('db, 'h) CapsuleHandler" where
  "busPublish ev h = h\<lparr>ch_bus := ch_bus h @ [ev]\<rparr>"

definition requestElection :: "ElectionRequested \<Rightarrow> ('db, 'h) CapsuleHandler \<Rightarrow> ('db, 'h) CapsuleHandler" where
  "requestElection ev h = busPublish (EvElectionRequested ev) h"

definition initialRequest :: "time \<Rightarrow> Capsule \<Rightarrow> int \<Rightarrow> ElectionRequested" where
  "initialRequest now c i = \<lparr>eq_CapsuleID = cap_ID c, eq_ReplicaID = replicaSlotID i, eq_Reason = reasonInitial,
     eq_ClusterPath = cap_ClusterID c, eq_PreviousNodeID = '''', eq_Priority = priorityInitial, eq_OccurredAt = now\<rparr>"

definition requestInitialElections :: "time \<Rightarrow> Capsule \<Rightarrow> ('db, 'h) CapsuleHandler \<Rightarrow> ('db, 'h) CapsuleHandler" where
  "requestInitialElections now c h = (let count = initialReplicaCount (spec_Replicas (cap_Spec c)) in
     if count \<le> 0 then h else fold (\<lambda>i. requestElection (initialRequest now c i)) [0..count - 1] h)"

fun orphanedReplicas :: "time \<Rightarrow> string \<Rightarrow> string \<Rightarrow> Capsule \<Rightarrow> ReplicaState list \<Rightarrow> ElectionRequested list" where
  "orphanedReplicas now failedNode clusterPath c [] = []"
| "orphanedReplicas now failedNode clusterPath c (replica # rest) =
     (if rs_NodeID replica \<noteq> failedNode then orphanedReplicas now failedNode clusterPath c rest
      else \<lparr>eq_CapsuleID = cap_ID c, eq_ReplicaID = rs_ReplicaID replica, eq_Reason = reasonNodeFailure,
          eq_ClusterPath = clusterPath, eq_PreviousNodeID = failedNode, eq_Priority = priorityNodeFailure,
          eq_OccurredAt = now\<rparr> # orphanedReplicas now failedNode clusterPath c rest)"

definition onNodeFailed ::
  "time \<Rightarrow> string \<Rightarrow> string \<Rightarrow> ('db, 'h) CapsuleHandler \<Rightarrow> ('db, 'h) CapsuleHandler" where
  "onNodeFailed now failedNode clusterPath h =
     fold (\<lambda>c h. fold requestElection (orphanedReplicas now failedNode clusterPath c (cap_Replicas c)) h)
       (Manager_List (ch_manager h)) h"

definition handleContainerCrash :: "time \<Rightarrow> CapsuleID \<Rightarrow> ('db, 'h) CapsuleHandler \<Rightarrow> ('db, 'h) CapsuleHandler" where
  "handleContainerCrash now cid h = (case Manager_Get (ch_manager h) cid of
     None \<Rightarrow> h
   | Some c \<Rightarrow> fold (\<lambda>replica h. if rs_NodeID replica \<noteq> ch_nodeID h then h
       else requestElection \<lparr>eq_CapsuleID = cid, eq_ReplicaID = rs_ReplicaID replica, eq_Reason = reasonNodeFailure,
         eq_ClusterPath = cap_ClusterID c, eq_PreviousNodeID = '''', eq_Priority = priorityNodeFailure,
         eq_OccurredAt = now\<rparr> h) (cap_Replicas c) h)"

subsection \<open>Reactions to manager events\<close>

definition announceCapsule :: "'h hworld \<Rightarrow> Capsule \<Rightarrow> ('db, 'h) CapsuleHandler \<Rightarrow> ('db, 'h) CapsuleHandler" where
  "announceCapsule w c h = (case (map_of (ch_announcers h) (cap_ClusterID c), map_of (ch_orbits h) (cap_ClusterID c)) of
     (Some ann, Some om) \<Rightarrow> (let
       (err, om) = Orbit_Announce (hw_codec w) (hw_now w) (hw_net w (spec_Orbit (cap_Spec c))) c ann om;
       h = h\<lparr>ch_orbits := mput (cap_ClusterID c) om (ch_orbits h)\<rparr>
     in if err \<noteq> None then h
        else busPublish (EvCapsuleAnnounced (cap_ID c) (spec_Name (cap_Spec c)) (spec_Orbit (cap_Spec c)) (cap_ClusterID c)) h)
   | _ \<Rightarrow> h)"

definition withdrawCapsule :: "'h hworld \<Rightarrow> Capsule \<Rightarrow> string \<Rightarrow> ('db, 'h) CapsuleHandler \<Rightarrow> ('db, 'h) CapsuleHandler" where
  "withdrawCapsule w c reason h = (case (map_of (ch_announcers h) (cap_ClusterID c), map_of (ch_orbits h) (cap_ClusterID c)) of
     (Some ann, Some om) \<Rightarrow> (let
       (err, om) = Withdraw (hw_codec w) (hw_now w) (hw_net w (spec_Orbit (cap_Spec c))) (spec_Orbit (cap_Spec c)) (cap_ID c) reason ann om
     in h\<lparr>ch_orbits := mput (cap_ClusterID c) om (ch_orbits h)\<rparr>)
   | _ \<Rightarrow> h)"

definition registerScaling :: "Capsule \<Rightarrow> ('db, 'h) CapsuleHandler \<Rightarrow> ('db, 'h) CapsuleHandler" where
  "registerScaling c h =
     (if length (spec_ScalingRules (cap_Spec c)) = 0 then h
      else case Scaling_FromSpecList (spec_ScalingRules (cap_Spec c)) of
        Inl _ \<Rightarrow> h
      | Inr rules \<Rightarrow> h\<lparr>ch_scaling := Monitor_Register \<lparr>cm_CapsuleID = cap_ID c, cm_Rules = rules, cm_Metrics = None\<rparr> (ch_scaling h)\<rparr>)"

definition onManagerEvent :: "'h hworld \<Rightarrow> ManagerEvent \<Rightarrow> ('db, 'h) CapsuleHandler \<Rightarrow> ('db, 'h) CapsuleHandler" where
  "onManagerEvent w event h = (let c = me_Capsule event; cid = me_CapsuleID event in
     if me_Type event = EventCapsuleCreated then (let
       h = busPublish (EvCapsuleCreated cid (spec_Name (cap_Spec c)) (spec_Orbit (cap_Spec c)) (cap_ClusterID c)) h;
       h = announceCapsule w c h
       in requestInitialElections (hw_now w) c h)
     else if me_Type event = EventCapsuleUpdated then
       announceCapsule w c (busPublish (EvCapsuleUpdated cid (spec_Name (cap_Spec c)) (cap_ClusterID c)) h)
     else if me_Type event = EventCapsuleReceived then (let
       h = busPublish (EvCapsuleReceived cid (spec_Name (cap_Spec c)) (spec_Orbit (cap_Spec c)) (cap_ClusterID c)) h;
       h = registerScaling c h
       in requestInitialElections (hw_now w) c h)
     else if me_Type event = EventCapsuleDeleted then (let
       h = busPublish (EvCapsuleWithdrawn cid (cap_ClusterID c) ''deleted'') h;
       h = withdrawCapsule w c ''deleted'' h;
       h = h\<lparr>ch_scaling := Monitor_Unregister cid (ch_scaling h)\<rparr>
       in if ch_forgetter h then h\<lparr>ch_forgotten := ch_forgotten h @ [cid]\<rparr> else h)
     else h)"

definition withManager ::
  "'h hworld \<Rightarrow> ('db Manager \<Rightarrow> 'db Manager \<times> managerError option) \<Rightarrow> ('db, 'h) CapsuleHandler \<Rightarrow>
   ('db, 'h) CapsuleHandler \<times> managerError option" where
  "withManager w f h = (let
     (m, err) = f (ch_manager h);
     new = drop (length (mg_events (ch_manager h))) (mg_events m)
   in (fold (onManagerEvent w) new (h\<lparr>ch_manager := m\<rparr>), err))"

subsection \<open>Messages and bus events\<close>

definition onOrbitMessage ::
  "'db sqldb \<Rightarrow> 'h hworld \<Rightarrow> string \<Rightarrow> string \<Rightarrow> ('db, 'h) CapsuleHandler \<Rightarrow> ('db, 'h) CapsuleHandler" where
  "onOrbitMessage D w clusterPath data h = (case (map_of (ch_announcers h) clusterPath, map_of (ch_dedups h) clusterPath) of
     (Some ann, Some dedup) \<Rightarrow> (let
       (res, dedup) = HandleMessage (hw_codec w) (hw_hash w) (hw_now w) data ann dedup;
       h = h\<lparr>ch_dedups := mput clusterPath dedup (ch_dedups h)\<rparr>
     in case res of
          Inl _ \<Rightarrow> h
        | Inr (_, PAnnouncement p) \<Rightarrow> (case protoToCapsule (pa_Capsule p) of
            None \<Rightarrow> h
          | Some c \<Rightarrow> fst (withManager w (Manager_Receive D (hw_now w) c) h))
        | Inr (_, orbitPayload.PStatus u) \<Rightarrow> fst (withManager w (SyncStatus D (hw_now w) (psu_CapsuleId u) (psu_Status u)) h)
        | Inr (_, PWithdrawal p) \<Rightarrow> fst (withManager w (Manager_Delete D (hw_now w) (pw_CapsuleId p)) h))
   | _ \<Rightarrow> h)"

definition handleElectionWon ::
  "'db sqldb \<Rightarrow> 'h hworld \<Rightarrow> CapsuleID \<Rightarrow> ReplicaID \<Rightarrow> string \<Rightarrow> ('db, 'h) CapsuleHandler \<Rightarrow> ('db, 'h) CapsuleHandler" where
  "handleElectionWon D w cid replica nodeID h = fst (withManager w (AssignReplica D (hw_now w) cid replica nodeID) h)"

definition handleElectionLost ::
  "'db sqldb \<Rightarrow> 'h hworld \<Rightarrow> CapsuleID \<Rightarrow> ReplicaID \<Rightarrow> string \<Rightarrow> ('db, 'h) CapsuleHandler \<Rightarrow> ('db, 'h) CapsuleHandler" where
  "handleElectionLost D w cid replica winner h = (let
     h = fst (withManager w (SyncStatus D (hw_now w) cid capsuleStatusAssigned) h)
   in if winner \<noteq> '''' then fst (withManager w (AssignReplica D (hw_now w) cid replica winner) h) else h)"

definition handleElectionFailed ::
  "'db sqldb \<Rightarrow> 'h hworld \<Rightarrow> CapsuleID \<Rightarrow> ('db, 'h) CapsuleHandler \<Rightarrow> ('db, 'h) CapsuleHandler" where
  "handleElectionFailed D w cid h = fst (withManager w (SyncStatus D (hw_now w) cid capsuleStatusAnnounced) h)"

definition onScaleEvent :: "time \<Rightarrow> ScaleEvent \<Rightarrow> ('db, 'h) CapsuleHandler \<Rightarrow> ('db, 'h) CapsuleHandler" where
  "onScaleEvent now event h = (let
     c = Manager_Get (ch_manager h) (se_CapsuleID event);
     clusterPath = (case c of None \<Rightarrow> '''' | Some c \<Rightarrow> cap_ClusterID c)
   in if se_Action event = scalingActionScaleUp then (let
        h = busPublish (EvScaleUpNeeded (se_CapsuleID event) (se_RuleName event) clusterPath) h
        in case c of None \<Rightarrow> h
           | Some c \<Rightarrow> requestElection \<lparr>eq_CapsuleID = se_CapsuleID event, eq_ReplicaID = nextReplicaSlot c,
               eq_Reason = reasonScaleUp, eq_ClusterPath = clusterPath, eq_PreviousNodeID = '''',
               eq_Priority = priorityScaleUp, eq_OccurredAt = now\<rparr> h)
      else if se_Action event = scalingActionScaleDown
        then busPublish (EvScaleDownNeeded (se_CapsuleID event) (se_RuleName event) clusterPath) h
      else if se_Action event = scalingActionScaleToZero
        then busPublish (EvScaleToZero (se_CapsuleID event) (se_RuleName event) clusterPath) h
      else h)"

subsection \<open>Specification\<close>

text \<open>Everything that happens to a handler: calls of the manager by the API and the election adapters, cluster and
  orbit membership, received messages, bus events and ticks.\<close>

datatype handlerCall =
    HManager managerCall
  | HSetup string
  | HLeave string
  | HJoin "string option" "string option" string string
  | HStop
  | HCleanup
  | HMessage string string
  | HWon CapsuleID ReplicaID string
  | HLost CapsuleID ReplicaID string
  | HFailed CapsuleID
  | HNodeFailed string string
  | HCrash CapsuleID
  | HScale ScaleEvent

fun handler_call ::
  "engine \<Rightarrow> 'db sqldb \<Rightarrow> 'h hworld \<Rightarrow> handlerCall \<Rightarrow> ('db, 'h) CapsuleHandler \<Rightarrow> ('db, 'h) CapsuleHandler" where
  "handler_call eng D w (HManager call) h = fst (withManager w (manager_call eng D (hw_now w) call) h)"
| "handler_call eng D w (HSetup path) h = SetupCluster path h"
| "handler_call eng D w (HLeave path) h = Handler_LeaveCluster path h"
| "handler_call eng D w (HJoin je se path name) h = snd (JoinOrbit je se path name h)"
| "handler_call eng D w HStop h = Handler_Stop h"
| "handler_call eng D w HCleanup h = dedupCleanup (hw_now w) h"
| "handler_call eng D w (HMessage path data) h = onOrbitMessage D w path data h"
| "handler_call eng D w (HWon cid rid node) h = handleElectionWon D w cid rid node h"
| "handler_call eng D w (HLost cid rid node) h = handleElectionLost D w cid rid node h"
| "handler_call eng D w (HFailed cid) h = handleElectionFailed D w cid h"
| "handler_call eng D w (HNodeFailed node path) h = onNodeFailed (hw_now w) node path h"
| "handler_call eng D w (HCrash cid) h = handleContainerCrash (hw_now w) cid h"
| "handler_call eng D w (HScale ev) h = onScaleEvent (hw_now w) ev h"

definition handler_inv :: "('db, 'h) CapsuleHandler \<Rightarrow> bool" where
  "handler_inv h \<longleftrightarrow> mg_inv (ch_manager h) \<and> wf_map (ch_orbits h) \<and> wf_map (ch_announcers h) \<and> wf_map (ch_dedups h) \<and>
     dom (map_of (ch_orbits h)) = dom (map_of (ch_announcers h)) \<and> dom (map_of (ch_dedups h)) = dom (map_of (ch_announcers h)) \<and>
     (\<forall>path om. map_of (ch_orbits h) path = Some om \<longrightarrow> orbit_inv om \<and> om_clusterPath om = path \<and> om_nodeID om = ch_nodeID h) \<and>
     (\<forall>path a. map_of (ch_announcers h) path = Some a \<longrightarrow> an_nodeID a = ch_nodeID h)"

text \<open>The election requests among the events of the bus.\<close>

fun electionsOf :: "nodeEvent list \<Rightarrow> ElectionRequested list" where
  "electionsOf [] = []"
| "electionsOf (EvElectionRequested r # evs) = r # electionsOf evs"
| "electionsOf (_ # evs) = electionsOf evs"

text \<open>The requests for the first replicas of a capsule.\<close>

definition initialRequests :: "time \<Rightarrow> Capsule \<Rightarrow> ElectionRequested list" where
  "initialRequests now c = map (initialRequest now c) [0..initialReplicaCount (spec_Replicas (cap_Spec c)) - 1]"

text \<open>The requests a node failure calls for, and the manager events the handler ignores.\<close>

definition orphaned :: "time \<Rightarrow> string \<Rightarrow> string \<Rightarrow> Capsule list \<Rightarrow> ElectionRequested list" where
  "orphaned now node path cs = concat (map (\<lambda>c. map (\<lambda>r. \<lparr>eq_CapsuleID = cap_ID c, eq_ReplicaID = rs_ReplicaID r,
     eq_Reason = reasonNodeFailure, eq_ClusterPath = path, eq_PreviousNodeID = node, eq_Priority = priorityNodeFailure,
     eq_OccurredAt = now\<rparr>) (filter (\<lambda>r. rs_NodeID r = node) (cap_Replicas c))) cs)"

definition quiet :: "ManagerEvent \<Rightarrow> bool" where
  "quiet e \<longleftrightarrow> \<not> List.member [EventCapsuleCreated, EventCapsuleUpdated, EventCapsuleReceived, EventCapsuleDeleted] (me_Type e)"

text \<open>Data for the concrete runs: a node \<open>n1\<close> that knows one capsule, and a codec for its announcement.\<close>

definition sample_world :: "string hworld" where
  "sample_world = \<lparr>hw_now = 5, hw_codec = sampleOrbitCodec 0, hw_hash = id, hw_net = Map.empty\<rparr>"

definition sample_handler :: "(row list, string) CapsuleHandler" where
  "sample_handler = handler_call table_engine rows_db sample_world (HManager (CallReceive sample_capsule))
     (NewCapsuleHandler (NewManager NewStore) NewInMemoryRegistry ''n1'' None (Some (\<lambda>_ sender _ sig. sender = ''n2'' \<and> sig = ''s'')))"

definition sample_sender :: Announcer where
  "sample_sender = \<lparr>an_nodeID = ''n2'', an_signer = Some (\<lambda>_. Inr ''s''), an_verifier = None\<rparr>"

definition announcement_codec :: orbitCodec where
  "announcement_codec = (let
     p = announcementOf sample_capsule sample_sender;
     m = \<lparr>omsg_Type = ''announcement'', omsg_Payload = ''p'', omsg_SenderId = ''n2'', omsg_Timestamp = Some 3, omsg_Signature = ''s''\<rparr>
   in \<lparr>marshalOrbit = (\<lambda>x. if x = m then Inr ''m'' else Inl ''''), marshalPayload_o = (\<lambda>x. if x = PAnnouncement p then Inr ''p'' else Inl ''''),
       unmarshalOrbit = (\<lambda>d. if d = ''m'' then Some m else None), unmarshalAnnouncement = (\<lambda>d. if d = ''p'' then Some p else None),
       unmarshalStatus = (\<lambda>d. None), unmarshalWithdrawal = (\<lambda>d. None)\<rparr>)"

section \<open>Lemmas\<close>

subsection \<open>Replica slots\<close>

lemma digitsVal_snoc: "digitsVal acc (xs @ [c]) = 10 * digitsVal acc xs + digitVal c"
  by (induction xs arbitrary: acc) simp_all

lemma digit_char: "d < 10 \<Longrightarrow> isDigit (char_of (48 + d)) \<and> digitVal (char_of (48 + d)) = d"
  by (simp add: isDigit_def digitVal_def)

lemma natDigits_props: "natDigits n \<noteq> [] \<and> list_all isDigit (natDigits n) \<and> digitsVal 0 (natDigits n) = n"
proof (induction n rule: natDigits.induct)
  case (1 n)
  show ?case
  proof (cases "n < 10")
    case True
    then show ?thesis using digit_char [OF True] by (simp add: natDigits.simps [of n])
  next
    case False
    have "n mod 10 < 10" by simp
    from digit_char [OF this] show ?thesis using False "1.IH" by (simp add: natDigits.simps [of n] digitsVal_snoc)
  qed
qed

lemma spaceLen_plain: "isDigit c \<or> c = CHR ''-'' \<Longrightarrow> spaceLen (c # cs) = 0"
  by (rule spaceLen_ascii) (auto simp: isDigit_def)

lemma skipSpace_plain: "isDigit c \<or> c = CHR ''-'' \<Longrightarrow> skipSpace (c # cs) = Some (c # cs)"
  using spaceLen_plain [of c cs] by (auto simp: skipSpace.simps [of "c # cs"] isDigit_def)

lemma takeWhile_digits: "list_all isDigit ds \<Longrightarrow> takeWhile isDigit ds = ds"
  by (auto simp: list_all_iff)

lemma isDigit_sign: "isDigit c \<Longrightarrow> c \<noteq> CHR ''-'' \<and> c \<noteq> CHR ''+''"
  by (auto simp: isDigit_def)

lemma Sscanf_Sprintf: "in_s64 i \<Longrightarrow> Sscanf_d (Sprintf_d i) = Some i"
proof (cases "i < 0")
  case True
  assume i: "in_s64 i"
  let ?ds = "natDigits (nat (- i))"
  have d: "?ds \<noteq> []" "list_all isDigit ?ds" "digitsVal 0 ?ds = nat (- i)" using natDigits_props [of "nat (- i)"] by auto
  have "Sscanf_d (CHR ''-'' # ?ds) = signed True (parseUint ?ds)"
    using d by (simp add: Sscanf_d_def skipSpace_plain takeWhile_digits)
  then show ?thesis using d True i by (simp add: Sprintf_d_def parseUint_def signed_def)
next
  case False
  assume i: "in_s64 i"
  obtain c cs where c: "natDigits (nat i) = c # cs" using natDigits_props [of "nat i"] by (cases "natDigits (nat i)") auto
  have d: "list_all isDigit (c # cs)" "digitsVal 0 (c # cs) = nat i" using natDigits_props [of "nat i"] c by auto
  then have "Sscanf_d (c # cs) = signed False (parseUint (c # cs))"
    using isDigit_sign [of c] by (simp add: Sscanf_d_def skipSpace_plain takeWhile_digits)
  then show ?thesis using d False i c by (simp add: Sprintf_d_def parseUint_def signed_def)
qed

lemma parseReplicaSlot_replicaSlotID: "in_s64 i \<Longrightarrow> parseReplicaSlot (replicaSlotID i) = i"
  by (simp add: parseReplicaSlot_def replicaSlotID_def Sscanf_Sprintf)

lemma replicaSlotID_inj: "in_s64 i \<Longrightarrow> in_s64 j \<Longrightarrow> replicaSlotID i = replicaSlotID j \<longleftrightarrow> i = j"
  by (metis parseReplicaSlot_replicaSlotID)

lemma highestSlot_props: "h \<le> highestSlot h rs \<and> (\<forall>r \<in> set rs. parseReplicaSlot (rs_ReplicaID r) \<le> highestSlot h rs)"
proof (induction rs arbitrary: h)
  case (Cons r rs)
  let ?h = "if parseReplicaSlot (rs_ReplicaID r) > h then parseReplicaSlot (rs_ReplicaID r) else h"
  show ?case using Cons.IH [of ?h] by (auto simp: Let_def split: if_splits)
qed simp

lemma initialReplicaCount_pos: "1 \<le> initialReplicaCount r"
  by (simp add: initialReplicaCount_def)

subsection \<open>What an event changes\<close>

lemma electionsOf_append [simp]: "electionsOf (xs @ ys) = electionsOf xs @ electionsOf ys"
  by (induction xs rule: electionsOf.induct) simp_all

lemma busPublish_sel [simp]:
  "ch_manager (busPublish e h) = ch_manager h" "ch_orbits (busPublish e h) = ch_orbits h"
  "ch_announcers (busPublish e h) = ch_announcers h" "ch_dedups (busPublish e h) = ch_dedups h"
  "ch_nodeID (busPublish e h) = ch_nodeID h" "ch_bus (busPublish e h) = ch_bus h @ [e]"
  "ch_scaling (busPublish e h) = ch_scaling h" "ch_forgotten (busPublish e h) = ch_forgotten h"
  by (simp_all add: busPublish_def)

lemma fold_requestElection: "fold requestElection rs h = h\<lparr>ch_bus := ch_bus h @ map EvElectionRequested rs\<rparr>"
  by (induction rs arbitrary: h) (simp_all add: requestElection_def busPublish_def)

lemma requestInitialElections_bus:
  "requestInitialElections now c h = h\<lparr>ch_bus := ch_bus h @ map EvElectionRequested (initialRequests now c)\<rparr>"
proof -
  have "fold (\<lambda>i. requestElection (initialRequest now c i)) is h = fold requestElection (map (initialRequest now c) is) h" for "is"
    by (simp add: fold_map o_def)
  then show ?thesis
    using initialReplicaCount_pos [of "spec_Replicas (cap_Spec c)"]
    by (simp add: requestInitialElections_def initialRequests_def Let_def fold_requestElection)
qed

lemma electionsOf_requests [simp]: "electionsOf (map EvElectionRequested rs) = rs"
  by (induction rs) simp_all

lemma sendPayload_orbit:
  assumes "sendPayload cd now e typ p name a om = (err, om')"
  shows "om' = om \<or> (\<exists>data. om' = orbit_call (OPublish e name data) om)"
proof -
  have "om' = om \<or> (\<exists>data. om' = snd (Orbit_Publish e name data om))"
    using assms by (auto simp: sendPayload_def split: sum.splits) (metis snd_conv)
  then show ?thesis by simp
qed

lemma sendPayload_keeps:
  assumes "sendPayload cd now e typ p name a om = (err, om')"
  shows "(orbit_inv om \<longrightarrow> orbit_inv om') \<and> om_clusterPath om' = om_clusterPath om \<and> om_nodeID om' = om_nodeID om"
  using sendPayload_orbit [OF assms] orbit_inv_call orbit_call_sel by metis

lemma handler_inv_orbit:
  assumes "handler_inv h" "map_of (ch_orbits h) path = Some om" "orbit_inv om'" "om_clusterPath om' = om_clusterPath om" "om_nodeID om' = om_nodeID om"
  shows "handler_inv (h\<lparr>ch_orbits := mput path om' (ch_orbits h)\<rparr>)"
proof -
  have "insert path (dom (map_of (ch_orbits h))) = dom (map_of (ch_orbits h))" using assms(2) by blast
  then show ?thesis using assms by (auto simp: handler_inv_def)
qed

lemma handler_inv_bus [simp]: "handler_inv (h\<lparr>ch_bus := b\<rparr>) = handler_inv h"
  and handler_inv_scaling [simp]: "handler_inv (h\<lparr>ch_scaling := s\<rparr>) = handler_inv h"
  and handler_inv_forgotten [simp]: "handler_inv (h\<lparr>ch_forgotten := f\<rparr>) = handler_inv h"
  by (simp_all add: handler_inv_def)

lemma handler_inv_busPublish [simp]: "handler_inv (busPublish e h) = handler_inv h"
  by (simp add: busPublish_def)

lemma announceCapsule_inv:
  assumes "handler_inv h"
  shows "handler_inv (announceCapsule w c h) \<and> ch_manager (announceCapsule w c h) = ch_manager h"
proof (cases "map_of (ch_announcers h) (cap_ClusterID c)"; cases "map_of (ch_orbits h) (cap_ClusterID c)")
  fix a om assume ao: "map_of (ch_announcers h) (cap_ClusterID c) = Some a" "map_of (ch_orbits h) (cap_ClusterID c) = Some om"
  obtain err om' where e: "Orbit_Announce (hw_codec w) (hw_now w) (hw_net w (spec_Orbit (cap_Spec c))) c a om = (err, om')" by force
  have "orbit_inv om" using assms ao(2) by (auto simp: handler_inv_def)
  then have "handler_inv (h\<lparr>ch_orbits := mput (cap_ClusterID c) om' (ch_orbits h)\<rparr>)"
    using sendPayload_keeps [OF e [unfolded Orbit_Announce_def]] by (intro handler_inv_orbit [OF assms ao(2)]) auto
  then show ?thesis using ao e by (simp add: announceCapsule_def Let_def)
qed (use assms in \<open>simp_all add: announceCapsule_def split: option.split\<close>)

lemma withdrawCapsule_inv:
  assumes "handler_inv h"
  shows "handler_inv (withdrawCapsule w c reason h) \<and> ch_manager (withdrawCapsule w c reason h) = ch_manager h"
proof (cases "map_of (ch_announcers h) (cap_ClusterID c)"; cases "map_of (ch_orbits h) (cap_ClusterID c)")
  fix a om assume ao: "map_of (ch_announcers h) (cap_ClusterID c) = Some a" "map_of (ch_orbits h) (cap_ClusterID c) = Some om"
  obtain err om' where e: "Withdraw (hw_codec w) (hw_now w) (hw_net w (spec_Orbit (cap_Spec c))) (spec_Orbit (cap_Spec c)) (cap_ID c) reason a om = (err, om')" by force
  have "orbit_inv om" using assms ao(2) by (auto simp: handler_inv_def)
  then have "handler_inv (h\<lparr>ch_orbits := mput (cap_ClusterID c) om' (ch_orbits h)\<rparr>)"
    using sendPayload_keeps [OF e [unfolded Withdraw_def]] by (intro handler_inv_orbit [OF assms ao(2)]) auto
  then show ?thesis using ao e by (simp add: withdrawCapsule_def)
qed (use assms in \<open>simp_all add: withdrawCapsule_def split: option.split\<close>)

lemma registerScaling_inv:
  "handler_inv (registerScaling c h) = handler_inv h \<and> ch_manager (registerScaling c h) = ch_manager h"
  by (simp add: registerScaling_def split: sum.split)

lemma onManagerEvent_inv:
  assumes "handler_inv h"
  shows "handler_inv (onManagerEvent w e h) \<and> ch_manager (onManagerEvent w e h) = ch_manager h"
  unfolding onManagerEvent_def Let_def requestInitialElections_bus
  by (intro if_split [where P = "\<lambda>h'. handler_inv h' \<and> ch_manager h' = ch_manager h", THEN iffD2] conjI impI)
    (simp_all add: assms announceCapsule_inv withdrawCapsule_inv registerScaling_inv)

lemma fold_onManagerEvent_inv:
  "handler_inv h \<Longrightarrow> handler_inv (fold (onManagerEvent w) es h) \<and> ch_manager (fold (onManagerEvent w) es h) = ch_manager h"
  by (induction es arbitrary: h) (simp_all add: onManagerEvent_inv)

lemma withManager_inv:
  assumes "handler_inv h" "mg_inv (fst (f (ch_manager h)))"
  shows "handler_inv (fst (withManager w f h)) \<and> ch_manager (fst (withManager w f h)) = fst (f (ch_manager h))"
proof -
  obtain m e where f: "f (ch_manager h) = (m, e)" by force
  have "handler_inv (h\<lparr>ch_manager := m\<rparr>)" using assms f by (simp add: handler_inv_def)
  from fold_onManagerEvent_inv [OF this, of w] show ?thesis using f by (simp add: withManager_def Let_def)
qed

lemma SetupCluster_inv: "handler_inv h \<Longrightarrow> handler_inv (SetupCluster path h)"
  using orbit_inv_new [of "ch_stopped h" path "ch_nodeID h"]
  by (simp add: SetupCluster_def handler_inv_def NewOrbitManager_def)

lemma map_of_map_values: "map_of (map (\<lambda>(k, v). (k, f v)) m) k = map_option f (map_of m k)"
  by (induction m) auto

lemma dom_map_values [simp]: "dom (map_of (map (\<lambda>(k, v). (k, f v)) m)) = dom (map_of m)"
  by (auto simp: dom_def map_of_map_values)

lemma wf_map_map_values: "wf_map (map (\<lambda>(k, v). (k, f v)) m) = wf_map m"
  by (simp add: wf_map_def o_def case_prod_beta)

lemma Handler_LeaveCluster_inv: "handler_inv h \<Longrightarrow> handler_inv (Handler_LeaveCluster path h)"
  by (auto simp: Handler_LeaveCluster_def handler_inv_def)

lemma JoinOrbit_inv:
  assumes "handler_inv h"
  shows "handler_inv (snd (JoinOrbit je se path name h))"
proof -
  let ?h = "SetupCluster path h"
  have inv: "handler_inv ?h" using assms by (rule SetupCluster_inv)
  show ?thesis
  proof (cases "map_of (ch_orbits ?h) path")
    case (Some om)
    obtain err om' where j: "Orbit_Join je se name om = (err, om')" by force
    then have om': "om' = orbit_call (OJoin je se name) om" by simp
    have "orbit_inv om" using inv Some by (auto simp: handler_inv_def)
    then have "handler_inv (?h\<lparr>ch_orbits := mput path om' (ch_orbits ?h)\<rparr>)"
      using orbit_inv_call orbit_call_sel om' by (intro handler_inv_orbit [OF inv Some]) metis+
    then show ?thesis using Some j by (simp add: JoinOrbit_def Let_def)
  qed (use inv in \<open>simp add: JoinOrbit_def\<close>)
qed

lemma Handler_Stop_inv:
  assumes "handler_inv h"
  shows "handler_inv (Handler_Stop h)"
proof -
  have "orbit_inv (Orbit_LeaveAll om) \<and> om_clusterPath (Orbit_LeaveAll om) = om_clusterPath om \<and> om_nodeID (Orbit_LeaveAll om) = om_nodeID om"
    if "orbit_inv om" for om using orbit_inv_call [OF that, of OLeaveAll] by (simp add: Orbit_LeaveAll_def)
  then show ?thesis using assms
    by (simp add: Handler_Stop_def handler_inv_def map_of_map_values wf_map_map_values) metis
qed

lemma dedupCleanup_inv: "handler_inv h \<Longrightarrow> handler_inv (dedupCleanup now h)"
  by (simp add: dedupCleanup_def handler_inv_def wf_map_map_values)

lemma manager_call_handler_inv:
  assumes "stateless_law eng" "handler_inv h"
  shows "handler_inv (fst (withManager w (manager_call eng D now call) h))"
proof -
  obtain m r where m: "manager_call eng D now call (ch_manager h) = (m, r)" by force
  have "mg_inv m" using manager_call_inv [OF assms(1) _ m] assms(2) by (simp add: handler_inv_def)
  then show ?thesis using withManager_inv [OF assms(2), of "manager_call eng D now call" w] m by simp
qed

text \<open>The methods of the manager that the handler calls itself.\<close>

lemma handler_calls_inv:
  assumes "stateless_law eng" "handler_inv h"
  shows "handler_inv (fst (withManager w (AssignReplica D now cid rid node) h))"
    and "handler_inv (fst (withManager w (SyncStatus D now cid st) h))"
    and "handler_inv (fst (withManager w (Manager_Receive D now c) h))"
    and "handler_inv (fst (withManager w (Manager_Delete D now cid) h))"
proof -
  note inv = manager_call_handler_inv [OF assms, of w D now]
  have "AssignReplica D now cid rid node = manager_call eng D now (CallAssign cid rid node)"
    "SyncStatus D now cid st = manager_call eng D now (CallSync cid st)"
    "Manager_Receive D now c = manager_call eng D now (CallReceive c)"
    "Manager_Delete D now cid = manager_call eng D now (CallDelete cid)"
    by (simp_all add: fun_eq_iff)
  then show "handler_inv (fst (withManager w (AssignReplica D now cid rid node) h))"
    "handler_inv (fst (withManager w (SyncStatus D now cid st) h))"
    "handler_inv (fst (withManager w (Manager_Receive D now c) h))"
    "handler_inv (fst (withManager w (Manager_Delete D now cid) h))"
    using inv by presburger+
qed

lemma onOrbitMessage_inv:
  assumes "stateless_law eng" "handler_inv h"
  shows "handler_inv (onOrbitMessage D w path data h)"
proof (cases "map_of (ch_announcers h) path"; cases "map_of (ch_dedups h) path")
  fix a d assume ad: "map_of (ch_announcers h) path = Some a" "map_of (ch_dedups h) path = Some d"
  obtain res d' where r: "HandleMessage (hw_codec w) (hw_hash w) (hw_now w) data a d = (res, d')" by force
  let ?h = "h\<lparr>ch_dedups := mput path d' (ch_dedups h)\<rparr>"
  have "insert path (dom (map_of (ch_dedups h))) = dom (map_of (ch_dedups h))" using ad by blast
  then have inv: "handler_inv ?h" using assms(2) by (simp add: handler_inv_def)
  show ?thesis using ad r inv handler_calls_inv [OF assms(1) inv]
    by (simp add: onOrbitMessage_def Let_def split: sum.split prod.split orbitPayload.split option.split)
qed (use assms(2) in \<open>simp_all add: onOrbitMessage_def split: option.split\<close>)

lemma bus_id [simp]: "\<exists>b. h = h\<lparr>ch_bus := b\<rparr>"
  by (rule exI [of _ "ch_bus h"]) simp

lemma onScaleEvent_bus: "\<exists>b. onScaleEvent now ev h = h\<lparr>ch_bus := b\<rparr>"
  unfolding onScaleEvent_def requestElection_def busPublish_def Let_def by (auto split: option.split)

lemma handleContainerCrash_bus: "\<exists>b. handleContainerCrash now cid h = h\<lparr>ch_bus := b\<rparr>"
proof -
  have "\<exists>b. fold (\<lambda>replica h. if rs_NodeID replica \<noteq> ch_nodeID h then h else requestElection (f replica) h) rs h = h\<lparr>ch_bus := b\<rparr>"
    for f rs
  proof (induction rs arbitrary: h)
    case (Cons r rs)
    show ?case using Cons.IH [of h] Cons.IH [of "requestElection (f r) h"]
      by (auto simp: requestElection_def busPublish_def)
  qed simp
  then show ?thesis unfolding handleContainerCrash_def by (auto split: option.split)
qed

lemma orphanedReplicas_filter: "orphanedReplicas now node path c rs =
  map (\<lambda>r. \<lparr>eq_CapsuleID = cap_ID c, eq_ReplicaID = rs_ReplicaID r, eq_Reason = reasonNodeFailure, eq_ClusterPath = path,
    eq_PreviousNodeID = node, eq_Priority = priorityNodeFailure, eq_OccurredAt = now\<rparr>) (filter (\<lambda>r. rs_NodeID r = node) rs)"
  by (induction rs) simp_all

lemma onNodeFailed_bus:
  "onNodeFailed now node path h = h\<lparr>ch_bus := ch_bus h @ map EvElectionRequested (orphaned now node path (Manager_List (ch_manager h)))\<rparr>"
proof -
  have "fold (\<lambda>c h. fold requestElection (orphanedReplicas now node path c (cap_Replicas c)) h) cs h =
      h\<lparr>ch_bus := ch_bus h @ map EvElectionRequested (orphaned now node path cs)\<rparr>" for cs and h :: "('db, 'h) CapsuleHandler"
    by (induction cs arbitrary: h) (simp_all add: fold_requestElection orphaned_def orphanedReplicas_filter)
  then show ?thesis by (simp add: onNodeFailed_def)
qed

lemma handler_call_inv:
  assumes "stateless_law eng" "handler_inv h"
  shows "handler_inv (handler_call eng D w call h)"
proof (cases call)
  case (HNodeFailed node path)
  then show ?thesis using assms(2) by (simp add: onNodeFailed_bus)
next
  case (HCrash cid)
  then show ?thesis using assms(2) handleContainerCrash_bus [of "hw_now w" cid h] by auto
next
  case (HScale ev)
  then show ?thesis using assms(2) onScaleEvent_bus [of "hw_now w" ev h] by auto
next
  case (HLost cid rid node)
  have "handler_inv (fst (withManager w (SyncStatus D (hw_now w) cid capsuleStatusAssigned) h))"
    by (rule handler_calls_inv [OF assms])
  from this handler_calls_inv(1) [OF assms(1) this] show ?thesis using HLost by (simp add: handleElectionLost_def Let_def)
qed (use assms handler_calls_inv [OF assms] in
  \<open>simp_all add: manager_call_handler_inv SetupCluster_inv Handler_LeaveCluster_inv JoinOrbit_inv Handler_Stop_inv
     dedupCleanup_inv onOrbitMessage_inv handleElectionWon_def handleElectionFailed_def\<close>)

subsection \<open>Events of the manager\<close>

lemma onManagerEvent_quiet: "quiet e \<Longrightarrow> onManagerEvent w e h = h"
  by (simp add: quiet_def onManagerEvent_def Let_def)

lemma fold_quiet: "list_all quiet es \<Longrightarrow> fold (onManagerEvent w) es h = h"
  by (induction es) (simp_all add: onManagerEvent_quiet)

lemmas event_names = EventCapsuleCreated_def EventCapsuleUpdated_def EventCapsuleReceived_def EventCapsuleDeleted_def
  EventCapsuleAnnounced_def EventCapsuleRunning_def EventCapsuleStopping_def EventCapsuleStopped_def EventCapsuleStatusChanged_def

lemma statusEventType_quiet: "me_Type e = statusEventType st \<Longrightarrow> quiet e"
  by (simp add: quiet_def statusEventType_def event_names)

lemma onLifecycleTransition_quiet:
  "\<exists>es. mg_events (onLifecycleTransition D now ev m) = mg_events m @ es \<and> list_all quiet es"
  using statusEventType_quiet
  by (auto simp: onLifecycleTransition_def emit_def Let_def split: option.split prod.split)

lemma Manager_Fire_quiet:
  "\<exists>es. mg_events (fst (Manager_Fire eng D now cid t m)) = mg_events m @ es \<and> list_all quiet es"
proof -
  have "\<exists>es. mg_events (onLifecycleTransition D now ev (m\<lparr>mg_lifecycles := l\<rparr>)) = mg_events m @ es \<and> list_all quiet es" for ev l
    using onLifecycleTransition_quiet [of D now ev "m\<lparr>mg_lifecycles := l\<rparr>"] by simp
  then show ?thesis by (simp add: Manager_Fire_def split: option.split prod.split sum.split)
qed

lemma Manager_Create_events:
  assumes "Manager_Create eng D cid now clusterID spec m = (m', None)"
  shows "\<exists>es. mg_events m' = mg_events m @ \<lparr>me_Type = EventCapsuleCreated, me_CapsuleID = cid,
      me_Capsule = created_capsule cid now clusterID (DefaultSpec spec), me_Timestamp = now\<rparr> # es \<and> list_all quiet es"
proof -
  let ?c = "created_capsule cid now clusterID (DefaultSpec spec)"
  have c: "?c\<lparr>cap_CreatedAt := now, cap_UpdatedAt := now\<rparr> = ?c" "cap_ID ?c = cid" by (simp_all add: created_capsule_def)
  obtain s err where new: "store_new D now ?c (mg_store m) = (s, err)" by force
  let ?m = "m\<lparr>mg_store := s, mg_lifecycles := mput cid (NewLifecycle cid capsuleStatusCreated) (mg_lifecycles m),
    mg_metrics := IncCreated (mg_metrics m)\<rparr>"
  have "m' = fst (Manager_Fire eng D now cid TriggerAnnounce (emit now EventCapsuleCreated ?c ?m))"
    using assms new by (auto simp: Manager_Create_def Announce_def Let_def c(1) split: if_splits option.splits prod.splits)
  then show ?thesis
    using Manager_Fire_quiet [of eng D now cid TriggerAnnounce "emit now EventCapsuleCreated ?c ?m"] c(2)
    by (auto simp: emit_def)
qed

lemma Manager_Receive_events:
  assumes "Manager_Receive D now c m = (m', None)"
  shows "\<exists>c'. mg_events m' = mg_events m @ [\<lparr>me_Type = EventCapsuleReceived, me_CapsuleID = cap_ID c, me_Capsule = c', me_Timestamp = now\<rparr>] \<and>
    cap_ID c' = cap_ID c \<and> cap_ClusterID c' = cap_ClusterID c \<and> cap_Spec c' = cap_Spec c"
  using assms by (auto simp: Manager_Receive_def emit_def Let_def split: if_splits option.splits prod.splits)

subsection \<open>Creation and reception\<close>

lemma replicaSlotID_nonneg: "0 \<le> i \<Longrightarrow> 0 \<le> j \<Longrightarrow> replicaSlotID i = replicaSlotID j \<longleftrightarrow> i = j"
proof
  assume ij: "0 \<le> i" "0 \<le> j" "replicaSlotID i = replicaSlotID j"
  then have "digitsVal 0 (natDigits (nat i)) = digitsVal 0 (natDigits (nat j))" by (simp add: replicaSlotID_def Sprintf_d_def)
  then have "nat i = nat j" using natDigits_props by metis
  then show "i = j" using ij by simp
qed simp

lemma initialRequests_distinct: "distinct (map eq_ReplicaID (initialRequests now c))"
  by (auto simp: initialRequests_def initialRequest_def o_def distinct_map inj_on_def replicaSlotID_nonneg)

lemma announceCapsule_bus:
  "(ch_bus (announceCapsule w c h) = ch_bus h \<or> ch_bus (announceCapsule w c h) =
      ch_bus h @ [EvCapsuleAnnounced (cap_ID c) (spec_Name (cap_Spec c)) (spec_Orbit (cap_Spec c)) (cap_ClusterID c)]) \<and>
   ch_scaling (announceCapsule w c h) = ch_scaling h"
  by (simp add: announceCapsule_def Let_def split: option.split prod.split)

lemma registerScaling_bus [simp]: "ch_bus (registerScaling c h) = ch_bus h"
  by (simp add: registerScaling_def split: sum.split)

lemma initialRequests_cong:
  "cap_ID c' = cap_ID c \<Longrightarrow> cap_ClusterID c' = cap_ClusterID c \<Longrightarrow> spec_Replicas (cap_Spec c') = spec_Replicas (cap_Spec c) \<Longrightarrow>
   initialRequests now c' = initialRequests now c"
  by (simp add: initialRequests_def initialRequest_def)

lemma received_capsule:
  assumes "normalAnnouncement p = normalAnnouncement (announcementOf c a)"
  obtains c' where "protoToCapsule (pa_Capsule p) = Some c'" "cap_ID c' = cap_ID c" "cap_ClusterID c' = cap_ClusterID c"
    "spec_Replicas (cap_Spec c') = spec_Replicas (cap_Spec c)"
proof -
  from assms obtain pc where pc: "pa_Capsule p = Some pc" "normalCapsule pc = normalCapsule (capsuleToProto c)"
    by (cases p; cases "pa_Capsule p") (auto simp: normalAnnouncement_def announcementOf_def)
  have ids: "pc_Id pc = cap_ID c" "pc_ClusterId pc = cap_ClusterID c"
    using arg_cong [OF pc(2), of pc_Id] arg_cong [OF pc(2), of pc_ClusterId] by (simp_all add: normalCapsule_def capsuleToProto_def)
  have "map_option normalSpec (pc_Spec pc) = Some (normalSpec (specToProto (cap_Spec c)))"
    using arg_cong [OF pc(2), of pc_Spec] by (simp add: normalCapsule_def capsuleToProto_def)
  then obtain sp where sp: "pc_Spec pc = Some sp" "normalSpec sp = normalSpec (specToProto (cap_Spec c))" by auto
  have "psp_Replicas sp = psp_Replicas (specToProto (cap_Spec c))"
    using arg_cong [OF sp(2), of psp_Replicas] by (simp add: normalSpec_def)
  then have "spec_Replicas (protoToSpec sp) = spec_Replicas (cap_Spec c)"
    by (simp add: protoToSpec_def specToProto_def Let_def split: option.split)
  then show thesis using that pc(1) sp(1) ids by (simp add: protoToCapsule_def)
qed

lemma receive_requests:
  assumes "Manager_Receive D (hw_now w) c (ch_manager h) = (m', None)"
  shows "electionsOf (ch_bus (fst (withManager w (Manager_Receive D (hw_now w) c) h))) =
    electionsOf (ch_bus h) @ initialRequests (hw_now w) c"
proof -
  from Manager_Receive_events [OF assms] obtain c' where ev: "mg_events m' = mg_events (ch_manager h) @
      [\<lparr>me_Type = EventCapsuleReceived, me_CapsuleID = cap_ID c, me_Capsule = c', me_Timestamp = hw_now w\<rparr>]"
    and c': "cap_ID c' = cap_ID c" "cap_ClusterID c' = cap_ClusterID c" "cap_Spec c' = cap_Spec c" by blast
  then show ?thesis using assms initialRequests_cong [of c' c "hw_now w"]
    by (simp add: withManager_def Let_def onManagerEvent_def requestInitialElections_bus event_names)
qed

subsection \<open>Outcomes of elections\<close>

lemma SyncStatus_view:
  assumes "mg_inv m" "Manager_Get m cid = Some c" "Status_Valid st"
  shows "Manager_Get (fst (SyncStatus D now cid st m)) cid = Some (c\<lparr>cap_Status := st, cap_UpdatedAt := now\<rparr>)"
proof -
  obtain a where a: "Store_Get (mg_store m) cid = Some a" "deref (mg_store m) a = c"
    using assms(2) by (auto simp: Manager_Get_def view_def)
  let ?f = "\<lambda>c. c\<lparr>cap_Status := st, cap_UpdatedAt := now\<rparr>"
  obtain s' e where run: "store_mutate D now ?f a (mg_store m) = (s', e)" by force
  note props = mutate_props [OF assms(1) a(1) _ run]
  have "mg_store (fst (SyncStatus D now cid st m)) = s'"
    using assms(3) a run by (simp add: SyncStatus_def Let_def split: option.split)
  then show ?thesis using props(2) a(2) by (simp add: Manager_Get_def)
qed

lemma AssignReplica_view:
  assumes "mg_inv m" "Manager_Get m cid = Some c"
  shows "Manager_Get (fst (AssignReplica D now cid rid node m)) cid =
    Some (c\<lparr>cap_Replicas := assign_replica now rid node (cap_Replicas c), cap_UpdatedAt := now\<rparr>)"
proof -
  obtain a where a: "Store_Get (mg_store m) cid = Some a" "deref (mg_store m) a = c"
    using assms(2) by (auto simp: Manager_Get_def view_def)
  let ?f = "\<lambda>c. c\<lparr>cap_Replicas := assign_replica now rid node (cap_Replicas c), cap_UpdatedAt := now\<rparr>"
  obtain s' e where run: "store_mutate D now ?f a (mg_store m) = (s', e)" by force
  note props = mutate_props [OF assms(1) a(1) _ run]
  have "mg_store (fst (AssignReplica D now cid rid node m)) = s'" using a run by (simp add: AssignReplica_def)
  then show ?thesis using props(2) a(2) by (simp add: Manager_Get_def)
qed

lemma withManager_manager:
  "stateless_law eng \<Longrightarrow> handler_inv h \<Longrightarrow>
   ch_manager (fst (withManager w (AssignReplica D now cid rid node) h)) = fst (AssignReplica D now cid rid node (ch_manager h))"
  "stateless_law eng \<Longrightarrow> handler_inv h \<Longrightarrow>
   ch_manager (fst (withManager w (SyncStatus D now cid st) h)) = fst (SyncStatus D now cid st (ch_manager h))"
proof -
  assume law: "stateless_law eng" and inv: "handler_inv h"
  then have m: "mg_inv (ch_manager h)" by (simp add: handler_inv_def)
  have "mg_inv (fst (AssignReplica D now cid rid node (ch_manager h)))"
    using manager_call_inv [OF law m, of D now "CallAssign cid rid node"] by (metis manager_call.simps(6) prod.collapse)
  then show "ch_manager (fst (withManager w (AssignReplica D now cid rid node) h)) = fst (AssignReplica D now cid rid node (ch_manager h))"
    using withManager_inv [OF inv] by blast
  have "mg_inv (fst (SyncStatus D now cid st (ch_manager h)))"
    using manager_call_inv [OF law m, of D now "CallSync cid st"] by (metis manager_call.simps(7) prod.collapse)
  then show "ch_manager (fst (withManager w (SyncStatus D now cid st) h)) = fst (SyncStatus D now cid st (ch_manager h))"
    using withManager_inv [OF inv] by blast
qed

lemma won_view:
  assumes "stateless_law eng" "handler_inv h" "Manager_Get (ch_manager h) cid = Some c"
  shows "Manager_Get (ch_manager (handleElectionWon D w cid rid node h)) cid =
    Some (c\<lparr>cap_Replicas := assign_replica (hw_now w) rid node (cap_Replicas c), cap_UpdatedAt := hw_now w\<rparr>)"
proof -
  have "mg_inv (ch_manager h)" using assms(2) by (simp add: handler_inv_def)
  then show ?thesis
    using AssignReplica_view [OF _ assms(3)] withManager_manager(1) [OF assms(1,2)] by (simp add: handleElectionWon_def)
qed

lemma lost_view:
  assumes "stateless_law eng" "handler_inv h" "Manager_Get (ch_manager h) cid = Some c" "winner \<noteq> ''''"
  shows "\<exists>c'. Manager_Get (ch_manager (handleElectionLost D w cid rid winner h)) cid = Some c' \<and>
    cap_Status c' = capsuleStatusAssigned \<and> cap_Replicas c' = assign_replica (hw_now w) rid winner (cap_Replicas c)"
proof -
  let ?h = "fst (withManager w (SyncStatus D (hw_now w) cid capsuleStatusAssigned) h)"
  have m: "mg_inv (ch_manager h)" using assms(2) by (simp add: handler_inv_def)
  have inv: "handler_inv ?h" by (rule handler_calls_inv [OF assms(1,2)])
  have "Manager_Get (ch_manager ?h) cid = Some (c\<lparr>cap_Status := capsuleStatusAssigned, cap_UpdatedAt := hw_now w\<rparr>)"
    using SyncStatus_view [OF m assms(3)] withManager_manager(2) [OF assms(1,2)] by (simp add: Status_Valid_def)
  from won_view [OF assms(1) inv this, of D w rid winner] show ?thesis
    using assms(4) by (simp add: handleElectionLost_def handleElectionWon_def Let_def)
qed

lemma highestSlot_attained: "highestSlot h rs = h \<or> (\<exists>r \<in> set rs. parseReplicaSlot (rs_ReplicaID r) = highestSlot h rs)"
proof (induction rs arbitrary: h)
  case (Cons r rs)
  show ?case using Cons.IH [of "if parseReplicaSlot (rs_ReplicaID r) > h then parseReplicaSlot (rs_ReplicaID r) else h"]
    by (auto simp: Let_def split: if_splits)
qed simp

subsection \<open>The concrete runs\<close>

lemma NewHandler_inv: "mg_inv m \<Longrightarrow> handler_inv (NewCapsuleHandler m registry nodeID signer verifier)"
  by (simp add: handler_inv_def NewCapsuleHandler_def)

lemma NewManager_NewStore_inv: "mg_inv (NewManager NewStore)"
  by (rule NewManager_inv) (simp add: NewStore_def wf_store_def)

lemma sample_handler_inv: "handler_inv sample_handler"
  unfolding sample_handler_def by (intro handler_call_inv [OF table_engine_law] NewHandler_inv NewManager_NewStore_inv)

lemma receive_sample:
  "snd (Manager_Receive rows_db t c (NewManager NewStore)) = None"
  "Manager_Get (fst (Manager_Receive rows_db t c (NewManager NewStore))) (cap_ID c) = Some (c\<lparr>cap_CreatedAt := t, cap_UpdatedAt := t\<rparr>)"
  by (auto simp: Manager_Receive_def NewManager_def NewStore_def Store_Get_def store_new_def new_capsule_def
      Store_Create_def deref_def poke_def Let_def Manager_Get_def view_def emit_def Store_List_def mput_def)

lemma sample_handler_get:
  "Manager_Get (ch_manager sample_handler) ''c1'' = Some (sample_capsule\<lparr>cap_CreatedAt := 5, cap_UpdatedAt := 5\<rparr>)"
proof -
  let ?h = "NewCapsuleHandler (NewManager NewStore) NewInMemoryRegistry ''n1'' None (Some (\<lambda>_ sender _ sig. sender = ''n2'' \<and> sig = ''s'')) :: (row list, string) CapsuleHandler"
  obtain m r where m: "manager_call table_engine rows_db 5 (CallReceive sample_capsule) (ch_manager ?h) = (m, r)" by force
  have "mg_inv m" using manager_call_inv [OF table_engine_law _ m] NewManager_NewStore_inv by (simp add: NewCapsuleHandler_def)
  moreover have "handler_inv ?h" by (rule NewHandler_inv [OF NewManager_NewStore_inv])
  ultimately have "ch_manager sample_handler = m"
    using withManager_inv [of ?h "manager_call table_engine rows_db 5 (CallReceive sample_capsule)" sample_world] m
    unfolding sample_handler_def handler_call.simps by (simp add: sample_world_def)
  then show ?thesis using receive_sample(2) [of 5 sample_capsule] m by (simp add: NewCapsuleHandler_def sample_capsule_def)
qed

section \<open>Properties\<close>

text \<open>
  C8. The state of the handler stays consistent. After any sequence of API calls, cluster joins and leaves, received
  messages, election outcomes, node failures and ticks, the invariant of the capsule manager holds, exactly the
  clusters with an orbit manager have an announcer and a deduplicator, and every orbit belongs to its cluster and
  to this node.
\<close>

theorem handler_invariant:
  assumes "stateless_law eng" and "mg_inv m"
  shows "handler_inv (fold (\<lambda>(w, call). handler_call eng D w call) calls (NewCapsuleHandler m registry nodeID signer verifier))"
proof -
  have "handler_inv h \<Longrightarrow> handler_inv (fold (\<lambda>(w, call). handler_call eng D w call) calls h)" for h
    by (induction calls arbitrary: h) (auto simp: handler_call_inv [OF assms(1)])
  moreover have "handler_inv (NewCapsuleHandler m registry nodeID signer verifier)"
    using assms(2) by (simp add: handler_inv_def NewCapsuleHandler_def)
  ultimately show ?thesis by blast
qed

theorem handler_invariant_witness:
  "handler_inv (fold (\<lambda>(w, call). handler_call table_engine rows_db w call)
     [(\<lparr>hw_now = 5, hw_codec = sampleOrbitCodec 0, hw_hash = id, hw_net = Map.empty\<rparr>, HJoin None None ''eu/dc1/prod'' ''edge''),
      (\<lparr>hw_now = 6, hw_codec = sampleOrbitCodec 0, hw_hash = id, hw_net = Map.empty\<rparr>, HMessage ''eu/dc1/prod'' ''m'')]
     (NewCapsuleHandler (NewManager NewStore) NewInMemoryRegistry ''n1'' None None))"
  by (rule handler_invariant [OF table_engine_law NewManager_inv]) (simp add: NewStore_def wf_store_def)



text \<open>
  C9. Gossip starts the same elections everywhere. If one node announces a capsule, a node that receives the bytes
  within 30 seconds, has not seen them, knows the sender's key and can store the capsule requests exactly the
  elections that the originator requested: for the same slots of the same capsule in the same cluster. It does so
  whether or not it knew the capsule, so the announcement of an update starts the elections again.
\<close>

theorem gossip_same_elections:
  assumes "orbit_codec_law (hw_codec w)" and "Orbit_Announce (hw_codec w) now e c a om = (None, om')"
    and "an_signer a = Some sign" and "map_of (ch_announcers h) path = Some b" and "map_of (ch_dedups h) path = Some d"
    and "an_verifier b = Some verify" and "\<And>content sig. sign content = Inr sig \<Longrightarrow> sig \<noteq> [] \<and> verify (an_nodeID a) content sig"
    and "hw_now w - now \<le> MaxMessageAge"
    and "\<And>c'. cap_ID c' = cap_ID c \<Longrightarrow> snd (Manager_Receive D (hw_now w) c' (ch_manager h)) = None"
  shows "\<exists>topic data. om_sent om' = om_sent om @ [(topic, data)] \<and>
    (map_of (dd_seen d) (hw_hash w data) = None \<longrightarrow>
       electionsOf (ch_bus (onOrbitMessage D w path data h)) = electionsOf (ch_bus h) @ initialRequests (hw_now w) c)"
proof -
  from announcement_delivered [OF assms(1,2,3,6,7,8)] obtain topic data p
    where sent: "om_sent om' = om_sent om @ [(topic, data)]" and p: "normalAnnouncement p = normalAnnouncement (announcementOf c a)"
    and ok: "map_of (dd_seen d) (hw_hash w data) = None \<Longrightarrow>
      fst (HandleMessage (hw_codec w) (hw_hash w) (hw_now w) data b d) = Inr (''announcement'', PAnnouncement p)" by blast
  from received_capsule [OF p] obtain c' where c': "protoToCapsule (pa_Capsule p) = Some c'" "cap_ID c' = cap_ID c"
    "cap_ClusterID c' = cap_ClusterID c" "spec_Replicas (cap_Spec c') = spec_Replicas (cap_Spec c)" .
  have "electionsOf (ch_bus (onOrbitMessage D w path data h)) = electionsOf (ch_bus h) @ initialRequests (hw_now w) c"
    if new: "map_of (dd_seen d) (hw_hash w data) = None"
  proof -
    obtain d' where r: "HandleMessage (hw_codec w) (hw_hash w) (hw_now w) data b d = (Inr (''announcement'', PAnnouncement p), d')"
      using ok [OF new] by (metis prod.collapse)
    let ?h = "h\<lparr>ch_dedups := mput path d' (ch_dedups h)\<rparr>"
    obtain m' where "Manager_Receive D (hw_now w) c' (ch_manager ?h) = (m', None)"
      using assms(9) [OF c'(2)] by (cases "Manager_Receive D (hw_now w) c' (ch_manager h)") auto
    from receive_requests [OF this] show ?thesis
      using assms(4,5) r c' initialRequests_cong [of c' c "hw_now w"] by (simp add: onOrbitMessage_def Let_def)
  qed
  with sent show ?thesis by (intro exI [of _ topic] exI [of _ data] conjI impI)
qed

theorem gossip_same_elections_witness:
  "electionsOf (ch_bus (onOrbitMessage rows_db (sample_world\<lparr>hw_codec := announcement_codec\<rparr>) ''eu/dc1/prod'' ''m''
     (SetupCluster ''eu/dc1/prod'' (NewCapsuleHandler (NewManager NewStore) NewInMemoryRegistry ''n1'' None
       (Some (\<lambda>_ sender _ sig. sender = ''n2'' \<and> sig = ''s'')))))) = initialRequests 5 sample_capsule"
proof -
  let ?w = "sample_world\<lparr>hw_codec := announcement_codec\<rparr>"
  let ?v = "\<lambda>(_ :: string) sender (_ :: string) sig. sender = ''n2'' \<and> sig = ''s''"
  let ?h = "SetupCluster ''eu/dc1/prod'' (NewCapsuleHandler (NewManager NewStore) NewInMemoryRegistry ''n1'' None (Some ?v)) :: (row list, string) CapsuleHandler"
  let ?om = "\<lparr>om_clusterPath = ''eu/dc1/prod'', om_nodeID = ''n2'', om_orbits = [('''', \<lparr>oe_topic = ''t'', oe_live = True\<rparr>)], om_cancelled = False, om_sent = []\<rparr>"
  have law: "orbit_codec_law (hw_codec ?w)" by (auto simp: orbit_codec_law_def announcement_codec_def Let_def split: if_splits)
  have "spec_Orbit (cap_Spec sample_capsule) = ''''" by (simp add: sample_capsule_def zeroSpec_def)
  then have ann: "Orbit_Announce (hw_codec ?w) 3 None sample_capsule sample_sender ?om = (None, ?om\<lparr>om_sent := [(''t'', ''m'')]\<rparr>)"
    by (simp add: Orbit_Announce_def sendPayload_def announcement_codec_def buildSignedMessage_def Orbit_Publish_def sample_sender_def Let_def)
  have h: "map_of (ch_announcers ?h) ''eu/dc1/prod'' = Some \<lparr>an_nodeID = ''n1'', an_signer = None, an_verifier = Some (?v ''eu/dc1/prod'')\<rparr>"
    "map_of (ch_dedups ?h) ''eu/dc1/prod'' = Some NewDeduplicator" "ch_manager ?h = NewManager NewStore" "ch_bus ?h = []"
    by (simp_all add: SetupCluster_def NewCapsuleHandler_def)
  have "\<exists>topic data. om_sent (?om\<lparr>om_sent := [(''t'', ''m'')]\<rparr>) = om_sent ?om @ [(topic, data)] \<and>
      (map_of (dd_seen NewDeduplicator) (hw_hash ?w data) = None \<longrightarrow>
        electionsOf (ch_bus (onOrbitMessage rows_db ?w ''eu/dc1/prod'' data ?h)) = electionsOf (ch_bus ?h) @ initialRequests (hw_now ?w) sample_capsule)"
    by (rule gossip_same_elections [OF law ann _ h(1,2), of "\<lambda>_. Inr ''s''" "?v ''eu/dc1/prod''"])
      (simp_all add: sample_sender_def sample_world_def MaxMessageAge_def h(3) receive_sample)
  then show ?thesis by (simp add: NewDeduplicator_def sample_world_def h(4))
qed

text \<open>
  A scale-up never reuses a slot. As long as the slot numbers of a capsule are below the largest \<^verbatim>\<open>int32\<close>, the
  identifier that \<^verbatim>\<open>nextReplicaSlot\<close> returns belongs to none of its replicas, whatever their identifiers are, and it
  parses to a larger number than all of them.
\<close>

theorem nextReplicaSlot_fresh:
  assumes "\<forall>r \<in> set (cap_Replicas c). parseReplicaSlot (rs_ReplicaID r) < 2147483647"
  shows "nextReplicaSlot c \<notin> set (map rs_ReplicaID (cap_Replicas c)) \<and>
    (\<forall>r \<in> set (cap_Replicas c). parseReplicaSlot (rs_ReplicaID r) < parseReplicaSlot (nextReplicaSlot c))"
proof -
  let ?n = "highestSlot (- 1) (cap_Replicas c)"
  have top: "- 1 \<le> ?n" "\<And>r. r \<in> set (cap_Replicas c) \<Longrightarrow> parseReplicaSlot (rs_ReplicaID r) \<le> ?n"
    using highestSlot_props [of "- 1" "cap_Replicas c"] by auto
  have "?n < 2147483647" using highestSlot_attained [of "- 1" "cap_Replicas c"] assms by fastforce
  then have range: "in_s32 (?n + 1)" "in_s64 (?n + 1)" using top(1) by (auto simp: in_s32_def in_s64_def)
  then have next': "nextReplicaSlot c = replicaSlotID (?n + 1)" by (simp add: nextReplicaSlot_def)
  then have parse: "parseReplicaSlot (nextReplicaSlot c) = ?n + 1" using parseReplicaSlot_replicaSlotID [OF range(2)] by simp
  have less: "parseReplicaSlot (rs_ReplicaID r) < parseReplicaSlot (nextReplicaSlot c)" if "r \<in> set (cap_Replicas c)" for r
    using top(2) [OF that] parse by simp
  then show ?thesis by fastforce
qed

theorem nextReplicaSlot_fresh_witness:
  "nextReplicaSlot (sample_capsule\<lparr>cap_Replicas := [\<lparr>rs_ReplicaID = ''7'', rs_NodeID = ''n1'', rs_Status = ''running'', rs_StartedAt = 1\<rparr>]\<rparr>) \<noteq> ''7''"
proof -
  let ?c = "sample_capsule\<lparr>cap_Replicas := [\<lparr>rs_ReplicaID = ''7'', rs_NodeID = ''n1'', rs_Status = ''running'', rs_StartedAt = 1\<rparr>]\<rparr>"
  have "parseReplicaSlot ''7'' = 7" by code_simp
  then show ?thesis using nextReplicaSlot_fresh [of ?c] by simp
qed

text \<open>
  C10. The winner and the losers of an election record the same assignment. When a node that knows the capsule handles
  the event of its won round, and another one the event of the round it lost to that node, both have the slot of
  the replica assigned to the winner, and the loser has the capsule in state assigned, whatever their databases
  answer.
\<close>

theorem election_outcome_agreement:
  assumes "stateless_law eng" and "handler_inv hw" and "handler_inv hl"
    and "Manager_Get (ch_manager hw) cid \<noteq> None" and "Manager_Get (ch_manager hl) cid \<noteq> None" and "winner \<noteq> ''''"
  shows "\<exists>cw cl rw rl. Manager_Get (ch_manager (handleElectionWon D w cid rid winner hw)) cid = Some cw \<and>
    Manager_Get (ch_manager (handleElectionLost D' w' cid rid winner hl)) cid = Some cl \<and>
    replica_map (cap_Replicas cw) rid = Some rw \<and> replica_map (cap_Replicas cl) rid = Some rl \<and>
    rs_NodeID rw = winner \<and> rs_NodeID rl = winner \<and> rs_Status rw = rs_Status rl \<and> cap_Status cl = capsuleStatusAssigned"
proof -
  obtain c c' where c: "Manager_Get (ch_manager hw) cid = Some c" "Manager_Get (ch_manager hl) cid = Some c'" using assms(4,5) by blast
  obtain cl where "Manager_Get (ch_manager (handleElectionLost D' w' cid rid winner hl)) cid = Some cl"
    "cap_Status cl = capsuleStatusAssigned" "cap_Replicas cl = assign_replica (hw_now w') rid winner (cap_Replicas c')"
    using lost_view [OF assms(1,3) c(2) assms(6)] by blast
  then show ?thesis using won_view [OF assms(1,2) c(1), of D w rid winner] by (simp add: assign_replica_map)
qed

theorem election_outcome_agreement_witness:
  "\<exists>cw cl rw rl. Manager_Get (ch_manager (handleElectionWon rows_db sample_world ''c1'' ''0'' ''n1'' sample_handler)) ''c1'' = Some cw \<and>
    Manager_Get (ch_manager (handleElectionLost rows_db sample_world ''c1'' ''0'' ''n1'' sample_handler)) ''c1'' = Some cl \<and>
    replica_map (cap_Replicas cw) ''0'' = Some rw \<and> replica_map (cap_Replicas cl) ''0'' = Some rl \<and> rs_NodeID rw = rs_NodeID rl"
proof -
  have "Manager_Get (ch_manager sample_handler) ''c1'' \<noteq> None" by (simp add: sample_handler_get)
  from election_outcome_agreement [OF table_engine_law sample_handler_inv sample_handler_inv this this, of "''n1''" rows_db sample_world "''0''"]
  show ?thesis by fastforce
qed

text \<open>
  C40. A failed node is replaced, but in the wrong cluster if it was in several. For every stored capsule with a replica
  on the failed node, \<^verbatim>\<open>onNodeFailed\<close> requests an election for that slot that excludes the failed node, and the
  request names the cluster in which the node failed, also when the capsule belongs to another one.
\<close>

theorem node_failure_reelects:
  assumes "handler_inv h" and "Manager_Get (ch_manager h) cid = Some c" and "r \<in> set (cap_Replicas c)" and "rs_NodeID r = node"
  shows "\<exists>q \<in> set (electionsOf (ch_bus (onNodeFailed now node path h))). eq_CapsuleID q = cid \<and> eq_ReplicaID q = rs_ReplicaID r \<and>
    eq_PreviousNodeID q = node \<and> eq_Reason q = reasonNodeFailure \<and> eq_ClusterPath q = path"
proof -
  have wf: "wf_store (mg_store (ch_manager h))" using assms(1) by (simp add: handler_inv_def mg_inv_def)
  obtain a where a: "Store_Get (mg_store (ch_manager h)) cid = Some a" "deref (mg_store (ch_manager h)) a = c"
    using assms(2) by (auto simp: Manager_Get_def view_def)
  have "cap_ID c = cid" using view_ID [OF wf] assms(2) by (simp add: Manager_Get_def)
  moreover have "c \<in> set (Manager_List (ch_manager h))"
    using a by (force simp: Manager_List_def Store_List_def Store_Get_def dest: map_of_SomeD)
  ultimately show ?thesis using assms(3,4) by (force simp: onNodeFailed_bus orphaned_def)
qed

theorem node_failure_reelects_witness:
  "\<exists>q \<in> set (electionsOf (ch_bus (onNodeFailed 9 ''n2'' ''us/dc7/test''
     (handleElectionWon rows_db sample_world ''c1'' ''0'' ''n2'' sample_handler)))). eq_CapsuleID q = ''c1'' \<and> eq_ClusterPath q = ''us/dc7/test''"
proof -
  let ?h = "handleElectionWon rows_db sample_world ''c1'' ''0'' ''n2'' sample_handler"
  have "handler_inv ?h" using handler_call_inv [OF table_engine_law sample_handler_inv, of rows_db sample_world "HWon ''c1'' ''0'' ''n2''"] by simp
  from node_failure_reelects [OF this won_view [OF table_engine_law sample_handler_inv sample_handler_get],
      of "\<lparr>rs_ReplicaID = ''0'', rs_NodeID = ''n2'', rs_Status = capsuleStatusAssigned, rs_StartedAt = 5\<rparr>" "''n2''" 9 "''us/dc7/test''"]
  show ?thesis by (auto simp: sample_capsule_def sample_world_def)
qed

end
