(* ===== verification/Gravity.thy ===== *)
theory Gravity
  imports Go_Float Capsule_Types
begin

text \<open>
  The package \<^verbatim>\<open>src/election/gravity\<close>: node state, weights, the eligibility filter, the factors and the
  calculator. The two lookups of the calculator are interfaces of the source (\<^verbatim>\<open>CapsuleTargetLookup\<close>,
  \<^verbatim>\<open>SnapshotLookup\<close>); they are functions here, \<open>None\<close> when the calculator has none. A factor
  that does not apply is \<open>None\<close>. Every floating-point operation rounds (\<^verbatim>\<open>Go_Float\<close>); a multiplication
  followed by an addition rounds twice, as the source compiles on the platforms without fused
  multiply-add.
\<close>

section \<open>Definitions\<close>

subsection \<open>State\<close>

type_synonym NodeStatus = string

definition nodeStatusActive :: NodeStatus where "nodeStatusActive = ''active''"
definition nodeStatusSuspected :: NodeStatus where "nodeStatusSuspected = ''suspected''"
definition nodeStatusQuarantined :: NodeStatus where "nodeStatusQuarantined = ''quarantined''"
definition nodeStatusFailed :: NodeStatus where "nodeStatusFailed = ''failed''"

definition IsHealthy :: "NodeStatus \<Rightarrow> bool" where
  "IsHealthy s \<longleftrightarrow> s = nodeStatusActive"

record Resources =
  CPUCoresTotal :: int
  CPUCoresFree :: int
  MemoryMBTotal :: int
  MemoryMBFree :: int
  DiskMBTotal :: int
  DiskMBFree :: int

definition CPUUtilization :: "Resources \<Rightarrow> f64" where
  "CPUUtilization r = (if CPUCoresTotal r \<le> 0 then 0
     else let used = s32 (CPUCoresTotal r - CPUCoresFree r);
              used = (if used < 0 then 0 else used)
          in fdiv (of_integer used) (of_integer (CPUCoresTotal r)))"

definition MemoryUtilization :: "Resources \<Rightarrow> f64" where
  "MemoryUtilization r = (if MemoryMBTotal r \<le> 0 then 0
     else let used = s64 (MemoryMBTotal r - MemoryMBFree r);
              used = (if used < 0 then 0 else used)
          in fdiv (of_integer used) (of_integer (MemoryMBTotal r)))"

definition DiskUtilization :: "Resources \<Rightarrow> f64" where
  "DiskUtilization r = (if DiskMBTotal r \<le> 0 then 0
     else let used = s64 (DiskMBTotal r - DiskMBFree r);
              used = (if used < 0 then 0 else used)
          in fdiv (of_integer used) (of_integer (DiskMBTotal r)))"

record NodeState =
  ns_NodeID :: string
  ns_ClusterPath :: string
  ns_Datacenter :: string
  ns_Region :: string
  ns_Labels :: labels
  ns_Resources :: Resources
  ns_Status :: NodeStatus
  ns_ReliabilityScore :: f64
  ns_RunningCapsuleCount :: int

type_synonym CapsuleTargetLookup = "string \<Rightarrow> string \<Rightarrow> string list"
type_synonym SnapshotLookup = "string \<Rightarrow> string \<Rightarrow> bool"

subsection \<open>Weights\<close>

record Weights =
  w_CPUHeadroom :: f64
  w_MemoryHeadroom :: f64
  w_DiskHeadroom :: f64
  w_SoftPlacementMatch :: f64
  w_AffinityProximity :: f64
  w_HardwareLabelMatch :: f64
  w_LoadPenalty :: f64
  w_Reliability :: f64
  w_Diversity :: f64
  w_SnapshotLocality :: f64

definition DefaultWeights :: Weights where
  "DefaultWeights = \<lparr>w_CPUHeadroom = 1, w_MemoryHeadroom = 1, w_DiskHeadroom = f64 (1 / 2),
     w_SoftPlacementMatch = f64 (3 / 10), w_AffinityProximity = f64 (8 / 10),
     w_HardwareLabelMatch = f64 (2 / 10), w_LoadPenalty = f64 (5 / 10), w_Reliability = f64 (4 / 10),
     w_Diversity = f64 (2 / 10), w_SnapshotLocality = f64 (6 / 10)\<rparr>"

definition override :: "f64 \<Rightarrow> f64 \<Rightarrow> f64" where
  "override base over = (if over \<noteq> 0 then over else base)"

definition Weights_Merge :: "Weights \<Rightarrow> Weights \<Rightarrow> Weights" where
  "Weights_Merge w over =
     \<lparr>w_CPUHeadroom = override (w_CPUHeadroom w) (w_CPUHeadroom over),
      w_MemoryHeadroom = override (w_MemoryHeadroom w) (w_MemoryHeadroom over),
      w_DiskHeadroom = override (w_DiskHeadroom w) (w_DiskHeadroom over),
      w_SoftPlacementMatch = override (w_SoftPlacementMatch w) (w_SoftPlacementMatch over),
      w_AffinityProximity = override (w_AffinityProximity w) (w_AffinityProximity over),
      w_HardwareLabelMatch = override (w_HardwareLabelMatch w) (w_HardwareLabelMatch over),
      w_LoadPenalty = override (w_LoadPenalty w) (w_LoadPenalty over),
      w_Reliability = override (w_Reliability w) (w_Reliability over),
      w_Diversity = override (w_Diversity w) (w_Diversity over),
      w_SnapshotLocality = override (w_SnapshotLocality w) (w_SnapshotLocality over)\<rparr>"

definition MaxPossibleScore :: "Weights \<Rightarrow> f64" where
  "MaxPossibleScore w =
     fadd (fadd (fadd (fadd (fadd (fadd (fadd (fadd (w_CPUHeadroom w) (w_MemoryHeadroom w)) (w_DiskHeadroom w))
       (w_SoftPlacementMatch w)) (w_AffinityProximity w)) (w_HardwareLabelMatch w)) (w_Reliability w))
       (w_Diversity w)) (w_SnapshotLocality w)"

subsection \<open>Eligibility\<close>

datatype IneligibilityReason =
    ineligibilityOK
  | ineligibilityResourcesCPU
  | ineligibilityResourcesMemory
  | ineligibilityResourcesDisk
  | ineligibilityNotHealthy
  | ineligibilityPlacementRule
  | ineligibilityExcluded

record Ineligibility =
  in_Reason :: IneligibilityReason
  in_Detail :: string

definition PassedEligibility :: "Ineligibility \<Rightarrow> bool" where
  "PassedEligibility i \<longleftrightarrow> in_Reason i = ineligibilityOK"

definition containsString :: "string list \<Rightarrow> string \<Rightarrow> bool" where
  "containsString haystack needle = List.member haystack needle"

definition labelsMatchAll :: "labels \<Rightarrow> labels \<Rightarrow> bool" where
  "labelsMatchAll candidate required =
     list_all (\<lambda>(k, v). map_of (lbl candidate) k = Some v) (lbl required)"

definition matchNodeRule :: "PlacementRule \<Rightarrow> NodeState \<Rightarrow> bool" where
  "matchNodeRule rule node =
     (if length (pr_Names rule) > 0 \<and> \<not> containsString (pr_Names rule) (ns_NodeID node) then False
      else labelsMatchAll (ns_Labels node) (pr_Labels rule))"

definition matchClusterRule :: "PlacementRule \<Rightarrow> NodeState \<Rightarrow> bool" where
  "matchClusterRule rule node =
     (if length (pr_Names rule) > 0 \<and> \<not> containsString (pr_Names rule) (ns_ClusterPath node) then False
      else length (lbl (pr_Labels rule)) = 0)"

definition matchDatacenterRule :: "PlacementRule \<Rightarrow> NodeState \<Rightarrow> bool" where
  "matchDatacenterRule rule node =
     (if length (pr_Names rule) > 0 \<and> \<not> containsString (pr_Names rule) (ns_Datacenter node) then False
      else length (lbl (pr_Labels rule)) = 0)"

definition matchCapsuleRule :: "PlacementRule \<Rightarrow> NodeState \<Rightarrow> CapsuleTargetLookup option \<Rightarrow> bool" where
  "matchCapsuleRule rule node lookup = (case lookup of
     None \<Rightarrow> pr_Mode rule = placementModeAway
   | Some nodesRunning \<Rightarrow>
       if length (pr_Names rule) = 0 then pr_Mode rule = placementModeAway
       else let targetIDs = concat (map (nodesRunning (ns_ClusterPath node)) (pr_Names rule)) in
         if length targetIDs = 0 then pr_Mode rule = placementModeAway
         else let isAlsoRunner = containsString targetIDs (ns_NodeID node) in
           if pr_Mode rule = placementModeNear then isAlsoRunner
           else if pr_Mode rule = placementModeAway then \<not> isAlsoRunner
           else False)"

definition ruleMatchesNode :: "PlacementRule \<Rightarrow> NodeState \<Rightarrow> CapsuleTargetLookup option \<Rightarrow> bool" where
  "ruleMatchesNode rule node lookup =
     (if pr_Type rule = placementTypeNode then matchNodeRule rule node
      else if pr_Type rule = placementTypeCluster then matchClusterRule rule node
      else if pr_Type rule = placementTypeDatacenter then matchDatacenterRule rule node
      else if pr_Type rule = placementTypeCapsule then matchCapsuleRule rule node lookup
      else False)"

fun hardRules :: "PlacementRule list \<Rightarrow> NodeState \<Rightarrow> CapsuleTargetLookup option \<Rightarrow> Ineligibility" where
  "hardRules [] node lookup = \<lparr>in_Reason = ineligibilityOK, in_Detail = ''''\<rparr>"
| "hardRules (rule # rules) node lookup =
     (if \<not> pr_Required rule then hardRules rules node lookup
      else if \<not> ruleMatchesNode rule node lookup
        then \<lparr>in_Reason = ineligibilityPlacementRule, in_Detail = ''hard rule failed: '' @ pr_Name rule\<rparr>
      else hardRules rules node lookup)"

definition IsEligible :: "Capsule \<Rightarrow> NodeState \<Rightarrow> CapsuleTargetLookup option \<Rightarrow> Ineligibility" where
  "IsEligible c node lookup = (let need = spec_Resources (cap_Spec c); have = ns_Resources node in
     if (case lookup of None \<Rightarrow> False | Some nodesRunning \<Rightarrow>
           containsString (nodesRunning (ns_ClusterPath node) (spec_Name (cap_Spec c))) (ns_NodeID node))
     then \<lparr>in_Reason = ineligibilityExcluded,
           in_Detail = ''node '' @ ns_NodeID node @ '' is already running capsule '' @ spec_Name (cap_Spec c)\<rparr>
     else if \<not> IsHealthy (ns_Status node)
     then \<lparr>in_Reason = ineligibilityNotHealthy, in_Detail = ''node status is '' @ ns_Status node\<rparr>
     else if res_CPUCores need > 0 \<and> CPUCoresFree have < res_CPUCores need
     then \<lparr>in_Reason = ineligibilityResourcesCPU, in_Detail = ''insufficient free CPU''\<rparr>
     else if res_MemoryMB need > 0 \<and> MemoryMBFree have < res_MemoryMB need
     then \<lparr>in_Reason = ineligibilityResourcesMemory, in_Detail = ''insufficient free memory''\<rparr>
     else if res_DiskMB need > 0 \<and> DiskMBFree have < res_DiskMB need
     then \<lparr>in_Reason = ineligibilityResourcesDisk, in_Detail = ''insufficient free disk''\<rparr>
     else hardRules (spec_PlacementRules (cap_Spec c)) node lookup)"

subsection \<open>Factors\<close>

type_synonym factorContribution = "f64 option"

definition clamp01 :: "f64 \<Rightarrow> f64" where
  "clamp01 v = (if v < 0 then 0 else if v > 1 then 1 else v)"

definition applied :: "f64 \<Rightarrow> factorContribution" where
  "applied v = Some (clamp01 v)"

definition notApplicable :: factorContribution where
  "notApplicable = None"

definition factorCPUHeadroom :: "Capsule \<Rightarrow> NodeState \<Rightarrow> factorContribution" where
  "factorCPUHeadroom c node = (let required = res_CPUCores (spec_Resources (cap_Spec c)) in
     if required \<le> 0 then notApplicable
     else if CPUCoresTotal (ns_Resources node) \<le> 0 then notApplicable
     else let remaining = s32 (CPUCoresFree (ns_Resources node) - required) in
       if remaining < 0 then applied 0
       else applied (fdiv (of_integer remaining) (of_integer (CPUCoresTotal (ns_Resources node)))))"

definition factorMemoryHeadroom :: "Capsule \<Rightarrow> NodeState \<Rightarrow> factorContribution" where
  "factorMemoryHeadroom c node = (let required = res_MemoryMB (spec_Resources (cap_Spec c)) in
     if required \<le> 0 then notApplicable
     else if MemoryMBTotal (ns_Resources node) \<le> 0 then notApplicable
     else let remaining = s64 (MemoryMBFree (ns_Resources node) - required) in
       if remaining < 0 then applied 0
       else applied (fdiv (of_integer remaining) (of_integer (MemoryMBTotal (ns_Resources node)))))"

definition factorDiskHeadroom :: "Capsule \<Rightarrow> NodeState \<Rightarrow> factorContribution" where
  "factorDiskHeadroom c node = (let required = res_DiskMB (spec_Resources (cap_Spec c)) in
     if required \<le> 0 then notApplicable
     else if DiskMBTotal (ns_Resources node) \<le> 0 then notApplicable
     else let remaining = s64 (DiskMBFree (ns_Resources node) - required) in
       if remaining < 0 then applied 0
       else applied (fdiv (of_integer remaining) (of_integer (DiskMBTotal (ns_Resources node)))))"

definition ratio :: "nat \<Rightarrow> nat \<Rightarrow> f64" where
  "ratio matched n = fdiv (of_integer (int matched)) (of_integer (int n))"

definition factorSoftPlacementMatch ::
  "Capsule \<Rightarrow> NodeState \<Rightarrow> CapsuleTargetLookup option \<Rightarrow> factorContribution" where
  "factorSoftPlacementMatch c node lookup = (let
     soft = filter (\<lambda>rule. \<not> pr_Required rule) (spec_PlacementRules (cap_Spec c));
     matched = filter (\<lambda>rule. ruleMatchesNode rule node lookup) soft
     in if length soft = 0 then notApplicable else applied (ratio (length matched) (length soft)))"

definition factorAffinityProximity ::
  "Capsule \<Rightarrow> NodeState \<Rightarrow> CapsuleTargetLookup option \<Rightarrow> factorContribution" where
  "factorAffinityProximity c node lookup = (case lookup of
     None \<Rightarrow> notApplicable
   | Some nodesRunning \<Rightarrow> (let
       near = filter (\<lambda>rule. pr_Type rule = placementTypeCapsule \<and> pr_Mode rule = placementModeNear)
                (spec_PlacementRules (cap_Spec c));
       satisfied = filter (\<lambda>rule. list_ex (\<lambda>name.
                containsString (nodesRunning (ns_ClusterPath node) name) (ns_NodeID node)) (pr_Names rule)) near
     in if length near = 0 then notApplicable else applied (ratio (length satisfied) (length near))))"

definition factorHardwareLabelMatch :: "Capsule \<Rightarrow> NodeState \<Rightarrow> factorContribution" where
  "factorHardwareLabelMatch c node = (let want = lbl (spec_Labels (cap_Spec c)) in
     if length want = 0 then notApplicable
     else let matched = filter (\<lambda>(k, v). map_of (lbl (ns_Labels node)) k = Some v) want
       in applied (ratio (length matched) (length want)))"

definition factorLoadPenalty :: "NodeState \<Rightarrow> factorContribution" where
  "factorLoadPenalty node = (let
     utilization = fdiv (of_integer (ns_RunningCapsuleCount node)) 50;
     utilization = (if utilization > 1 then 1 else utilization)
     in applied (fsub 1 utilization))"

definition factorReliability :: "NodeState \<Rightarrow> factorContribution" where
  "factorReliability node = applied (ns_ReliabilityScore node)"

definition factorDiversity :: "Capsule \<Rightarrow> NodeState \<Rightarrow> factorContribution" where
  "factorDiversity c node = (let r = spec_Replicas (cap_Spec c) in
     if rc_Min r < 2 \<and> rc_Exact r < 2 then notApplicable
     else if ns_Datacenter node = '''' then applied 0 else applied 1)"

definition factorSnapshotLocality :: "Capsule \<Rightarrow> SnapshotLookup option \<Rightarrow> factorContribution" where
  "factorSnapshotLocality c snapLookup = (case snapLookup of
     None \<Rightarrow> notApplicable
   | Some hasLocal \<Rightarrow> (let
       tag = spec_ImageDigest (cap_Spec c);
       tag = (if tag = '''' then spec_Image (cap_Spec c) else tag)
     in if hasLocal (cap_ID c) tag then applied 1 else applied 0))"

subsection \<open>The calculator\<close>

record Calculator =
  calc_weights :: Weights
  calc_lookup :: "CapsuleTargetLookup option"
  calc_snapLookup :: "SnapshotLookup option"

record Result =
  gr_Score :: f64
  gr_Factors :: "(string, f64) gomap"
  gr_Weights :: Weights
  gr_Eligible :: bool
  gr_Inelig :: Ineligibility

definition NewCalculator :: Calculator where
  "NewCalculator = \<lparr>calc_weights = DefaultWeights, calc_lookup = None, calc_snapLookup = None\<rparr>"

fun addFactor :: "string \<times> factorContribution \<times> f64 \<Rightarrow> (string, f64) gomap \<times> f64 \<times> f64 \<Rightarrow>
    (string, f64) gomap \<times> f64 \<times> f64" where
  "addFactor (name, None, weight) acc = acc"
| "addFactor (name, Some v, weight) (factors, weightedSum, maxWeightedSum) =
     (mput name v factors, fadd weightedSum (fmul v weight), fadd maxWeightedSum weight)"

definition contributions :: "Calculator \<Rightarrow> Capsule \<Rightarrow> NodeState \<Rightarrow> (string \<times> factorContribution \<times> f64) list" where
  "contributions calc c node = (let w = calc_weights calc in
    [(''cpu_headroom'', factorCPUHeadroom c node, w_CPUHeadroom w),
     (''memory_headroom'', factorMemoryHeadroom c node, w_MemoryHeadroom w),
     (''disk_headroom'', factorDiskHeadroom c node, w_DiskHeadroom w),
     (''soft_placement_match'', factorSoftPlacementMatch c node (calc_lookup calc), w_SoftPlacementMatch w),
     (''affinity_proximity'', factorAffinityProximity c node (calc_lookup calc), w_AffinityProximity w),
     (''hardware_label_match'', factorHardwareLabelMatch c node, w_HardwareLabelMatch w),
     (''reliability'', factorReliability node, w_Reliability w),
     (''diversity'', factorDiversity c node, w_Diversity w),
     (''snapshot_locality'', factorSnapshotLocality c (calc_snapLookup calc), w_SnapshotLocality w)])"

definition applyLoad :: "factorContribution \<Rightarrow> f64 \<Rightarrow> (string, f64) gomap \<times> f64 \<times> f64 \<Rightarrow>
    (string, f64) gomap \<times> f64 \<times> f64" where
  "applyLoad loadFactor weight acc = (case loadFactor of
     None \<Rightarrow> acc
   | Some v \<Rightarrow> (case acc of (factors, weightedSum, maxWeightedSum) \<Rightarrow>
       (mput ''load_penalty'' v factors, fsub weightedSum (fmul (fsub 1 v) weight), fadd maxWeightedSum weight)))"

definition normalize :: "f64 \<Rightarrow> f64 \<Rightarrow> f64" where
  "normalize weightedSum maxWeightedSum = (let
     normalized = fdiv weightedSum maxWeightedSum;
     normalized = (if normalized < 0 then 0 else normalized);
     normalized = (if normalized > 1 then 1 else normalized)
     in fmul normalized 100)"

definition Calculate :: "Calculator \<Rightarrow> Capsule \<Rightarrow> NodeState \<Rightarrow> Result" where
  "Calculate calc c node = (let inelig = IsEligible c node (calc_lookup calc) in
     if \<not> PassedEligibility inelig
     then \<lparr>gr_Score = 0, gr_Factors = [], gr_Weights = calc_weights calc, gr_Eligible = False, gr_Inelig = inelig\<rparr>
     else case applyLoad (factorLoadPenalty node) (w_LoadPenalty (calc_weights calc))
            (fold addFactor (contributions calc c node) ([], 0, 0)) of
       (factors, weightedSum, maxWeightedSum) \<Rightarrow>
         \<lparr>gr_Score = (if maxWeightedSum \<le> 0 then 50 else normalize weightedSum maxWeightedSum),
          gr_Factors = factors, gr_Weights = calc_weights calc, gr_Eligible = True,
          gr_Inelig = \<lparr>in_Reason = ineligibilityOK, in_Detail = ''''\<rparr>\<rparr>)"

definition CalculateAll :: "Calculator \<Rightarrow> Capsule \<Rightarrow> NodeState list \<Rightarrow> Result list" where
  "CalculateAll calc c nodes = map (Calculate calc c) nodes"

subsection \<open>Specification\<close>

text \<open>The nodes that run one of the target capsules of a rule; none without a lookup.\<close>

definition runners :: "PlacementRule \<Rightarrow> NodeState \<Rightarrow> CapsuleTargetLookup option \<Rightarrow> string set" where
  "runners rule node lookup = (case lookup of None \<Rightarrow> {}
     | Some L \<Rightarrow> \<Union>name \<in> set (pr_Names rule). set (L (ns_ClusterPath node) name))"

definition named :: "PlacementRule \<Rightarrow> string \<Rightarrow> bool" where
  "named rule x \<longleftrightarrow> pr_Names rule = [] \<or> x \<in> set (pr_Names rule)"

definition rule_ok :: "PlacementRule \<Rightarrow> NodeState \<Rightarrow> CapsuleTargetLookup option \<Rightarrow> bool" where
  "rule_ok rule node lookup \<longleftrightarrow>
     (pr_Type rule = placementTypeNode \<and> named rule (ns_NodeID node) \<and>
        LabelsMatch (ns_Labels node) (pr_Labels rule)) \<or>
     (pr_Type rule = placementTypeCluster \<and> named rule (ns_ClusterPath node) \<and> lbl (pr_Labels rule) = []) \<or>
     (pr_Type rule = placementTypeDatacenter \<and> named rule (ns_Datacenter node) \<and> lbl (pr_Labels rule) = []) \<or>
     (pr_Type rule = placementTypeCapsule \<and>
        (pr_Mode rule = placementModeNear \<and> ns_NodeID node \<in> runners rule node lookup \<or>
         pr_Mode rule = placementModeAway \<and> ns_NodeID node \<notin> runners rule node lookup))"

definition hosts :: "CapsuleTargetLookup option \<Rightarrow> NodeState \<Rightarrow> Capsule \<Rightarrow> bool" where
  "hosts lookup node c \<longleftrightarrow> (case lookup of None \<Rightarrow> False
     | Some L \<Rightarrow> ns_NodeID node \<in> set (L (ns_ClusterPath node) (spec_Name (cap_Spec c))))"

definition fits :: "int \<Rightarrow> int \<Rightarrow> bool" where
  "fits need free \<longleftrightarrow> need \<le> 0 \<or> need \<le> free"

definition eligible_spec :: "Capsule \<Rightarrow> NodeState \<Rightarrow> CapsuleTargetLookup option \<Rightarrow> bool" where
  "eligible_spec c node lookup \<longleftrightarrow> \<not> hosts lookup node c \<and> ns_Status node = nodeStatusActive \<and>
     fits (res_CPUCores (spec_Resources (cap_Spec c))) (CPUCoresFree (ns_Resources node)) \<and>
     fits (res_MemoryMB (spec_Resources (cap_Spec c))) (MemoryMBFree (ns_Resources node)) \<and>
     fits (res_DiskMB (spec_Resources (cap_Spec c))) (DiskMBFree (ns_Resources node)) \<and>
     list_all (\<lambda>rule. \<not> pr_Required rule \<or> rule_ok rule node lookup) (spec_PlacementRules (cap_Spec c))"

text \<open>\<open>dominates b a\<close>: node \<open>b\<close> differs from \<open>a\<close> only by having more free resources, a better
  reliability or fewer running capsules.\<close>

definition dominates :: "NodeState \<Rightarrow> NodeState \<Rightarrow> bool" where
  "dominates b a \<longleftrightarrow> (\<exists>cpu mem disk rel cnt.
     b = a\<lparr>ns_Resources := (ns_Resources a)\<lparr>CPUCoresFree := cpu, MemoryMBFree := mem, DiskMBFree := disk\<rparr>,
           ns_ReliabilityScore := rel, ns_RunningCapsuleCount := cnt\<rparr> \<and>
     CPUCoresFree (ns_Resources a) \<le> cpu \<and> MemoryMBFree (ns_Resources a) \<le> mem \<and>
     DiskMBFree (ns_Resources a) \<le> disk \<and> ns_ReliabilityScore a \<le> rel \<and> cnt \<le> ns_RunningCapsuleCount a)"

text \<open>A contribution that is absent or in the unit interval; a contribution at least as good as another.\<close>

definition unit_opt :: "factorContribution \<Rightarrow> bool" where
  "unit_opt f \<longleftrightarrow> (\<forall>v. f = Some v \<longrightarrow> 0 \<le> v \<and> v \<le> 1)"

definition better :: "string \<times> factorContribution \<times> f64 \<Rightarrow> string \<times> factorContribution \<times> f64 \<Rightarrow> bool" where
  "better x y \<longleftrightarrow> fst x = fst y \<and> snd (snd x) = snd (snd y) \<and> 0 \<le> snd (snd x) \<and>
     rel_option (\<le>) (fst (snd x)) (fst (snd y))"

definition wf_resources :: "Resources \<Rightarrow> bool" where
  "wf_resources r \<longleftrightarrow> in_s32 (CPUCoresFree r) \<and> in_s64 (MemoryMBFree r) \<and> in_s64 (DiskMBFree r)"

definition weights_nonneg :: "Weights \<Rightarrow> bool" where
  "weights_nonneg w \<longleftrightarrow> 0 \<le> w_CPUHeadroom w \<and> 0 \<le> w_MemoryHeadroom w \<and> 0 \<le> w_DiskHeadroom w \<and>
     0 \<le> w_SoftPlacementMatch w \<and> 0 \<le> w_AffinityProximity w \<and> 0 \<le> w_HardwareLabelMatch w \<and>
     0 \<le> w_LoadPenalty w \<and> 0 \<le> w_Reliability w \<and> 0 \<le> w_Diversity w \<and> 0 \<le> w_SnapshotLocality w"

definition noWeights :: Weights where
  "noWeights = \<lparr>w_CPUHeadroom = 0, w_MemoryHeadroom = 0, w_DiskHeadroom = 0, w_SoftPlacementMatch = 0,
     w_AffinityProximity = 0, w_HardwareLabelMatch = 0, w_LoadPenalty = 0, w_Reliability = 0, w_Diversity = 0,
     w_SnapshotLocality = 0\<rparr>"

text \<open>A node for the concrete runs.\<close>

definition sample_node :: NodeState where
  "sample_node = \<lparr>ns_NodeID = ''n1'', ns_ClusterPath = ''eu/dc1/prod'', ns_Datacenter = ''dc1'', ns_Region = ''eu'',
     ns_Labels = Some [(''disk'', ''ssd'')],
     ns_Resources = \<lparr>CPUCoresTotal = 8, CPUCoresFree = 4, MemoryMBTotal = 16384, MemoryMBFree = 8192,
       DiskMBTotal = 100000, DiskMBFree = 50000\<rparr>,
     ns_Status = nodeStatusActive, ns_ReliabilityScore = 1, ns_RunningCapsuleCount = 3\<rparr>"

section \<open>Lemmas\<close>

subsection \<open>Eligibility\<close>

lemma labelsMatchAll_LabelsMatch: "labelsMatchAll cand req = LabelsMatch cand req"
  by (simp add: labelsMatchAll_def LabelsMatch_iff list_all_iff)

lemma matchCapsuleRule_iff:
  "matchCapsuleRule rule node lookup \<longleftrightarrow>
     pr_Mode rule = placementModeNear \<and> ns_NodeID node \<in> runners rule node lookup \<or>
     pr_Mode rule = placementModeAway \<and> ns_NodeID node \<notin> runners rule node lookup"
proof (cases lookup)
  case (Some L)
  let ?ids = "concat (map (L (ns_ClusterPath node)) (pr_Names rule))"
  have "set ?ids = runners rule node lookup" using Some by (simp add: runners_def)
  moreover have "?ids = [] \<longleftrightarrow> set ?ids = {}" by (simp only: set_empty)
  moreover have "placementModeNear \<noteq> placementModeAway" by (simp add: placement_defs)
  ultimately show ?thesis using Some
    by (auto simp: matchCapsuleRule_def Let_def containsString_def runners_def simp del: concat_eq_Nil_conv)
qed (auto simp: matchCapsuleRule_def runners_def placement_defs)

lemma ruleMatchesNode_iff: "ruleMatchesNode rule node lookup \<longleftrightarrow> rule_ok rule node lookup"
  by (auto simp: ruleMatchesNode_def rule_ok_def matchCapsuleRule_iff matchNodeRule_def matchClusterRule_def
      matchDatacenterRule_def containsString_def labelsMatchAll_LabelsMatch named_def placement_defs)

lemma hardRules_ok:
  "in_Reason (hardRules rules node lookup) = ineligibilityOK \<longleftrightarrow>
   list_all (\<lambda>rule. \<not> pr_Required rule \<or> rule_ok rule node lookup) rules"
  by (induction rules) (auto simp: ruleMatchesNode_iff)

lemma PassedEligibility_iff: "PassedEligibility (IsEligible c node lookup) \<longleftrightarrow> eligible_spec c node lookup"
  by (auto simp: PassedEligibility_def IsEligible_def Let_def eligible_spec_def hosts_def fits_def IsHealthy_def
      containsString_def hardRules_ok split: option.splits)

subsection \<open>Factors\<close>

lemma clamp01_bounds: "0 \<le> clamp01 v" "clamp01 v \<le> 1"
  by (simp_all add: clamp01_def)

lemma clamp01_mono: "v \<le> v' \<Longrightarrow> clamp01 v \<le> clamp01 v'"
  by (auto simp: clamp01_def)

lemma applied_bounds: "applied v = Some x \<Longrightarrow> 0 \<le> x \<and> x \<le> 1"
  using clamp01_bounds by (auto simp: applied_def)

lemmas factor_defs = factorCPUHeadroom_def factorMemoryHeadroom_def factorDiskHeadroom_def
  factorSoftPlacementMatch_def factorAffinityProximity_def factorHardwareLabelMatch_def
  factorReliability_def factorDiversity_def factorSnapshotLocality_def factorLoadPenalty_def

lemma unit_opt_simps [simp]: "unit_opt (applied v)" "unit_opt notApplicable"
  by (auto simp: unit_opt_def notApplicable_def dest: applied_bounds)

lemma factors_unit:
  "unit_opt (factorCPUHeadroom c node)" "unit_opt (factorMemoryHeadroom c node)"
  "unit_opt (factorDiskHeadroom c node)" "unit_opt (factorSoftPlacementMatch c node lookup)"
  "unit_opt (factorAffinityProximity c node lookup)" "unit_opt (factorHardwareLabelMatch c node)"
  "unit_opt (factorReliability node)" "unit_opt (factorDiversity c node)"
  "unit_opt (factorSnapshotLocality c snap)" "unit_opt (factorLoadPenalty node)"
  by (simp_all add: factor_defs Let_def split: option.split)

lemma contributions_unit: "list_all (\<lambda>(n, f, w). unit_opt f) (contributions calc c node)"
  by (simp add: contributions_def Let_def factors_unit)

lemma contributions_bounds: "(n, Some v, w) \<in> set (contributions calc c node) \<Longrightarrow> 0 \<le> v \<and> v \<le> 1"
  using contributions_unit [of calc c node] by (auto simp: list_all_iff unit_opt_def)

lemma load_bounds: "factorLoadPenalty node = Some v \<Longrightarrow> 0 \<le> v \<and> v \<le> 1"
  using factors_unit(10) by (simp add: unit_opt_def)

lemma fold_addFactor_range:
  assumes "\<And>n v w. (n, Some v, w) \<in> set cs \<Longrightarrow> P v" "\<And>n v. map_of (fst acc) n = Some v \<Longrightarrow> P v"
  shows "map_of (fst (fold addFactor cs acc)) n = Some v \<Longrightarrow> P v"
  using assms
proof (induction cs arbitrary: acc)
  case (Cons x cs)
  obtain name f w where x: "x = (name, f, w)" by (metis prod_cases3)
  obtain fs ws mx where acc: "acc = (fs, ws, mx)" by (metis prod_cases3)
  show ?case
  proof (rule Cons.IH [of "addFactor x acc"])
    show "map_of (fst (fold addFactor cs (addFactor x acc))) n = Some v" using Cons.prems(1) by simp
    show "P v" if "(n, Some v, w) \<in> set cs" for n v w using that Cons.prems(2) by auto
    show "P u" if "map_of (fst (addFactor x acc)) m = Some u" for m u
      using that Cons.prems(2,3) x acc by (cases f) (auto split: if_splits)
  qed
qed auto

subsection \<open>The score\<close>

lemma normalize_bounds: "0 \<le> normalize ws mx" "normalize ws mx \<le> 100"
proof -
  define n where "n = (let n = fdiv ws mx; n = (if n < 0 then 0 else n) in if n > 1 then 1 else n)"
  then have n: "0 \<le> n" "n \<le> 1" "normalize ws mx = fmul n 100"
    by (auto simp: Let_def normalize_def)
  show "0 \<le> normalize ws mx" using n by (simp add: fmul_def ieee.nonneg)
  show "normalize ws mx \<le> 100" unfolding n(3) fmul_def by (rule ieee.le_repr) (use n in simp_all)
qed

lemma fdiv_mono: "a \<le> b \<Longrightarrow> 0 < d \<Longrightarrow> fdiv a d \<le> fdiv b d"
  by (simp add: fdiv_def ieee.mono divide_right_mono)

lemma fmul_mono: "a \<le> b \<Longrightarrow> 0 \<le> w \<Longrightarrow> fmul a w \<le> fmul b w"
  by (simp add: fmul_def ieee.mono mult_right_mono)

lemma fadd_mono: "a \<le> b \<Longrightarrow> c \<le> d \<Longrightarrow> fadd a c \<le> fadd b d"
  by (simp add: fadd_def ieee.mono add_mono)

lemma fsub_mono: "a \<le> b \<Longrightarrow> d \<le> c \<Longrightarrow> fsub a c \<le> fsub b d"
  by (simp add: fsub_def ieee.mono diff_mono)

lemma normalize_mono:
  assumes "a \<le> b" "0 < mx"
  shows "normalize a mx \<le> normalize b mx"
  using fdiv_mono [OF assms] by (auto simp: normalize_def Let_def intro!: fmul_mono)



lemma fold_addFactor_mono:
  assumes "list_all2 better xs ys" "ws \<le> ws'"
  shows "fst (snd (fold addFactor xs (fs, ws, mx))) \<le> fst (snd (fold addFactor ys (fs', ws', mx))) \<and>
         snd (snd (fold addFactor xs (fs, ws, mx))) = snd (snd (fold addFactor ys (fs', ws', mx)))"
  using assms
proof (induction xs ys arbitrary: fs fs' ws ws' mx rule: list_all2_induct)
  case (Cons x xs y ys)
  obtain n v w v' where xy: "x = (n, v, w)" "y = (n, v', w)" "0 \<le> w" "rel_option (\<le>) v v'"
    using Cons.hyps(1) by (cases x; cases y) (auto simp: better_def)
  show ?case
  proof (cases v)
    case None
    then show ?thesis using Cons.IH [OF Cons.prems] xy by auto
  next
    case (Some a)
    then obtain b where b: "v' = Some b" "a \<le> b" using xy(4) by (auto simp: option_rel_Some1)
    then have "fadd ws (fmul a w) \<le> fadd ws' (fmul b w)"
      using Cons.prems xy(3) by (intro fadd_mono fmul_mono)
    then show ?thesis using Cons.IH xy Some b by simp
  qed
qed simp

lemma headroom_mono:
  assumes "need \<le> free" "free \<le> free'" "0 < cap" "0 < need" "s free = free - need" "s free' = free' - need"
  shows "rel_option (\<le>)
    (if s free < 0 then applied 0 else applied (fdiv (of_integer (s free)) (of_integer cap)))
    (if s free' < 0 then applied 0 else applied (fdiv (of_integer (s free')) (of_integer cap)))"
proof -
  have "fdiv (of_integer (s free)) (of_integer cap) \<le> fdiv (of_integer (s free')) (of_integer cap)"
    using assms of_integer_pos [OF assms(3)] by (intro fdiv_mono of_integer_mono) auto
  then show ?thesis using assms by (auto simp: applied_def clamp01_mono)
qed

lemma rel_option_refl_le: "rel_option (\<le>) (x :: f64 option) x"
  by (cases x) simp_all

lemma s32_headroom: "in_s32 free \<Longrightarrow> 0 < need \<Longrightarrow> need \<le> free \<Longrightarrow> s32 (free - need) = free - need"
  by (rule s32_id) (simp add: in_s32_def)

lemma s64_headroom: "in_s64 free \<Longrightarrow> 0 < need \<Longrightarrow> need \<le> free \<Longrightarrow> s64 (free - need) = free - need"
  by (rule s64_id) (simp add: in_s64_def)

lemma dominates_sel:
  assumes "dominates b a"
  shows "ns_NodeID b = ns_NodeID a" "ns_ClusterPath b = ns_ClusterPath a" "ns_Datacenter b = ns_Datacenter a"
    "ns_Labels b = ns_Labels a" "ns_Status b = ns_Status a"
    "CPUCoresTotal (ns_Resources b) = CPUCoresTotal (ns_Resources a)"
    "MemoryMBTotal (ns_Resources b) = MemoryMBTotal (ns_Resources a)"
    "DiskMBTotal (ns_Resources b) = DiskMBTotal (ns_Resources a)"
    "CPUCoresFree (ns_Resources a) \<le> CPUCoresFree (ns_Resources b)"
    "MemoryMBFree (ns_Resources a) \<le> MemoryMBFree (ns_Resources b)"
    "DiskMBFree (ns_Resources a) \<le> DiskMBFree (ns_Resources b)"
    "ns_ReliabilityScore a \<le> ns_ReliabilityScore b" "ns_RunningCapsuleCount b \<le> ns_RunningCapsuleCount a"
  using assms by (auto simp: dominates_def)

lemma dominates_rule: "dominates b a \<Longrightarrow> rule_ok rule b lookup = rule_ok rule a lookup"
  by (cases lookup) (simp_all add: rule_ok_def runners_def dominates_sel)

lemma dominates_eligible: "dominates b a \<Longrightarrow> eligible_spec c a lookup \<Longrightarrow> eligible_spec c b lookup"
  by (auto simp: eligible_spec_def hosts_def fits_def dominates_sel dominates_rule
      dest: dominates_sel(9-11) order_trans split: option.splits)

lemma load_mono:
  assumes "n \<le> m"
  shows "rel_option (\<le>) (factorLoadPenalty (a\<lparr>ns_RunningCapsuleCount := m\<rparr>))
                       (factorLoadPenalty (a\<lparr>ns_RunningCapsuleCount := n\<rparr>))"
proof -
  have "fdiv (of_integer n) 50 \<le> fdiv (of_integer m) 50"
    using assms by (intro fdiv_mono of_integer_mono) simp_all
  then show ?thesis
    by (auto simp: factorLoadPenalty_def Let_def applied_def intro!: clamp01_mono fsub_mono)
qed

lemma dominates_load:
  assumes "dominates b a"
  shows "rel_option (\<le>) (factorLoadPenalty a) (factorLoadPenalty b)"
  using load_mono [OF dominates_sel(13) [OF assms], of a]
  by (simp add: factorLoadPenalty_def)

lemma dominates_headroom:
  assumes "dominates b a" "eligible_spec c a lookup" "wf_resources (ns_Resources a)" "wf_resources (ns_Resources b)"
  shows "rel_option (\<le>) (factorCPUHeadroom c a) (factorCPUHeadroom c b)"
    and "rel_option (\<le>) (factorMemoryHeadroom c a) (factorMemoryHeadroom c b)"
    and "rel_option (\<le>) (factorDiskHeadroom c a) (factorDiskHeadroom c b)"
proof -
  note d = dominates_sel [OF assms(1)]
  let ?r = "spec_Resources (cap_Spec c)"
  have fit: "fits (res_CPUCores ?r) (CPUCoresFree (ns_Resources a))"
    "fits (res_MemoryMB ?r) (MemoryMBFree (ns_Resources a))" "fits (res_DiskMB ?r) (DiskMBFree (ns_Resources a))"
    using assms(2) by (simp_all add: eligible_spec_def)
  show "rel_option (\<le>) (factorCPUHeadroom c a) (factorCPUHeadroom c b)"
    using headroom_mono [of "res_CPUCores ?r" "CPUCoresFree (ns_Resources a)" "CPUCoresFree (ns_Resources b)"
        "CPUCoresTotal (ns_Resources a)" "\<lambda>free. s32 (free - res_CPUCores ?r)"] d(6,9) fit(1) assms(3,4)
    by (auto simp: factorCPUHeadroom_def Let_def rel_option_refl_le fits_def wf_resources_def s32_headroom)
  show "rel_option (\<le>) (factorMemoryHeadroom c a) (factorMemoryHeadroom c b)"
    using headroom_mono [of "res_MemoryMB ?r" "MemoryMBFree (ns_Resources a)" "MemoryMBFree (ns_Resources b)"
        "MemoryMBTotal (ns_Resources a)" "\<lambda>free. s64 (free - res_MemoryMB ?r)"] d(7,10) fit(2) assms(3,4)
    by (auto simp: factorMemoryHeadroom_def Let_def rel_option_refl_le fits_def wf_resources_def s64_headroom)
  show "rel_option (\<le>) (factorDiskHeadroom c a) (factorDiskHeadroom c b)"
    using headroom_mono [of "res_DiskMB ?r" "DiskMBFree (ns_Resources a)" "DiskMBFree (ns_Resources b)"
        "DiskMBTotal (ns_Resources a)" "\<lambda>free. s64 (free - res_DiskMB ?r)"] d(8,11) fit(3) assms(3,4)
    by (auto simp: factorDiskHeadroom_def Let_def rel_option_refl_le fits_def wf_resources_def s64_headroom)
qed

lemma dominates_same:
  assumes "dominates b a"
  shows "factorSoftPlacementMatch c b lookup = factorSoftPlacementMatch c a lookup"
    "factorAffinityProximity c b lookup = factorAffinityProximity c a lookup"
    "factorHardwareLabelMatch c b = factorHardwareLabelMatch c a"
    "factorDiversity c b = factorDiversity c a"
  using dominates_sel [OF assms] dominates_rule [OF assms]
  by (simp_all add: factor_defs ruleMatchesNode_iff Let_def split: option.split)

lemma dominates_better:
  assumes "dominates b a" "eligible_spec c a (calc_lookup calc)" "wf_resources (ns_Resources a)"
    "wf_resources (ns_Resources b)" "weights_nonneg (calc_weights calc)"
  shows "list_all2 better (contributions calc c a) (contributions calc c b)"
proof -
  have "rel_option (\<le>) (factorReliability a) (factorReliability b)"
    using dominates_sel(12) [OF assms(1)] by (simp add: factorReliability_def applied_def clamp01_mono)
  then show ?thesis
    using dominates_headroom [OF assms(1-4)] assms(5)
    by (simp add: contributions_def Let_def better_def dominates_same [OF assms(1)] rel_option_refl_le
        weights_nonneg_def)
qed

lemma Calculate_eligible:
  assumes "eligible_spec c node (calc_lookup calc)" "factorLoadPenalty node = Some v"
    "fold addFactor (contributions calc c node) ([], 0, 0) = (fs, ws, mx)"
  shows "Calculate calc c node = (let lw = w_LoadPenalty (calc_weights calc) in
    \<lparr>gr_Score = (if fadd mx lw \<le> 0 then 50 else normalize (fsub ws (fmul (fsub 1 v) lw)) (fadd mx lw)),
     gr_Factors = mput ''load_penalty'' v fs, gr_Weights = calc_weights calc, gr_Eligible = True,
     gr_Inelig = \<lparr>in_Reason = ineligibilityOK, in_Detail = ''''\<rparr>\<rparr>)"
  using assms by (simp add: Calculate_def PassedEligibility_iff applyLoad_def Let_def)

lemma load_applied: "\<exists>v. factorLoadPenalty node = Some v"
  by (simp add: factorLoadPenalty_def applied_def Let_def)

lemma gr_Eligible_iff: "gr_Eligible (Calculate calc c node) \<longleftrightarrow> eligible_spec c node (calc_lookup calc)"
  by (simp add: Calculate_def PassedEligibility_iff Let_def split: prod.split)

section \<open>Properties\<close>


text \<open>
  Whatever the weights, the capsule and the node, a gravity score is between 0 and 100, every factor of
  the breakdown is between 0 and 1, and a node that fails the eligibility filter scores 0.
\<close>

theorem Calculate_score_bounds:
  "0 \<le> gr_Score (Calculate calc c node) \<and> gr_Score (Calculate calc c node) \<le> 100 \<and>
   (\<forall>n v. map_of (gr_Factors (Calculate calc c node)) n = Some v \<longrightarrow> 0 \<le> v \<and> v \<le> 1) \<and>
   (gr_Eligible (Calculate calc c node) \<or> gr_Score (Calculate calc c node) = 0)"
proof (cases "eligible_spec c node (calc_lookup calc)")
  case False
  then show ?thesis by (simp add: Calculate_def PassedEligibility_iff)
next
  case True
  obtain fs ws mx where acc: "fold addFactor (contributions calc c node) ([], 0, 0) = (fs, ws, mx)"
    by (metis prod_cases3)
  obtain v where v: "factorLoadPenalty node = Some v" using load_applied by blast
  have "0 \<le> x \<and> x \<le> 1" if "map_of fs n = Some x" for n x
    using fold_addFactor_range [of "contributions calc c node" "\<lambda>v. 0 \<le> v \<and> v \<le> 1" "([], 0, 0)" n x]
      contributions_bounds acc that by auto
  with load_bounds [OF v] show ?thesis
    using normalize_bounds by (auto simp: Calculate_eligible [OF True v acc] Let_def)
qed

theorem Calculate_score_bounds_witness:
  "gr_Score (Calculate NewCalculator sample_capsule sample_node) \<le> 100 \<and>
   gr_Score (Calculate NewCalculator sample_capsule (sample_node\<lparr>ns_Status := ''suspected''\<rparr>)) = 0"
  using Calculate_score_bounds [of NewCalculator sample_capsule sample_node]
    Calculate_score_bounds [of NewCalculator sample_capsule "sample_node\<lparr>ns_Status := ''suspected''\<rparr>"]
  by (simp add: gr_Eligible_iff eligible_spec_def nodeStatusActive_def)

text \<open>
  C21. More free capacity never loses an election: if node \<open>b\<close> differs from an eligible node \<open>a\<close> only by
  more free CPU, memory or disk, a higher reliability or fewer running capsules, then \<open>b\<close> is eligible too
  and its score is at least that of \<open>a\<close>, rounding included, for every choice of weights that are not
  negative.
\<close>

theorem Calculate_monotone:
  assumes "dominates b a" and "wf_resources (ns_Resources a)" and "wf_resources (ns_Resources b)"
    and "weights_nonneg (calc_weights calc)" and "gr_Eligible (Calculate calc c a)"
  shows "gr_Eligible (Calculate calc c b) \<and> gr_Score (Calculate calc c a) \<le> gr_Score (Calculate calc c b)"
proof -
  let ?lw = "w_LoadPenalty (calc_weights calc)"
  have ea: "eligible_spec c a (calc_lookup calc)" using assms(5) by (simp add: gr_Eligible_iff)
  have eb: "eligible_spec c b (calc_lookup calc)" by (rule dominates_eligible [OF assms(1) ea])
  obtain fa wa ma where A: "fold addFactor (contributions calc c a) ([], 0, 0) = (fa, wa, ma)" by (metis prod_cases3)
  obtain fb wb mb where B: "fold addFactor (contributions calc c b) ([], 0, 0) = (fb, wb, mb)" by (metis prod_cases3)
  have sums: "wa \<le> wb" "ma = mb"
    using fold_addFactor_mono [OF dominates_better [OF assms(1) ea assms(2-4)], of 0 0 "[]" 0 "[]"] A B by auto
  obtain la lb where L: "factorLoadPenalty a = Some la" "factorLoadPenalty b = Some lb" using load_applied by blast
  then have "la \<le> lb" using dominates_load [OF assms(1)] by simp
  then have "fsub wa (fmul (fsub 1 la) ?lw) \<le> fsub wb (fmul (fsub 1 lb) ?lw)"
    using sums(1) assms(4) by (intro fsub_mono fmul_mono) (auto simp: weights_nonneg_def)
  then have "gr_Score (Calculate calc c a) \<le> gr_Score (Calculate calc c b)"
    using sums(2) by (auto simp: Calculate_eligible [OF ea L(1) A] Calculate_eligible [OF eb L(2) B] Let_def
        intro: normalize_mono)
  then show ?thesis using eb by (simp add: gr_Eligible_iff)
qed

theorem Calculate_monotone_witness:
  "gr_Score (Calculate NewCalculator sample_capsule sample_node) \<le>
   gr_Score (Calculate NewCalculator sample_capsule (sample_node\<lparr>ns_RunningCapsuleCount := 1\<rparr>))"
proof (rule Calculate_monotone [THEN conjunct2])
  show "dominates (sample_node\<lparr>ns_RunningCapsuleCount := 1\<rparr>) sample_node"
    unfolding dominates_def
    by (rule exI [of _ 4], rule exI [of _ 8192], rule exI [of _ 50000], rule exI [of _ 1], rule exI [of _ 1])
      (simp add: sample_node_def)
  show "weights_nonneg (calc_weights NewCalculator)"
    by (simp add: weights_nonneg_def NewCalculator_def DefaultWeights_def ieee.nonneg)
  show "gr_Eligible (Calculate NewCalculator sample_capsule sample_node)"
    by (simp add: gr_Eligible_iff eligible_spec_def hosts_def NewCalculator_def sample_node_def fits_def
        sample_capsule_def zeroSpec_def)
qed (simp_all add: wf_resources_def sample_node_def in_s32_def in_s64_def)

text \<open>
  Weight layers compose: merging the capsule's overrides into the cluster's overrides and the result into
  the defaults is merging the three layers one after the other, and a layer that sets nothing changes nothing.
\<close>

theorem Weights_Merge_layers:
  "Weights_Merge (Weights_Merge base cluster) caps = Weights_Merge base (Weights_Merge cluster caps) \<and>
   Weights_Merge base noWeights = base \<and> Weights_Merge noWeights base = base"
  by (intro conjI Weights.equality) (simp_all add: Weights_Merge_def override_def noWeights_def)

end
