(* ===== verification/Delay.thy ===== *)
theory Delay
  imports Gravity Election_Types Go_Strings
begin

text \<open>
  \<^verbatim>\<open>src/election/delay/strategy.go\<close>: the delay strategy. \<open>Decide\<close> takes what \<^verbatim>\<open>provider.LocalNode\<close>
  returned (\<open>Inl\<close> the error text), the eight random bytes of the jitter read as a number (\<open>None\<close> when
  the read failed) and the time at which it computes \<^verbatim>\<open>PublishAt\<close>.
\<close>

section \<open>Definitions\<close>

definition defaultMaxWait :: duration where "defaultMaxWait = 500 * Millisecond"
definition defaultMaxJitter :: duration where "defaultMaxJitter = 200 * Microsecond"
definition defaultReplicaStagger :: duration where "defaultReplicaStagger = 150 * Millisecond"

record Strategy =
  ds_maxWait :: duration
  ds_maxJitter :: duration
  ds_replicaStagger :: duration

definition NewStrategy :: Strategy where
  "NewStrategy = \<lparr>ds_maxWait = defaultMaxWait, ds_maxJitter = defaultMaxJitter,
     ds_replicaStagger = defaultReplicaStagger\<rparr>"

definition replicaSlotStagger :: "string \<Rightarrow> duration \<Rightarrow> duration" where
  "replicaSlotStagger replicaID stagger =
     (if stagger \<le> 0 then 0
      else case Atoi replicaID of
        None \<Rightarrow> 0
      | Some slot \<Rightarrow> if slot < 0 then 0 else s64 (slot * stagger))"

definition waitForScore :: "f64 \<Rightarrow> duration \<Rightarrow> duration" where
  "waitForScore score maxWait = (let
     score = (if score < 0 then 0 else score);
     score = (if score > 100 then 100 else score);
     fraction = fdiv (fsub 100 score) 100
     in to_integer (fmul fraction (of_integer maxWait)))"

definition jitter :: "nat option \<Rightarrow> duration \<Rightarrow> duration" where
  "jitter rnd mx = (if mx \<le> 0 then 0
     else case rnd of None \<Rightarrow> 0 | Some n \<Rightarrow> int n mod mx)"

fun reasonText :: "IneligibilityReason \<Rightarrow> string" where
  "reasonText ineligibilityOK = ''''"
| "reasonText ineligibilityResourcesCPU = ''resources.cpu''"
| "reasonText ineligibilityResourcesMemory = ''resources.memory''"
| "reasonText ineligibilityResourcesDisk = ''resources.disk''"
| "reasonText ineligibilityNotHealthy = ''node.unhealthy''"
| "reasonText ineligibilityPlacementRule = ''placement.rule''"
| "reasonText ineligibilityExcluded = ''excluded''"

definition Decide ::
  "Strategy \<Rightarrow> Request \<Rightarrow> Capsule \<Rightarrow> Calculator \<Rightarrow> string + NodeState \<Rightarrow> nat option \<Rightarrow> time \<Rightarrow> Decision" where
  "Decide s req c calc localNode rnd now = (case localNode of
     Inl err \<Rightarrow> \<lparr>d_Eligible = False, d_Score = 0, d_PublishAt = zeroTime,
       d_Reason = ''delay strategy: local node lookup failed: '' @ err\<rparr>
   | Inr state \<Rightarrow> (let result = Calculate calc c state in
       if \<not> gr_Eligible result
       then \<lparr>d_Eligible = False, d_Score = 0, d_PublishAt = zeroTime,
         d_Reason = ''delay strategy: ineligible ('' @ reasonText (in_Reason (gr_Inelig result)) @ '': '' @
           in_Detail (gr_Inelig result) @ '')''\<rparr>
       else let
         score = gr_Score result;
         baseWait = waitForScore score (ds_maxWait s);
         jit = jitter rnd (ds_maxJitter s);
         slotDelay = replicaSlotStagger (rq_ReplicaID req) (ds_replicaStagger s);
         wait = s64 (s64 (baseWait + slotDelay) + jit)
       in \<lparr>d_Eligible = True, d_Score = score, d_PublishAt = now + wait, d_Reason = ''delay strategy: eligible''\<rparr>))"

subsection \<open>Specification\<close>

definition clampScore :: "f64 \<Rightarrow> f64" where
  "clampScore s = max 0 (min 100 s)"

definition replicaSlot :: "string \<Rightarrow> int" where
  "replicaSlot r = (case Atoi r of None \<Rightarrow> 0 | Some n \<Rightarrow> max 0 n)"

definition sample_request :: Request where
  "sample_request = \<lparr>rq_CapsuleID = ''c1'', rq_ReplicaID = ''0'', rq_ClusterPath = ''eu/prod'', rq_Reason = reasonInitial,
     rq_PreviousNodeID = '''', rq_Priority = 0, rq_CreatedAt = 0\<rparr>"

definition reliability_only :: Calculator where
  "reliability_only = NewCalculator\<lparr>calc_weights := noWeights\<lparr>w_Reliability := 1\<rparr>\<rparr>"

section \<open>Lemmas\<close>

lemma waitForScore_alt:
  "waitForScore s w = to_integer (fmul (fdiv (fsub 100 (clampScore s)) 100) (of_integer w))"
  by (auto simp: waitForScore_def Let_def clampScore_def max_def min_def)

lemma fraction_bounds:
  assumes "0 \<le> s" "s \<le> 100"
  shows "0 \<le> fdiv (fsub 100 s) 100" "fdiv (fsub 100 s) 100 \<le> 1"
proof -
  have "0 \<le> fsub 100 s" "fsub 100 s \<le> 100"
    using assms by (auto simp: fsub_def intro: ieee.nonneg ieee.le_repr)
  then show "0 \<le> fdiv (fsub 100 s) 100" "fdiv (fsub 100 s) 100 \<le> 1"
    by (auto simp: fdiv_def intro: ieee.nonneg ieee.le_one)
qed

lemma clampScore_bounds: "0 \<le> clampScore s" "clampScore s \<le> 100"
  by (simp_all add: clampScore_def)

lemma waitForScore_nonneg: "0 \<le> w \<Longrightarrow> 0 \<le> waitForScore s w"
  using fraction_bounds(1) [OF clampScore_bounds] of_integer_nonneg
  by (simp add: waitForScore_alt fmul_def ieee.mul_nonneg to_integer_bounds)

lemma waitForScore_le:
  assumes "0 \<le> w" "w \<le> 2 ^ 53"
  shows "waitForScore s w \<le> w"
proof -
  let ?f = "fdiv (fsub 100 (clampScore s)) 100"
  have w: "of_integer w = rat_of_int w" using assms by (intro of_integer_small) simp
  have "?f * rat_of_int w \<le> rat_of_int w"
    using fraction_bounds(2) [OF clampScore_bounds, of s] assms(1) by (simp add: mult_left_le_one_le fraction_bounds clampScore_bounds)
  then have "f64 (?f * rat_of_int w) \<le> rat_of_int w"
    using assms by (intro ieee.le_repr f64_of_int) simp_all
  moreover have "0 \<le> f64 (?f * rat_of_int w)"
    using fraction_bounds(1) [OF clampScore_bounds, of s] assms(1) by (intro ieee.nonneg) simp
  ultimately show ?thesis by (simp add: waitForScore_alt w fmul_def to_integer_def floor_le_iff)
qed

lemma waitForScore_antimono:
  assumes "s \<le> s'" "0 \<le> w"
  shows "waitForScore s' w \<le> waitForScore s w"
proof -
  have "clampScore s \<le> clampScore s'" using assms(1) by (auto simp: clampScore_def)
  then have "fdiv (fsub 100 (clampScore s')) 100 \<le> fdiv (fsub 100 (clampScore s)) 100"
    by (intro fdiv_mono fsub_mono) simp_all
  then show ?thesis
    unfolding waitForScore_alt by (intro to_integer_mono fmul_mono of_integer_nonneg assms(2))
qed

lemma jitter_bounds: "0 \<le> jitter r m" "0 < m \<Longrightarrow> jitter r m < m"
  by (auto simp: jitter_def split: option.split)

lemma powi_values: "(2::rat) powi (- 47) = 1 / 140737488355328" "(2::rat) powi (- 54) = 1 / 18014398509481984"
  "(2::rat) powi (- 23) = 1 / 8388608" "(2::rat) powi 7 = 128" "(2::rat) powi 0 = 1" "(2::rat) powi 1 = 2" "(2::rat) powi 31 = 2147483648"
  by (simp_all add: power_int_def power_one_over)

lemma percent_error:
  fixes f d x e :: rat
  assumes "\<bar>f - d / 100\<bar> \<le> e" "\<bar>d - x\<bar> \<le> e"
  shows "\<bar>f - x / 100\<bar> \<le> 2 * e"
proof -
  have "\<bar>d / 100 - x / 100\<bar> = \<bar>d - x\<bar> / 100" by (simp add: diff_divide_distrib [symmetric])
  moreover have "\<bar>f - x / 100\<bar> \<le> \<bar>f - d / 100\<bar> + \<bar>d / 100 - x / 100\<bar>" by simp
  ultimately show ?thesis using assms by linarith
qed

text \<open>The wait computed in floating point is within two nanoseconds of the exact linear wait.\<close>

lemma waitForScore_error:
  assumes "0 \<le> s" "s \<le> 100" "0 \<le> w" "w \<le> 1000000000"
  shows "\<bar>of_int (waitForScore s w) - (100 - s) / 100 * of_int w\<bar> \<le> 2"
proof -
  let ?d = "fsub 100 s" let ?f = "fdiv ?d 100" let ?p = "fmul ?f (of_integer w)"
  have d: "\<bar>?d - (100 - s)\<bar> \<le> 1 / 140737488355328"
    using f64_error [of "100 - s" 6] assms(1,2) by (simp add: fsub_def powi_values)
  have d0: "0 \<le> ?d" "?d \<le> 100" using assms(1,2) by (auto simp: fsub_def intro: ieee.nonneg ieee.le_repr)
  then have "\<bar>?d / 100\<bar> < 2 powi (0 + 1)" by (simp add: powi_values)
  then have f: "\<bar>?f - ?d / 100\<bar> \<le> 2 powi (- 53)" using f64_error [of "?d / 100" 0] by (simp add: fdiv_def)
  have "(2::rat) powi (- 53) \<le> 1 / 140737488355328" by (simp add: power_int_def power_one_over)
  then have "\<bar>?f - ?d / 100\<bar> \<le> 1 / 140737488355328" by (rule order_trans [OF f])
  then have f': "\<bar>?f - (100 - s) / 100\<bar> \<le> 2 / 140737488355328" using percent_error [OF _ d] by fastforce
  have f0: "0 \<le> ?f" "?f \<le> 1" using fraction_bounds [OF assms(1,2)] by simp_all
  have w: "of_integer w = rat_of_int w" using assms(3,4) by (intro of_integer_small) simp
  have wr: "0 \<le> rat_of_int w" "rat_of_int w \<le> 1000000000" using assms(3,4) by (simp, metis of_int_le_iff of_int_numeral)
  have "?f * rat_of_int w \<le> 1 * 1000000000" using f0 wr by (intro mult_mono) simp_all
  then have "\<bar>?f * rat_of_int w\<bar> < 2 powi (30 + 1)" using f0 wr by (simp add: powi_values)
  then have p: "\<bar>?p - ?f * rat_of_int w\<bar> \<le> 1 / 8388608"
    using f64_error [of "?f * rat_of_int w" 30] by (simp add: fmul_def w powi_values)
  have "\<bar>?f - (100 - s) / 100\<bar> * rat_of_int w \<le> 2 / 140737488355328 * 1000000000"
    using f' wr by (intro mult_mono) simp_all
  moreover have "\<bar>(?f - (100 - s) / 100) * rat_of_int w\<bar> = \<bar>?f - (100 - s) / 100\<bar> * rat_of_int w"
    using wr(1) by (simp only: abs_mult abs_of_nonneg)
  ultimately have q: "\<bar>?f * rat_of_int w - (100 - s) / 100 * rat_of_int w\<bar> \<le> 1 / 10000"
    by (simp add: left_diff_distrib)
  have "0 \<le> ?p" using f0 wr by (simp add: fmul_def w ieee.nonneg)
  then have "of_int (waitForScore s w) \<le> ?p" "?p < of_int (waitForScore s w) + 1"
    using assms(1,2) floor_correct [of ?p] by (simp_all add: waitForScore_alt clampScore_def to_integer_def)
  with p q show ?thesis unfolding abs_le_iff by linarith
qed

lemma Decide_eligible:
  assumes "gr_Eligible (Calculate calc c node)"
  shows "Decide s req c calc (Inr node) rnd now =
    \<lparr>d_Eligible = True, d_Score = gr_Score (Calculate calc c node),
     d_PublishAt = now + s64 (s64 (waitForScore (gr_Score (Calculate calc c node)) (ds_maxWait s) +
       replicaSlotStagger (rq_ReplicaID req) (ds_replicaStagger s)) + jitter rnd (ds_maxJitter s)),
     d_Reason = ''delay strategy: eligible''\<rparr>"
  using assms by (simp add: Decide_def Let_def)

lemma Calculate_score_range: "0 \<le> gr_Score (Calculate calc c node)" "gr_Score (Calculate calc c node) \<le> 100"
  by (auto simp: Calculate_def Let_def normalize_bounds split: prod.split)

lemma replicaSlotStagger_small:
  assumes "replicaSlot r \<le> 1000000000" "0 \<le> st" "st \<le> 1000000000"
  shows "replicaSlotStagger r st = replicaSlot r * st"
proof -
  have "0 \<le> replicaSlot r" by (simp add: replicaSlot_def split: option.split)
  then have "0 \<le> replicaSlot r * st" "replicaSlot r * st \<le> 1000000000 * 1000000000"
    using assms mult_mono [of "replicaSlot r" 1000000000 st 1000000000] by simp_all
  then have "s64 (replicaSlot r * st) = replicaSlot r * st" by (intro s64_id) (simp add: in_s64_def)
  then show ?thesis using assms
    by (auto simp: replicaSlotStagger_def replicaSlot_def max_def split: option.splits if_splits)
qed

lemma Decide_PublishAt:
  assumes "gr_Eligible (Calculate calc c node)" "replicaSlot (rq_ReplicaID req) \<le> 1000000000"
  shows "d_PublishAt (Decide NewStrategy req c calc (Inr node) rnd now) =
    now + waitForScore (gr_Score (Calculate calc c node)) 500000000 +
    replicaSlot (rq_ReplicaID req) * 150000000 + jitter rnd 200000"
proof -
  let ?w = "waitForScore (gr_Score (Calculate calc c node)) 500000000"
  have w: "0 \<le> ?w" "?w \<le> 500000000" by (auto intro: waitForScore_nonneg waitForScore_le)
  have j: "0 \<le> jitter rnd 200000" "jitter rnd 200000 < 200000" by (simp_all add: jitter_bounds)
  have "0 \<le> replicaSlot (rq_ReplicaID req)" by (simp add: replicaSlot_def split: option.split)
  then have t: "0 \<le> replicaSlot (rq_ReplicaID req) * 150000000"
    "replicaSlot (rq_ReplicaID req) * 150000000 \<le> 1000000000 * 150000000" using assms(2) by simp_all
  then show ?thesis using w j assms(2)
    by (simp add: Decide_eligible [OF assms(1)] NewStrategy_def defaultMaxWait_def defaultMaxJitter_def
        defaultReplicaStagger_def replicaSlotStagger_small in_s64_def)
qed

text \<open>The sample node with weight on reliability only: its score is its reliability in percent.\<close>

lemma f64_half: "f64 (1 / 2) = 1 / 2"
  by code_simp

lemma sample_eligible: "gr_Eligible (Calculate reliability_only sample_capsule (sample_node\<lparr>ns_ReliabilityScore := r\<rparr>))"
  "gr_Eligible (Calculate reliability_only sample_capsule sample_node)"
  by (simp_all add: gr_Eligible_iff eligible_spec_def sample_capsule_def sample_node_def reliability_only_def
      NewCalculator_def zeroSpec_def hosts_def fits_def)

lemma sample_score:
  assumes "0 \<le> r" "r \<le> 1" "f64 r = r"
  shows "gr_Score (Calculate reliability_only sample_capsule (sample_node\<lparr>ns_ReliabilityScore := r\<rparr>)) = f64 (r * 100)"
proof -
  let ?n = "sample_node\<lparr>ns_ReliabilityScore := r\<rparr>"
  obtain v where v: "factorLoadPenalty ?n = Some v" using load_applied by blast
  have "fold addFactor (contributions reliability_only sample_capsule ?n) ([], 0, 0) = ([(''reliability'', r)], r, 1)"
    using assms by (simp add: contributions_def factor_defs notApplicable_def reliability_only_def NewCalculator_def
        sample_capsule_def zeroSpec_def noWeights_def applied_def clamp01_def fmul_def fadd_def mput_def)
  from Calculate_eligible [OF _ v this] show ?thesis
    using sample_eligible(1) [of r] assms
    by (simp add: gr_Eligible_iff reliability_only_def noWeights_def normalize_def fmul_def fdiv_def fsub_def fadd_def Let_def)
qed

lemma sample_scores:
  "gr_Score (Calculate reliability_only sample_capsule sample_node) = 100"
  "gr_Score (Calculate reliability_only sample_capsule (sample_node\<lparr>ns_ReliabilityScore := 1 / 2\<rparr>)) = 50"
  using sample_score [of 1] sample_score [of "1 / 2"] by (simp_all add: f64_half sample_node_def)

section \<open>Properties\<close>

text \<open>
  C22. The delay strategy lets the better node claim first. With the default strategy, two nodes that decide
  on the same request at the same time publish in the order of their gravity scores, whatever the jitter
  each of them draws and with the floating-point rounding of both waits included, as soon as the scores
  differ by 0.05 points of 100.
\<close>

theorem Decide_better_score_first:
  assumes "d_Eligible (Decide NewStrategy req c calcA (Inr a) rndA now)"
    and "d_Eligible (Decide NewStrategy req c calcB (Inr b) rndB now)"
    and "d_Score (Decide NewStrategy req c calcB (Inr b) rndB now) + 1 / 20
         \<le> d_Score (Decide NewStrategy req c calcA (Inr a) rndA now)"
    and "replicaSlot (rq_ReplicaID req) \<le> 1000000000"
  shows "d_PublishAt (Decide NewStrategy req c calcA (Inr a) rndA now)
         < d_PublishAt (Decide NewStrategy req c calcB (Inr b) rndB now)"
proof -
  let ?a = "gr_Score (Calculate calcA c a)" let ?b = "gr_Score (Calculate calcB c b)"
  have e: "gr_Eligible (Calculate calcA c a)" "gr_Eligible (Calculate calcB c b)"
    using assms(1,2) by (auto simp: Decide_def Let_def split: if_splits)
  have "?b + 1 / 20 \<le> ?a" using assms(3) by (simp add: Decide_eligible e)
  moreover have "\<bar>of_int (waitForScore ?a 500000000) - (100 - ?a) / 100 * of_int 500000000\<bar> \<le> 2"
    "\<bar>of_int (waitForScore ?b 500000000) - (100 - ?b) / 100 * of_int 500000000\<bar> \<le> 2"
    by (rule waitForScore_error; simp add: Calculate_score_range)+
  ultimately have "rat_of_int (waitForScore ?a 500000000) + 200000 \<le> rat_of_int (waitForScore ?b 500000000)"
    by (simp add: abs_le_iff field_simps)
  then have "rat_of_int (waitForScore ?a 500000000 + 200000) \<le> rat_of_int (waitForScore ?b 500000000)" by simp
  then have "waitForScore ?a 500000000 + 200000 \<le> waitForScore ?b 500000000" by (simp only: of_int_le_iff)
  moreover have "jitter rndA 200000 < 200000" "0 \<le> jitter rndB 200000" using jitter_bounds by simp_all
  ultimately show ?thesis using assms(4) by (simp add: Decide_PublishAt e)
qed

theorem Decide_better_score_first_witness:
  "d_PublishAt (Decide NewStrategy sample_request sample_capsule reliability_only (Inr sample_node) (Some 199999) 0)
   < d_PublishAt (Decide NewStrategy sample_request sample_capsule reliability_only
       (Inr (sample_node\<lparr>ns_ReliabilityScore := 1 / 2\<rparr>)) (Some 0) 0)"
proof -
  have "replicaSlot (rq_ReplicaID sample_request) \<le> 1000000000" by code_simp
  then show ?thesis by (intro Decide_better_score_first) (simp_all add: Decide_eligible sample_eligible sample_scores)
qed

text \<open>
  The wait of \<^verbatim>\<open>waitForScore\<close> stays between zero and the configured maximum for every score, even
  one outside the documented range, falls as the score rises, and reaches both ends: a score of 100 waits
  not at all, a score of 0 waits the whole maximum.
\<close>

theorem waitForScore_bounds:
  assumes "0 \<le> maxWait" and "maxWait \<le> 2 ^ 53"
  shows "0 \<le> waitForScore s maxWait \<and> waitForScore s maxWait \<le> maxWait \<and>
    (s \<le> s' \<longrightarrow> waitForScore s' maxWait \<le> waitForScore s maxWait) \<and>
    waitForScore 100 maxWait = 0 \<and> waitForScore 0 maxWait = maxWait"
proof -
  have "of_integer maxWait = rat_of_int maxWait" "f64 (rat_of_int maxWait) = rat_of_int maxWait"
    using assms by (auto intro: of_integer_small f64_of_int)
  then have "waitForScore 100 maxWait = 0" "waitForScore 0 maxWait = maxWait"
    using assms by (simp_all add: waitForScore_def fsub_def fdiv_def fmul_def to_integer_def)
  with assms show ?thesis by (simp add: waitForScore_nonneg waitForScore_le waitForScore_antimono)
qed

theorem waitForScore_bounds_witness:
  "waitForScore 60 defaultMaxWait \<le> waitForScore 40 defaultMaxWait \<and> waitForScore 40 defaultMaxWait \<le> defaultMaxWait"
  using waitForScore_bounds [of defaultMaxWait 40 60] by (simp add: defaultMaxWait_def)

end
