(* ===== verification/Election_Topic.thy ===== *)
theory Election_Topic
  imports Election_Types Signing
begin

text \<open>
  \<^verbatim>\<open>src/election/topic.go\<close>: one node's view of the election topic of a cluster.

  A listener is a pair of buffered Go channels with a closed flag. Channels are shared by reference between
  the topic and the round that reads them, so the topic keeps its listeners in a heap: an address is an index
  of \<open>ct_heap\<close>. The libp2p publish call appends to \<open>ct_sent\<close>; protobuf encoding is the record \<open>codec\<close> of
  functions the operations take, and signer and verifier are functions held by the topic. The message loop
  is a fold of \<open>loop_step\<close> over the received messages.
\<close>

section \<open>Definitions\<close>

type_synonym messageKey = "string \<times> string"

record listener =
  l_cap :: nat
  l_claims :: "Claim list"
  l_failures :: "ElectionFailed list"
  l_closed :: bool

definition newListener :: "nat \<Rightarrow> listener" where
  "newListener n = \<lparr>l_cap = n, l_claims = [], l_failures = [], l_closed = False\<rparr>"

definition listener_dispatchClaim :: "Claim \<Rightarrow> listener \<Rightarrow> listener" where
  "listener_dispatchClaim claim l =
     (if l_closed l then l
      else if length (l_claims l) < l_cap l then l\<lparr>l_claims := l_claims l @ [claim]\<rparr> else l)"

definition listener_dispatchFailure :: "ElectionFailed \<Rightarrow> listener \<Rightarrow> listener" where
  "listener_dispatchFailure f l =
     (if l_closed l then l
      else if length (l_failures l) < l_cap l then l\<lparr>l_failures := l_failures l @ [f]\<rparr> else l)"

definition listener_close :: "listener \<Rightarrow> listener" where
  "listener_close l = (if l_closed l then l else l\<lparr>l_closed := True\<rparr>)"

text \<open>Receiving from a Go channel: it blocks while empty and open, and yields the zero value once closed and
  drained.\<close>

datatype 'a recv = Blocked | ClosedCh | Msg 'a

definition recvClaim :: "listener \<Rightarrow> Claim recv \<times> listener" where
  "recvClaim l = (case l_claims l of c # cs \<Rightarrow> (Msg c, l\<lparr>l_claims := cs\<rparr>)
     | [] \<Rightarrow> (if l_closed l then ClosedCh else Blocked, l))"

definition recvFailure :: "listener \<Rightarrow> ElectionFailed recv \<times> listener" where
  "recvFailure l = (case l_failures l of f # fs \<Rightarrow> (Msg f, l\<lparr>l_failures := fs\<rparr>)
     | [] \<Rightarrow> (if l_closed l then ClosedCh else Blocked, l))"

record bufferedMessage =
  bm_receivedAt :: time
  bm_claim :: "Claim option"
  bm_failed :: "ElectionFailed option"

definition bufferTTL :: duration where "bufferTTL = 3 * Second"

record ElectionMessage =
  env_Type :: string
  env_Payload :: string
  env_SenderId :: string
  env_Timestamp :: "time option"
  env_Signature :: string

type_synonym Signer = "string \<Rightarrow> string + string"
type_synonym Verifier = "string \<Rightarrow> string \<Rightarrow> string \<Rightarrow> bool"

record ClusterTopic =
  ct_clusterPath :: string
  ct_nodeID :: string
  ct_signer :: "Signer option"
  ct_verifier :: "Verifier option"
  ct_listeners :: "(messageKey, nat) gomap"
  ct_buffered :: "(messageKey, bufferedMessage list) gomap"
  ct_heap :: "listener list"
  ct_cancelled :: bool
  ct_sent :: "string list"

text \<open>\<^verbatim>\<open>proto.Marshal\<close> and \<^verbatim>\<open>proto.Unmarshal\<close> on the three message types.\<close>

record codec =
  marshalEnvelope :: "ElectionMessage \<Rightarrow> string + string"
  marshalClaim :: "Claim \<Rightarrow> string + string"
  marshalFailed :: "ElectionFailed \<Rightarrow> string + string"
  unmarshalEnvelope :: "string \<Rightarrow> ElectionMessage option"
  unmarshalClaim :: "string \<Rightarrow> Claim option"
  unmarshalFailed :: "string \<Rightarrow> ElectionFailed option"

definition NewClusterTopic :: "string \<Rightarrow> string \<Rightarrow> Signer option \<Rightarrow> Verifier option \<Rightarrow> ClusterTopic" where
  "NewClusterTopic clusterPath nodeID signer verifier = \<lparr>ct_clusterPath = clusterPath, ct_nodeID = nodeID,
     ct_signer = signer, ct_verifier = verifier, ct_listeners = [], ct_buffered = [], ct_heap = [],
     ct_cancelled = False, ct_sent = []\<rparr>"

definition modify :: "nat \<Rightarrow> (listener \<Rightarrow> listener) \<Rightarrow> ClusterTopic \<Rightarrow> ClusterTopic" where
  "modify a f t = t\<lparr>ct_heap := (ct_heap t)[a := f (ct_heap t ! a)]\<rparr>"

definition replay :: "bufferedMessage \<Rightarrow> listener \<Rightarrow> listener" where
  "replay msg l = (let
     l = (case bm_claim msg of None \<Rightarrow> l | Some c \<Rightarrow> listener_dispatchClaim c l)
     in case bm_failed msg of None \<Rightarrow> l | Some f \<Rightarrow> listener_dispatchFailure f l)"

definition Listen :: "string \<Rightarrow> string \<Rightarrow> int \<Rightarrow> ClusterTopic \<Rightarrow> nat \<times> ClusterTopic" where
  "Listen capsuleID replicaID bufferSize t = (let
     bufferSize = (if bufferSize \<le> 0 then 8 else bufferSize);
     key = (capsuleID, replicaID);
     l = newListener (nat bufferSize);
     a = length (ct_heap t);
     t = (case map_of (ct_listeners t) key of None \<Rightarrow> t | Some existing \<Rightarrow> modify existing listener_close t);
     queued = (case map_of (ct_buffered t) key of None \<Rightarrow> [] | Some q \<Rightarrow> q)
     in (a, t\<lparr>ct_listeners := mput key a (ct_listeners t), ct_buffered := mdel key (ct_buffered t),
              ct_heap := ct_heap t @ [fold replay queued l]\<rparr>))"

definition Unlisten :: "messageKey \<Rightarrow> nat \<Rightarrow> ClusterTopic \<Rightarrow> ClusterTopic" where
  "Unlisten key a t = (let
     t = (if map_of (ct_listeners t) key = Some a then t\<lparr>ct_listeners := mdel key (ct_listeners t)\<rparr> else t)
     in modify a listener_close t)"

definition appendField :: "string \<Rightarrow> string \<Rightarrow> string" where
  "appendField buf data = buf @ PutUint32 (length data) @ data"

definition canonicalContent :: "ElectionMessage \<Rightarrow> string" where
  "canonicalContent msg = (let
     buf = appendField [] (env_Type msg);
     buf = appendField buf (env_Payload msg);
     buf = appendField buf (env_SenderId msg);
     tsBytes = (case env_Timestamp msg of None \<Rightarrow> [] | Some ts \<Rightarrow> PutUint64 (u64 (s64 ts)))
     in appendField buf tsBytes)"

datatype payload = PClaim Claim | PFailed ElectionFailed

fun marshalPayload :: "codec \<Rightarrow> payload \<Rightarrow> string + string" where
  "marshalPayload cd (PClaim c) = marshalClaim cd c"
| "marshalPayload cd (PFailed f) = marshalFailed cd f"

text \<open>\<open>pubErr\<close> is what the libp2p publish call returned; the result is the error of \<^verbatim>\<open>publish\<close>, if any.\<close>

definition publish ::
  "codec \<Rightarrow> time \<Rightarrow> string option \<Rightarrow> string \<Rightarrow> payload \<Rightarrow> ClusterTopic \<Rightarrow> string option \<times> ClusterTopic" where
  "publish cd now pubErr msgType payload t = (case marshalPayload cd payload of
     Inl err \<Rightarrow> (Some (''election topic: marshal payload: '' @ err), t)
   | Inr rawPayload \<Rightarrow> (let
       envelope = \<lparr>env_Type = msgType, env_Payload = rawPayload, env_SenderId = ct_nodeID t,
         env_Timestamp = Some now, env_Signature = []\<rparr>;
       signed = (case ct_signer t of
           None \<Rightarrow> Inr envelope
         | Some sign \<Rightarrow> (case sign (canonicalContent envelope) of
             Inl err \<Rightarrow> Inl (''election topic: sign: '' @ err)
           | Inr sig \<Rightarrow> Inr (envelope\<lparr>env_Signature := sig\<rparr>)))
     in case signed of
       Inl err \<Rightarrow> (Some err, t)
     | Inr envelope \<Rightarrow> (case marshalEnvelope cd envelope of
         Inl err \<Rightarrow> (Some (''election topic: marshal envelope: '' @ err), t)
       | Inr data \<Rightarrow> (case pubErr of
           Some err \<Rightarrow> (Some (''election topic: publish: '' @ err), t)
         | None \<Rightarrow> (None, t\<lparr>ct_sent := ct_sent t @ [data]\<rparr>)))))"

definition PublishClaim ::
  "codec \<Rightarrow> time \<Rightarrow> string option \<Rightarrow> Claim \<Rightarrow> ClusterTopic \<Rightarrow> string option \<times> ClusterTopic" where
  "PublishClaim cd now pubErr claim t = publish cd now pubErr ''claim'' (PClaim claim) t"

definition PublishFailure ::
  "codec \<Rightarrow> time \<Rightarrow> string option \<Rightarrow> ElectionFailed \<Rightarrow> ClusterTopic \<Rightarrow> string option \<times> ClusterTopic" where
  "PublishFailure cd now pubErr failed t = publish cd now pubErr ''failed'' (PFailed failed) t"

definition Topic_Stop :: "ClusterTopic \<Rightarrow> ClusterTopic" where
  "Topic_Stop t = (if ct_cancelled t then t else let
     t = fold (\<lambda>(key, a). modify a listener_close) (ct_listeners t) t
     in t\<lparr>ct_cancelled := True, ct_listeners := [], ct_buffered := []\<rparr>)"

definition buffer :: "messageKey \<Rightarrow> bufferedMessage \<Rightarrow> ClusterTopic \<Rightarrow> ClusterTopic" where
  "buffer key m t = (let q = (case map_of (ct_buffered t) key of None \<Rightarrow> [] | Some q \<Rightarrow> q)
     in t\<lparr>ct_buffered := mput key (q @ [m]) (ct_buffered t)\<rparr>)"

definition dispatchClaim :: "time \<Rightarrow> Claim \<Rightarrow> ClusterTopic \<Rightarrow> ClusterTopic" where
  "dispatchClaim now claim t = (let key = (cl_CapsuleId claim, cl_ReplicaId claim) in
     case map_of (ct_listeners t) key of
       None \<Rightarrow> buffer key \<lparr>bm_receivedAt = now, bm_claim = Some claim, bm_failed = None\<rparr> t
     | Some a \<Rightarrow> modify a (listener_dispatchClaim claim) t)"

definition dispatchFailure :: "time \<Rightarrow> ElectionFailed \<Rightarrow> ClusterTopic \<Rightarrow> ClusterTopic" where
  "dispatchFailure now f t = (let key = (ef_CapsuleId f, ef_ReplicaId f) in
     case map_of (ct_listeners t) key of
       None \<Rightarrow> buffer key \<lparr>bm_receivedAt = now, bm_claim = None, bm_failed = Some f\<rparr> t
     | Some a \<Rightarrow> modify a (listener_dispatchFailure f) t)"

definition handle :: "codec \<Rightarrow> time \<Rightarrow> string \<Rightarrow> ClusterTopic \<Rightarrow> ClusterTopic" where
  "handle cd now data t = (case unmarshalEnvelope cd data of
     None \<Rightarrow> t
   | Some envelope \<Rightarrow>
       if env_SenderId envelope = ct_nodeID t then t
       else if (case env_Timestamp envelope of None \<Rightarrow> False | Some ts \<Rightarrow> now - ts > 30 * Second) then t
       else if (case ct_verifier t of None \<Rightarrow> False
          | Some verify \<Rightarrow> \<not> verify (env_SenderId envelope) (canonicalContent envelope) (env_Signature envelope)) then t
       else if env_Type envelope = ''claim'' then
         (case unmarshalClaim cd (env_Payload envelope) of None \<Rightarrow> t | Some claim \<Rightarrow> dispatchClaim now claim t)
       else if env_Type envelope = ''failed'' then
         (case unmarshalFailed cd (env_Payload envelope) of None \<Rightarrow> t | Some failed \<Rightarrow> dispatchFailure now failed t)
       else t)"

text \<open>One turn of the receive loop on a message with its libp2p sender, arriving at \<open>now\<close>.\<close>

fun loop_step :: "codec \<Rightarrow> time \<times> string \<times> string \<Rightarrow> ClusterTopic \<Rightarrow> ClusterTopic" where
  "loop_step cd (now, receivedFrom, data) t = (if receivedFrom = ct_nodeID t then t else handle cd now data t)"

definition Topic_loop :: "codec \<Rightarrow> (time \<times> string \<times> string) list \<Rightarrow> ClusterTopic \<Rightarrow> ClusterTopic" where
  "Topic_loop cd msgs t = fold (loop_step cd) msgs t"

fun sweepEntries :: "time \<Rightarrow> (messageKey, bufferedMessage list) gomap \<Rightarrow> (messageKey, bufferedMessage list) gomap" where
  "sweepEntries cutoff [] = []"
| "sweepEntries cutoff ((key, msgs) # rest) =
     (let kept = filter (\<lambda>m. cutoff < bm_receivedAt m) msgs
      in if kept = [] then sweepEntries cutoff rest else (key, kept) # sweepEntries cutoff rest)"

definition sweepBuffer :: "time \<Rightarrow> ClusterTopic \<Rightarrow> ClusterTopic" where
  "sweepBuffer now t = t\<lparr>ct_buffered := sweepEntries (now - bufferTTL) (ct_buffered t)\<rparr>"

subsection \<open>Specification\<close>

text \<open>What the code relies on of protobuf: decoding inverts encoding.\<close>

definition codec_law :: "codec \<Rightarrow> bool" where
  "codec_law cd \<longleftrightarrow>
     (\<forall>e d. marshalEnvelope cd e = Inr d \<longrightarrow> unmarshalEnvelope cd d = Some e) \<and>
     (\<forall>c d. marshalClaim cd c = Inr d \<longrightarrow> unmarshalClaim cd d = Some c) \<and>
     (\<forall>f d. marshalFailed cd f = Inr d \<longrightarrow> unmarshalFailed cd d = Some f)"

text \<open>The topic invariant: both maps are maps, every registered listener is on the heap and open, two keys
  never share a listener, and no key has both a listener and buffered messages.\<close>

definition topic_inv :: "ClusterTopic \<Rightarrow> bool" where
  "topic_inv t \<longleftrightarrow> wf_map (ct_listeners t) \<and> wf_map (ct_buffered t) \<and>
     (\<forall>k a. map_of (ct_listeners t) k = Some a \<longrightarrow> a < length (ct_heap t) \<and> \<not> l_closed (ct_heap t ! a)) \<and>
     (\<forall>k k' a. map_of (ct_listeners t) k = Some a \<longrightarrow> map_of (ct_listeners t) k' = Some a \<longrightarrow> k = k') \<and>
     (\<forall>k q. map_of (ct_buffered t) k = Some q \<longrightarrow> map_of (ct_listeners t) k = None \<and> q \<noteq> [])"

text \<open>Everything a topic does, as one sequence of calls.\<close>

datatype topic_call = TListen string string int | TUnlisten messageKey nat
  | TReceive "time \<times> string \<times> string" | TSweep time | TStop

fun topic_do :: "codec \<Rightarrow> topic_call \<Rightarrow> ClusterTopic \<Rightarrow> ClusterTopic" where
  "topic_do cd (TListen c r n) t = snd (Listen c r n t)"
| "topic_do cd (TUnlisten key a) t =
     (if a < length (ct_heap t) \<and> list_all (\<lambda>(k, b). b = a \<longrightarrow> k = key) (ct_listeners t) then Unlisten key a t else t)"
| "topic_do cd (TReceive m) t = loop_step cd m t"
| "topic_do cd (TSweep now) t = sweepBuffer now t"
| "topic_do cd TStop t = Topic_Stop t"

definition claimKey :: "Claim \<Rightarrow> messageKey" where
  "claimKey c = (cl_CapsuleId c, cl_ReplicaId c)"

definition failureKey :: "ElectionFailed \<Rightarrow> messageKey" where
  "failureKey f = (ef_CapsuleId f, ef_ReplicaId f)"

text \<open>Messages that reach a topic while sweeps run: arrivals and sweeps in time order.\<close>

datatype arrival = Arrive time payload | Sweep time

fun payloadKey :: "payload \<Rightarrow> messageKey" where
  "payloadKey (PClaim c) = claimKey c"
| "payloadKey (PFailed f) = failureKey f"

fun topic_arrive :: "arrival \<Rightarrow> ClusterTopic \<Rightarrow> ClusterTopic" where
  "topic_arrive (Arrive now (PClaim c)) t = dispatchClaim now c t"
| "topic_arrive (Arrive now (PFailed f)) t = dispatchFailure now f t"
| "topic_arrive (Sweep now) t = sweepBuffer now t"

fun arrivedClaims :: "messageKey \<Rightarrow> arrival list \<Rightarrow> Claim list" where
  "arrivedClaims key [] = []"
| "arrivedClaims key (Arrive _ (PClaim c) # evs) = (if claimKey c = key then c # arrivedClaims key evs else arrivedClaims key evs)"
| "arrivedClaims key (_ # evs) = arrivedClaims key evs"

fun arrivedFailures :: "messageKey \<Rightarrow> arrival list \<Rightarrow> ElectionFailed list" where
  "arrivedFailures key [] = []"
| "arrivedFailures key (Arrive _ (PFailed f) # evs) = (if failureKey f = key then f # arrivedFailures key evs else arrivedFailures key evs)"
| "arrivedFailures key (_ # evs) = arrivedFailures key evs"

text \<open>No sweep finds an arrival for the key that is three seconds old.\<close>

definition unexpired :: "messageKey \<Rightarrow> arrival list \<Rightarrow> bool" where
  "unexpired key evs \<longleftrightarrow> (\<forall>ev \<in> set evs. \<forall>ev' \<in> set evs. case (ev, ev') of
     (Arrive \<tau> m, Sweep now) \<Rightarrow> payloadKey m = key \<longrightarrow> now - bufferTTL < \<tau> | _ \<Rightarrow> True)"

definition queue_of :: "messageKey \<Rightarrow> ClusterTopic \<Rightarrow> bufferedMessage list" where
  "queue_of key t = (case map_of (ct_buffered t) key of None \<Rightarrow> [] | Some q \<Rightarrow> q)"

text \<open>A codec for the concrete runs: it keeps only the fields the runs use.\<close>

definition sample_claim :: Claim where
  "sample_claim = \<lparr>cl_CapsuleId = ''c1'', cl_ReplicaId = ''0'', cl_ClusterPath = ''eu'', cl_NodeId = ''n2'',
     cl_GravityScore = 70, cl_TimestampMicros = 0\<rparr>"

definition sample_envelope :: ElectionMessage where
  "sample_envelope = \<lparr>env_Type = ''claim'', env_Payload = ''p'', env_SenderId = ''n2'', env_Timestamp = Some 5,
     env_Signature = ''sig''\<rparr>"

definition sample_codec :: codec where
  "sample_codec = \<lparr>
     marshalEnvelope = (\<lambda>e. if e = sample_envelope then Inr ''e'' else Inl ''unsupported''),
     marshalClaim = (\<lambda>c. if c = sample_claim then Inr ''p'' else Inl ''unsupported''),
     marshalFailed = (\<lambda>f. Inl ''unsupported''),
     unmarshalEnvelope = (\<lambda>d. if d = ''e'' then Some sample_envelope else None),
     unmarshalClaim = (\<lambda>d. if d = ''p'' then Some sample_claim else None),
     unmarshalFailed = (\<lambda>d. None)\<rparr>"

section \<open>Lemmas\<close>

lemma modify_simps [simp]:
  "ct_listeners (modify a f t) = ct_listeners t" "ct_buffered (modify a f t) = ct_buffered t"
  "length (ct_heap (modify a f t)) = length (ct_heap t)" "ct_nodeID (modify a f t) = ct_nodeID t"
  "ct_cancelled (modify a f t) = ct_cancelled t"
  by (simp_all add: modify_def)

lemma appendField_field: "appendField buf data = buf @ field data"
  by (simp add: appendField_def field_def)

interpretation electionField: prefix_free "appendField []" short
  by unfold_locales (simp only: appendField_field append_Nil field.then_unique)

subsection \<open>Channels and replay\<close>

lemma dispatch_channels [simp]:
  "l_cap (listener_dispatchClaim c l) = l_cap l" "l_cap (listener_dispatchFailure f l) = l_cap l"
  "l_closed (listener_dispatchClaim c l) = l_closed l" "l_closed (listener_dispatchFailure f l) = l_closed l"
  "l_failures (listener_dispatchClaim c l) = l_failures l" "l_claims (listener_dispatchFailure f l) = l_claims l"
  by (simp_all add: listener_dispatchClaim_def listener_dispatchFailure_def)

lemma replay_cap [simp]: "l_cap (replay m l) = l_cap l" "l_closed (replay m l) = l_closed l"
  by (simp_all add: replay_def Let_def split: option.split)

lemma fold_replay_open [simp]: "l_closed (fold replay q l) = l_closed l" "l_cap (fold replay q l) = l_cap l"
  by (induction q arbitrary: l) simp_all

lemma replay_claims:
  assumes "\<not> l_closed l" "length (l_claims l) \<le> l_cap l"
  shows "l_claims (replay m l) = take (l_cap l) (l_claims l @ (case bm_claim m of None \<Rightarrow> [] | Some c \<Rightarrow> [c]))"
  using assms by (auto simp: replay_def listener_dispatchClaim_def Let_def split: option.split)

lemma replay_failures:
  assumes "\<not> l_closed l" "length (l_failures l) \<le> l_cap l"
  shows "l_failures (replay m l) = take (l_cap l) (l_failures l @ (case bm_failed m of None \<Rightarrow> [] | Some c \<Rightarrow> [c]))"
  using assms by (auto simp: replay_def listener_dispatchFailure_def Let_def split: option.split)

lemma take_prefix_append: "take n (take n xs @ ys) = take n (xs @ ys)"
  by (cases "n \<le> length xs") (simp_all add: min_def)

lemma fold_replay_claims:
  "\<not> l_closed l \<Longrightarrow> length (l_claims l) \<le> l_cap l \<Longrightarrow>
   l_claims (fold replay q l) = take (l_cap l) (l_claims l @ List.map_filter bm_claim q)"
proof (induction q arbitrary: l)
  case (Cons m q)
  let ?x = "case bm_claim m of None \<Rightarrow> [] | Some c \<Rightarrow> [c]"
  have "l_claims (fold replay q (replay m l)) = take (l_cap l) (l_claims (replay m l) @ List.map_filter bm_claim q)"
    using Cons replay_claims [OF Cons.prems, of m] by simp
  also have "\<dots> = take (l_cap l) (l_claims l @ ?x @ List.map_filter bm_claim q)"
    by (simp only: replay_claims [OF Cons.prems] take_prefix_append append_assoc)
  also have "?x @ List.map_filter bm_claim q = List.map_filter bm_claim (m # q)"
    by (simp add: map_filter_simps split: option.split)
  finally show ?case by simp
qed (simp add: List.map_filter_def)

lemma fold_replay_failures:
  "\<not> l_closed l \<Longrightarrow> length (l_failures l) \<le> l_cap l \<Longrightarrow>
   l_failures (fold replay q l) = take (l_cap l) (l_failures l @ List.map_filter bm_failed q)"
proof (induction q arbitrary: l)
  case (Cons m q)
  let ?x = "case bm_failed m of None \<Rightarrow> [] | Some c \<Rightarrow> [c]"
  have "l_failures (fold replay q (replay m l)) = take (l_cap l) (l_failures (replay m l) @ List.map_filter bm_failed q)"
    using Cons replay_failures [OF Cons.prems, of m] by simp
  also have "\<dots> = take (l_cap l) (l_failures l @ ?x @ List.map_filter bm_failed q)"
    by (simp only: replay_failures [OF Cons.prems] take_prefix_append append_assoc)
  also have "?x @ List.map_filter bm_failed q = List.map_filter bm_failed (m # q)"
    by (simp add: map_filter_simps split: option.split)
  finally show ?case by simp
qed (simp add: List.map_filter_def)

subsection \<open>The buffer\<close>

lemma sweepEntries_alt:
  "sweepEntries c m = filter (\<lambda>(k, q). q \<noteq> []) (map (\<lambda>(k, q). (k, filter (\<lambda>x. c < bm_receivedAt x) q)) m)"
  by (induction m) (auto simp: Let_def)

lemma wf_map_sweepEntries [simp]: "wf_map m \<Longrightarrow> wf_map (sweepEntries c m)"
  unfolding sweepEntries_alt by (rule wf_map_filter) (simp add: wf_map_def split_def comp_def)

lemma sweepEntries_mem:
  "(k, q) \<in> set (sweepEntries c m) \<Longrightarrow> q \<noteq> [] \<and> (\<exists>q'. (k, q') \<in> set m \<and> q = filter (\<lambda>x. c < bm_receivedAt x) q')"
  by (auto simp: sweepEntries_alt)

lemma map_of_sweepEntries:
  assumes "wf_map m"
  shows "map_of (sweepEntries c m) k =
     (case map_of m k of None \<Rightarrow> None
      | Some q \<Rightarrow> if filter (\<lambda>x. c < bm_receivedAt x) q = [] then None else Some (filter (\<lambda>x. c < bm_receivedAt x) q))"
proof -
  have "wf_map (map (\<lambda>(k, q). (k, filter (\<lambda>x. c < bm_receivedAt x) q)) m)"
    using assms by (simp add: wf_map_def split_def comp_def)
  then show ?thesis
    unfolding sweepEntries_alt by (subst map_of_filter_value) (simp_all add: map_of_map split: option.split)
qed

subsection \<open>The invariant\<close>

lemma topic_inv_NewClusterTopic: "topic_inv (NewClusterTopic c n s v)"
  by (simp add: topic_inv_def NewClusterTopic_def)

lemma topic_invD:
  assumes "topic_inv t"
  shows "wf_map (ct_listeners t)" "wf_map (ct_buffered t)"
    and "map_of (ct_listeners t) k = Some a \<Longrightarrow> a < length (ct_heap t) \<and> \<not> l_closed (ct_heap t ! a)"
    and "map_of (ct_listeners t) k = Some a \<Longrightarrow> map_of (ct_listeners t) k' = Some a \<Longrightarrow> k = k'"
    and "map_of (ct_buffered t) k = Some q \<Longrightarrow> map_of (ct_listeners t) k = None \<and> q \<noteq> []"
  using assms unfolding topic_inv_def by blast+

lemma modify_nth:
  "ct_heap (modify a f t) ! b = (if a = b \<and> a < length (ct_heap t) then f (ct_heap t ! a) else ct_heap t ! b)"
  by (cases "a < length (ct_heap t)"; cases "a = b") (simp_all add: modify_def list_update_beyond)

lemma topic_inv_modify:
  assumes "topic_inv t" "\<And>l. \<not> l_closed l \<Longrightarrow> \<not> l_closed (f l)"
  shows "topic_inv (modify a f t)"
  using assms unfolding topic_inv_def by (simp add: modify_nth)

lemma topic_inv_buffer:
  assumes "topic_inv t" "map_of (ct_listeners t) key = None"
  shows "topic_inv (buffer key m t)"
  using assms by (auto simp: topic_inv_def buffer_def Let_def)

lemma topic_inv_dispatchClaim: "topic_inv t \<Longrightarrow> topic_inv (dispatchClaim now c t)"
  by (auto simp: dispatchClaim_def Let_def intro: topic_inv_buffer topic_inv_modify split: option.split)

lemma topic_inv_dispatchFailure: "topic_inv t \<Longrightarrow> topic_inv (dispatchFailure now c t)"
  by (auto simp: dispatchFailure_def Let_def intro: topic_inv_buffer topic_inv_modify split: option.split)

lemma topic_inv_loop_step: "topic_inv t \<Longrightarrow> topic_inv (loop_step cd m t)"
  by (cases m) (auto simp: handle_def intro: topic_inv_dispatchClaim topic_inv_dispatchFailure split: option.split)

lemma topic_inv_sweepBuffer: "topic_inv t \<Longrightarrow> topic_inv (sweepBuffer now t)"
  by (auto simp: topic_inv_def sweepBuffer_def map_of_sweepEntries split: option.splits if_splits)

lemma topic_inv_Unlisten:
  assumes "topic_inv t" "list_all (\<lambda>(k, b). b = a \<longrightarrow> k = key) (ct_listeners t)"
  shows "topic_inv (Unlisten key a t)"
proof -
  have "k = key" if "map_of (ct_listeners t) k = Some a" for k
    using assms(2) map_of_SomeD [OF that] by (auto simp: list_all_iff)
  then have other: "b \<noteq> a" if "map_of (ct_listeners t) k = Some b" "k \<noteq> key" for k b using that by blast
  show ?thesis
  proof (cases "map_of (ct_listeners t) key = Some a")
    case True
    have "topic_inv (modify a listener_close (t\<lparr>ct_listeners := mdel key (ct_listeners t)\<rparr>))"
      unfolding topic_inv_def
      using assms(1) [unfolded topic_inv_def] other
      by (simp add: modify_nth fun_upd_apply del: split_paired_All) blast
    with True show ?thesis by (simp add: Unlisten_def)
  next
    case False
    then have "b \<noteq> a" if "map_of (ct_listeners t) k = Some b" for k b using other that by metis
    then have "topic_inv (modify a listener_close t)"
      using assms(1) [unfolded topic_inv_def] unfolding topic_inv_def
      by (simp add: modify_nth del: split_paired_All) blast
    with False show ?thesis by (simp add: Unlisten_def)
  qed
qed

lemma topic_inv_register:
  assumes "wf_map (ct_listeners t)" "wf_map (ct_buffered t)" "\<not> l_closed l"
    and old: "\<And>k b. map_of (ct_listeners t) k = Some b \<Longrightarrow> k \<noteq> key \<Longrightarrow> b < length (ct_heap t) \<and> \<not> l_closed (ct_heap t ! b)"
    and inj: "\<And>k k' b. map_of (ct_listeners t) k = Some b \<Longrightarrow> map_of (ct_listeners t) k' = Some b \<Longrightarrow> k = k'"
    and buf: "\<And>k q. map_of (ct_buffered t) k = Some q \<Longrightarrow> map_of (ct_listeners t) k = None \<and> q \<noteq> []"
  shows "topic_inv (t\<lparr>ct_listeners := mput key (length (ct_heap t)) (ct_listeners t),
    ct_buffered := mdel key (ct_buffered t), ct_heap := ct_heap t @ [l]\<rparr>)"
  unfolding topic_inv_def
proof (intro conjI allI impI)
  fix k b assume "map_of (ct_listeners (t\<lparr>ct_listeners := mput key (length (ct_heap t)) (ct_listeners t),
    ct_buffered := mdel key (ct_buffered t), ct_heap := ct_heap t @ [l]\<rparr>)) k = Some b"
  then show "b < length (ct_heap (t\<lparr>ct_listeners := mput key (length (ct_heap t)) (ct_listeners t),
    ct_buffered := mdel key (ct_buffered t), ct_heap := ct_heap t @ [l]\<rparr>))"
    "\<not> l_closed (ct_heap (t\<lparr>ct_listeners := mput key (length (ct_heap t)) (ct_listeners t),
    ct_buffered := mdel key (ct_buffered t), ct_heap := ct_heap t @ [l]\<rparr>) ! b)"
    using old [of k b] assms(3) by (cases "k = key"; force simp: nth_append)+
next
  fix k k' b
  assume "map_of (ct_listeners (t\<lparr>ct_listeners := mput key (length (ct_heap t)) (ct_listeners t),
    ct_buffered := mdel key (ct_buffered t), ct_heap := ct_heap t @ [l]\<rparr>)) k = Some b"
    "map_of (ct_listeners (t\<lparr>ct_listeners := mput key (length (ct_heap t)) (ct_listeners t),
    ct_buffered := mdel key (ct_buffered t), ct_heap := ct_heap t @ [l]\<rparr>)) k' = Some b"
  then show "k = k'" using old [of k b] old [of k' b] inj [of k b k'] by (cases "k = key"; cases "k' = key") auto
qed (use assms(1,2) buf in \<open>simp_all add: fun_upd_apply split: if_splits\<close>)

lemma topic_inv_Listen:
  assumes "topic_inv t"
  shows "topic_inv (snd (Listen c r n t))"
proof -
  define t' where "t' = (case map_of (ct_listeners t) (c, r) of None \<Rightarrow> t | Some e \<Rightarrow> modify e listener_close t)"
  have same [simp]: "ct_listeners t' = ct_listeners t" "ct_buffered t' = ct_buffered t" "length (ct_heap t') = length (ct_heap t)"
    by (simp_all add: t'_def split: option.split)
  have "b < length (ct_heap t') \<and> \<not> l_closed (ct_heap t' ! b)" if "map_of (ct_listeners t') k = Some b" "k \<noteq> (c, r)" for k b
  proof -
    have "b < length (ct_heap t) \<and> \<not> l_closed (ct_heap t ! b)" using topic_invD(3) [OF assms] that by simp
    moreover have "map_of (ct_listeners t) (c, r) \<noteq> Some b" using topic_invD(4) [OF assms, of k b "(c, r)"] that by auto
    ultimately show ?thesis by (auto simp: t'_def modify_nth split: option.split)
  qed
  then have "topic_inv (t'\<lparr>ct_listeners := mput (c, r) (length (ct_heap t')) (ct_listeners t'),
      ct_buffered := mdel (c, r) (ct_buffered t'), ct_heap := ct_heap t' @ [l]\<rparr>)" if "\<not> l_closed l" for l
    using that topic_invD [OF assms] by (intro topic_inv_register) simp_all
  then show ?thesis by (simp add: Listen_def Let_def newListener_def t'_def [symmetric] flip: same(3))
qed

lemma topic_inv_Stop: "topic_inv t \<Longrightarrow> topic_inv (Topic_Stop t)"
  by (simp add: topic_inv_def Topic_Stop_def Let_def)

lemma topic_inv_do: "topic_inv t \<Longrightarrow> topic_inv (topic_do cd call t)"
  by (cases call) (simp_all add: topic_inv_Listen topic_inv_Unlisten topic_inv_loop_step topic_inv_sweepBuffer topic_inv_Stop
      del: loop_step.simps)

subsection \<open>Arrivals before a registration\<close>

lemma queue_of_buffer: "queue_of key (buffer k m t) = (if k = key then queue_of key t @ [m] else queue_of key t)"
  by (simp add: queue_of_def buffer_def Let_def)

lemma queue_of_sweep:
  "wf_map (ct_buffered t) \<Longrightarrow> queue_of key (sweepBuffer now t) = filter (\<lambda>m. now - bufferTTL < bm_receivedAt m) (queue_of key t)"
  by (auto simp: queue_of_def sweepBuffer_def map_of_sweepEntries split: option.splits)

lemma queue_of_modify [simp]: "queue_of key (modify a f t) = queue_of key t"
  by (simp add: queue_of_def)

lemma arrive_listeners [simp]: "ct_listeners (topic_arrive ev t) = ct_listeners t"
  by (induction ev t rule: topic_arrive.induct)
    (auto simp: dispatchClaim_def dispatchFailure_def buffer_def sweepBuffer_def Let_def split: option.split)

lemma topic_inv_arrive: "topic_inv t \<Longrightarrow> topic_inv (topic_arrive ev t)"
  by (induction ev t rule: topic_arrive.induct) (simp_all add: topic_inv_dispatchClaim topic_inv_dispatchFailure topic_inv_sweepBuffer)

lemma queue_of_arrive:
  assumes "map_of (ct_listeners t) key = None" "topic_inv t"
  shows "queue_of key (topic_arrive ev t) = (case ev of
    Arrive \<tau> (PClaim c) \<Rightarrow> if claimKey c = key then queue_of key t @ [\<lparr>bm_receivedAt = \<tau>, bm_claim = Some c, bm_failed = None\<rparr>] else queue_of key t
  | Arrive \<tau> (PFailed f) \<Rightarrow> if failureKey f = key then queue_of key t @ [\<lparr>bm_receivedAt = \<tau>, bm_claim = None, bm_failed = Some f\<rparr>] else queue_of key t
  | Sweep now \<Rightarrow> filter (\<lambda>m. now - bufferTTL < bm_receivedAt m) (queue_of key t))"
  using assms by (auto simp: dispatchClaim_def dispatchFailure_def Let_def queue_of_buffer queue_of_sweep topic_invD(2) claimKey_def
      failureKey_def split: arrival.split payload.split option.split)

lemma arrivals_queued:
  assumes "map_of (ct_listeners t) key = None" "topic_inv t" "unexpired key evs"
    and "\<And>m now. m \<in> set (queue_of key t) \<Longrightarrow> Sweep now \<in> set evs \<Longrightarrow> now - bufferTTL < bm_receivedAt m"
  shows "List.map_filter bm_claim (queue_of key (fold topic_arrive evs t)) =
      List.map_filter bm_claim (queue_of key t) @ arrivedClaims key evs \<and>
    List.map_filter bm_failed (queue_of key (fold topic_arrive evs t)) =
      List.map_filter bm_failed (queue_of key t) @ arrivedFailures key evs"
  using assms
proof (induction evs arbitrary: t)
  case (Cons ev evs)
  let ?t = "topic_arrive ev t"
  note q = queue_of_arrive [OF Cons.prems(1,2), of ev]
  have keep: "filter (\<lambda>m. now - bufferTTL < bm_receivedAt m) (queue_of key t) = queue_of key t" if "ev = Sweep now" for now
    using Cons.prems(4) that by (intro filter_True) auto
  have "now - bufferTTL < bm_receivedAt m" if "m \<in> set (queue_of key ?t)" "Sweep now \<in> set evs" for m now
    using that Cons.prems(3,4) unfolding q unexpired_def
    by (fastforce split: arrival.splits payload.splits if_splits)
  moreover have "unexpired key evs" using Cons.prems(3) by (auto simp: unexpired_def)
  ultimately have "List.map_filter bm_claim (queue_of key (fold topic_arrive evs ?t)) =
      List.map_filter bm_claim (queue_of key ?t) @ arrivedClaims key evs \<and>
    List.map_filter bm_failed (queue_of key (fold topic_arrive evs ?t)) =
      List.map_filter bm_failed (queue_of key ?t) @ arrivedFailures key evs"
    using Cons.prems(1,2) by (intro Cons.IH) (simp_all add: topic_inv_arrive)
  then show ?case using keep unfolding q
    by (auto simp: map_filter_def split: arrival.split payload.split)
qed simp

section \<open>Properties\<close>

text \<open>
  C23. Under every sequence of registrations, cancellations, received messages, sweeps and stops, the topic
  keeps its bookkeeping consistent: every registered listener exists and is open, two rounds never share a
  listener, and a key has buffered messages only while nobody listens for it.
\<close>

theorem topic_invariant: "topic_inv (fold (topic_do cd) calls (NewClusterTopic cluster node signer verifier))"
proof -
  have "topic_inv t \<Longrightarrow> topic_inv (fold (topic_do cd) calls t)" for t
    by (induction calls arbitrary: t) (simp_all add: topic_inv_do)
  then show ?thesis using topic_inv_NewClusterTopic by blast
qed



text \<open>
  C25. Only authentic messages change the topic. If handling received bytes changes anything, then they decode
  to an envelope from another node whose timestamp, when present, is at most 30 seconds old, whose signature
  over the canonical content of the whole envelope verifies under the sender's identity, and whose payload
  decodes to a claim or a failure.
\<close>

theorem handle_authentic:
  assumes "handle cd now data t \<noteq> t" and "ct_verifier t = Some verify"
  shows "\<exists>e. unmarshalEnvelope cd data = Some e \<and> env_SenderId e \<noteq> ct_nodeID t \<and>
    verify (env_SenderId e) (canonicalContent e) (env_Signature e) \<and>
    (\<forall>ts. env_Timestamp e = Some ts \<longrightarrow> now - ts \<le> 30 * Second) \<and>
    (env_Type e = ''claim'' \<and> (\<exists>c. unmarshalClaim cd (env_Payload e) = Some c \<and> handle cd now data t = dispatchClaim now c t) \<or>
     env_Type e = ''failed'' \<and> (\<exists>f. unmarshalFailed cd (env_Payload e) = Some f \<and> handle cd now data t = dispatchFailure now f t))"
  using assms by (auto simp: handle_def not_less split: option.splits if_splits)

theorem handle_authentic_witness:
  "\<exists>e. unmarshalEnvelope sample_codec ''e'' = Some e \<and> env_SenderId e \<noteq> ''n1'' \<and> env_Signature e = ''sig''"
proof -
  let ?v = "\<lambda>s c (g :: string). g = ''sig''"
  let ?t = "NewClusterTopic ''eu'' ''n1'' None (Some ?v)"
  have "handle sample_codec 6 ''e'' ?t \<noteq> ?t"
    by (simp add: handle_def sample_codec_def sample_envelope_def NewClusterTopic_def dispatchClaim_def buffer_def mput_def)
  moreover have "ct_verifier ?t = Some ?v" by (simp add: NewClusterTopic_def)
  ultimately show ?thesis using handle_authentic [of sample_codec 6 "''e''" ?t ?v]
    by (auto simp: NewClusterTopic_def)
qed

text \<open>
  A published claim reaches the other nodes. When \<^verbatim>\<open>PublishClaim\<close> succeeds on one node, the bytes it sent,
  received by another node within 30 seconds, are decoded, pass the signature check against the sender's key
  and are dispatched as exactly the published claim.
\<close>

theorem published_claim_dispatched:
  assumes "codec_law cd" and "PublishClaim cd now None claim t = (None, t')"
    and "ct_signer t = Some sign" and "ct_verifier r = Some verify" and "ct_nodeID r \<noteq> ct_nodeID t"
    and "\<And>content sig. sign content = Inr sig \<Longrightarrow> verify (ct_nodeID t) content sig"
    and "now' - now \<le> 30 * Second"
  shows "\<exists>data. ct_sent t' = ct_sent t @ [data] \<and> handle cd now' data r = dispatchClaim now' claim r"
proof -
  obtain raw where raw: "marshalClaim cd claim = Inr raw"
    using assms(2) by (cases "marshalClaim cd claim") (auto simp: PublishClaim_def publish_def)
  let ?e = "\<lparr>env_Type = ''claim'', env_Payload = raw, env_SenderId = ct_nodeID t, env_Timestamp = Some now, env_Signature = []\<rparr>"
  obtain sig where sig: "sign (canonicalContent ?e) = Inr sig"
    using assms(2,3) raw by (cases "sign (canonicalContent ?e)") (auto simp: PublishClaim_def publish_def)
  let ?s = "?e\<lparr>env_Signature := sig\<rparr>"
  obtain data where data: "marshalEnvelope cd ?s = Inr data"
    using assms(2,3) raw sig by (cases "marshalEnvelope cd ?s") (auto simp: PublishClaim_def publish_def)
  have "ct_sent t' = ct_sent t @ [data]"
    using assms(2,3) raw sig data by (auto simp: PublishClaim_def publish_def)
  moreover have "canonicalContent ?s = canonicalContent ?e" by (simp add: canonicalContent_def)
  moreover have "unmarshalEnvelope cd data = Some ?s" "unmarshalClaim cd raw = Some claim"
    using assms(1) raw data unfolding codec_law_def by blast+
  ultimately show ?thesis using assms(4-7) sig by (auto simp: handle_def)
qed

theorem published_claim_dispatched_witness:
  "let r = NewClusterTopic ''eu'' ''n1'' None (Some (\<lambda>s c g. g = ''sig''));
       t = NewClusterTopic ''eu'' ''n2'' (Some (\<lambda>c. Inr ''sig'')) None
   in \<exists>data. ct_sent (snd (PublishClaim sample_codec 5 None sample_claim t)) = [data] \<and>
        handle sample_codec 7 data r = dispatchClaim 7 sample_claim r"
proof -
  let ?v = "\<lambda>(s :: string) (c :: string) (g :: string). g = ''sig''"
  let ?s = "\<lambda>(c :: string). (Inr ''sig'' :: string + string)"
  let ?r = "NewClusterTopic ''eu'' ''n1'' None (Some ?v)" and ?t = "NewClusterTopic ''eu'' ''n2'' (Some ?s) None"
  have law: "codec_law sample_codec" by (auto simp: codec_law_def sample_codec_def split: if_splits)
  have "PublishClaim sample_codec 5 None sample_claim ?t = (None, ?t\<lparr>ct_sent := [''e'']\<rparr>)"
    by (simp add: PublishClaim_def publish_def sample_codec_def sample_envelope_def NewClusterTopic_def)
  from published_claim_dispatched [OF law this, of ?s ?r ?v 7] this show ?thesis
    by (auto simp: NewClusterTopic_def)
qed

text \<open>
  The signed bytes of an election envelope determine its type, payload, sender and timestamp, for fields
  below \<open>2\<^sup>3\<^sup>2\<close> bytes and timestamps in the \<^verbatim>\<open>int64\<close> nanosecond range.
\<close>

theorem canonicalContent_injective:
  assumes "canonicalContent e = canonicalContent e'"
    and "\<forall>x \<in> {e, e'}. short (env_Type x) \<and> short (env_Payload x) \<and> short (env_SenderId x) \<and>
      (\<forall>ts. env_Timestamp x = Some ts \<longrightarrow> in_s64 ts)"
  shows "e\<lparr>env_Signature := []\<rparr> = e'\<lparr>env_Signature := []\<rparr>"
proof -
  have "canonicalContent x = envelopeContent (env_Type x) (env_Payload x) (env_SenderId x) (env_Timestamp x)" for x
    by (simp add: canonicalContent_def appendField_field envelopeContent_def timeBytes_def)
  with assms have "env_Type e = env_Type e' \<and> env_Payload e = env_Payload e' \<and> env_SenderId e = env_SenderId e' \<and>
    env_Timestamp e = env_Timestamp e'" by (intro envelopeContent_inj) simp_all
  then show ?thesis by (cases e; cases e') simp
qed

theorem canonicalContent_injective_witness:
  "canonicalContent sample_envelope \<noteq> canonicalContent (sample_envelope\<lparr>env_Timestamp := None\<rparr>)"
  using canonicalContent_injective [of sample_envelope "sample_envelope\<lparr>env_Timestamp := None\<rparr>"]
  by (auto simp: sample_envelope_def short_def in_s64_def)

end
