(* ===== verification/Election_Manager.thy ===== *)
theory Election_Manager
  imports Delay Election_Topic
begin

text \<open>
  \<^verbatim>\<open>src/election/manager.go\<close>: the election manager and the rounds it runs.

  Every \<^verbatim>\<open>HandleRequest\<close> starts a goroutine. A goroutine is a record of type \<open>round\<close> in the list \<open>e_rounds\<close>; its
  phase says at which blocking point of \<^verbatim>\<open>runElection\<close> or \<^verbatim>\<open>waitForRemoteVerdict\<close> it is. One action of the
  system is either a call into the manager, a message that reaches a topic, or one goroutine running from its
  blocking point to the next (\<open>round_step\<close>); \<^verbatim>\<open>tryClaimCapsule\<close> and the publish call after it are separate
  steps, because other goroutines can run between them. The choice a Go \<^verbatim>\<open>select\<close> makes among its ready cases
  is the choice of the event. Topics are shared by reference, so the manager maps a cluster to an address in
  \<open>e_topicHeap\<close>. Calls to the lifecycle controller and to the event sink are logged in \<open>e_calls\<close> and
  \<open>e_events\<close>; the errors the controller returns are only printed by the code.
\<close>

section \<open>Definitions\<close>

type_synonym provider = "string \<Rightarrow> string + NodeState"

text \<open>The \<^verbatim>\<open>Strategy\<close> interface: the number is the random source and the time the clock that \<^verbatim>\<open>Decide\<close> reads.\<close>

type_synonym StrategyI = "Request \<Rightarrow> Capsule \<Rightarrow> Calculator \<Rightarrow> provider \<Rightarrow> nat option \<Rightarrow> time \<Rightarrow> Decision"

definition delayStrategy :: "Strategy \<Rightarrow> StrategyI" where
  "delayStrategy s req c calc provider rnd now = Decide s req c calc (provider (rq_ClusterPath req)) rnd now"

subsection \<open>The strategy registry\<close>

record StrategyRegistry =
  reg_default :: "StrategyI option"
  reg_perCluster :: "(string, StrategyI) gomap"

definition NewStrategyRegistry :: "StrategyI option \<Rightarrow> StrategyRegistry" where
  "NewStrategyRegistry d = \<lparr>reg_default = d, reg_perCluster = []\<rparr>"

definition Registry_Set :: "string \<Rightarrow> StrategyI \<Rightarrow> StrategyRegistry \<Rightarrow> StrategyRegistry" where
  "Registry_Set clusterPath s r = r\<lparr>reg_perCluster := mput clusterPath s (reg_perCluster r)\<rparr>"

definition Registry_Get :: "string \<Rightarrow> StrategyRegistry \<Rightarrow> StrategyI option" where
  "Registry_Get clusterPath r =
     (case map_of (reg_perCluster r) clusterPath of Some s \<Rightarrow> Some s | None \<Rightarrow> reg_default r)"

subsection \<open>State\<close>

type_synonym inflightKey = "CapsuleID \<times> string"

datatype phase = Spawned | Remote | Waiting | Claiming | Publishing | Tiebreak | Done Outcome | Panicked

record round =
  r_req :: Request
  r_capsule :: Capsule
  r_strategy :: StrategyI
  r_topic :: nat
  r_listener :: nat
  r_decision :: Decision
  r_deadline :: time
  r_publishedAt :: time
  r_phase :: phase
  r_seen :: "Claim list"

datatype lifecycleCall = StartElection CapsuleID | WinElection CapsuleID | ElectionTimeout CapsuleID

datatype sinkEvent = EmitWon Request string f64 | EmitLost Request string | EmitFailed Request string

record ElectionManager =
  e_nodeID :: string
  e_registry :: StrategyRegistry
  e_store :: "(CapsuleID \<Rightarrow> Capsule option) option"
  e_lifecycle :: bool
  e_calculator :: "Calculator option"
  e_provider :: "provider option"
  e_perClusterCalc :: "(string, Calculator) gomap"
  e_pubsub :: bool
  e_signer :: "Signer option"
  e_verifier :: "Verifier option"
  e_topics :: "(string, nat) gomap"
  e_topicHeap :: "ClusterTopic list"
  e_electionTimeout :: duration
  e_tiebreakWindow :: duration
  e_perClusterTimeout :: "(string, duration) gomap"
  e_inflight :: "(inflightKey, nat) gomap"
  e_localClaims :: "(string, bool) gomap"
  e_started :: bool
  e_cancelled :: bool
  e_rounds :: "round list"
  e_calls :: "lifecycleCall list"
  e_events :: "sinkEvent list"

text \<open>\<^verbatim>\<open>NewManager\<close> with the options of the node: every dependency that the arguments give.\<close>

definition NewElectionManager ::
  "StrategyI option \<Rightarrow> string \<Rightarrow> (CapsuleID \<Rightarrow> Capsule option) option \<Rightarrow> bool \<Rightarrow> Calculator option \<Rightarrow> provider option \<Rightarrow>
   bool \<Rightarrow> Signer option \<Rightarrow> Verifier option \<Rightarrow> ElectionManager" where
  "NewElectionManager strategy nodeID store lifecycle calculator provider pubsub signer verifier = \<lparr>
     e_nodeID = nodeID, e_registry = NewStrategyRegistry strategy, e_store = store, e_lifecycle = lifecycle,
     e_calculator = calculator, e_provider = provider, e_perClusterCalc = [], e_pubsub = pubsub,
     e_signer = signer, e_verifier = verifier, e_topics = [], e_topicHeap = [],
     e_electionTimeout = 10 * Second, e_tiebreakWindow = 300 * Millisecond, e_perClusterTimeout = [],
     e_inflight = [], e_localClaims = [], e_started = False, e_cancelled = False, e_rounds = [],
     e_calls = [], e_events = []\<rparr>"

definition SetClusterCalculator :: "string \<Rightarrow> Calculator option \<Rightarrow> ElectionManager \<Rightarrow> ElectionManager" where
  "SetClusterCalculator clusterPath calc m = (case calc of
     None \<Rightarrow> m\<lparr>e_perClusterCalc := mdel clusterPath (e_perClusterCalc m)\<rparr>
   | Some c \<Rightarrow> m\<lparr>e_perClusterCalc := mput clusterPath c (e_perClusterCalc m)\<rparr>)"

definition SetClusterTimeout :: "string \<Rightarrow> duration \<Rightarrow> ElectionManager \<Rightarrow> ElectionManager" where
  "SetClusterTimeout clusterPath d m =
     (if d \<le> 0 then m\<lparr>e_perClusterTimeout := mdel clusterPath (e_perClusterTimeout m)\<rparr>
      else m\<lparr>e_perClusterTimeout := mput clusterPath d (e_perClusterTimeout m)\<rparr>)"

definition calculatorFor :: "string \<Rightarrow> ElectionManager \<Rightarrow> Calculator option" where
  "calculatorFor clusterPath m =
     (case map_of (e_perClusterCalc m) clusterPath of Some c \<Rightarrow> Some c | None \<Rightarrow> e_calculator m)"

definition timeoutFor :: "string \<Rightarrow> ElectionManager \<Rightarrow> duration" where
  "timeoutFor clusterPath m =
     (case map_of (e_perClusterTimeout m) clusterPath of Some d \<Rightarrow> d | None \<Rightarrow> e_electionTimeout m)"

definition Election_Start :: "ElectionManager \<Rightarrow> ElectionManager" where
  "Election_Start m = (if e_started m then m else m\<lparr>e_started := True\<rparr>)"

text \<open>\<open>openErr\<close> is the error of joining or subscribing to the libp2p topic.\<close>

definition JoinCluster :: "string option \<Rightarrow> string \<Rightarrow> ElectionManager \<Rightarrow> string option \<times> ElectionManager" where
  "JoinCluster openErr clusterPath m =
     (if \<not> e_started m then (Some ''election manager: not started'', m)
      else if map_of (e_topics m) clusterPath \<noteq> None then (None, m)
      else if \<not> e_pubsub m then (Some ''election manager: pubsub not configured'', m)
      else case openErr of
        Some err \<Rightarrow> (Some (''election manager: join cluster '' @ clusterPath @ '': '' @ err), m)
      | None \<Rightarrow> (None, m\<lparr>
          e_topics := mput clusterPath (length (e_topicHeap m)) (e_topics m),
          e_topicHeap := e_topicHeap m @ [NewClusterTopic clusterPath (e_nodeID m) (e_signer m) (e_verifier m)]\<rparr>))"

definition modify_topic :: "nat \<Rightarrow> (ClusterTopic \<Rightarrow> ClusterTopic) \<Rightarrow> ElectionManager \<Rightarrow> ElectionManager" where
  "modify_topic a f m = m\<lparr>e_topicHeap := (e_topicHeap m)[a := f (e_topicHeap m ! a)]\<rparr>"

definition LeaveCluster :: "string \<Rightarrow> ElectionManager \<Rightarrow> ElectionManager" where
  "LeaveCluster clusterPath m = (case map_of (e_topics m) clusterPath of
     None \<Rightarrow> m
   | Some a \<Rightarrow> modify_topic a Topic_Stop (m\<lparr>e_topics := mdel clusterPath (e_topics m)\<rparr>))"

text \<open>\<^verbatim>\<open>Stop\<close> up to and after its wait for the rounds.\<close>

definition Stop_cancel :: "ElectionManager \<Rightarrow> nat list \<times> ElectionManager" where
  "Stop_cancel m = (map snd (e_topics m), m\<lparr>e_cancelled := True, e_inflight := [], e_topics := []\<rparr>)"

definition Stop_topics :: "nat list \<Rightarrow> ElectionManager \<Rightarrow> ElectionManager" where
  "Stop_topics topics m = fold (\<lambda>a. modify_topic a Topic_Stop) topics m"

text \<open>The goroutine of a request before it runs: what it will compute is still zero.\<close>

definition spawn :: "Request \<Rightarrow> Capsule \<Rightarrow> StrategyI \<Rightarrow> nat \<Rightarrow> round" where
  "spawn req c strategy topic = \<lparr>r_req = req, r_capsule = c, r_strategy = strategy, r_topic = topic,
     r_listener = 0, r_decision = \<lparr>d_Eligible = False, d_Score = 0, d_PublishAt = zeroTime, d_Reason = ''''\<rparr>,
     r_deadline = 0, r_publishedAt = 0, r_phase = Spawned, r_seen = []\<rparr>"

definition HandleRequest :: "Request \<Rightarrow> ElectionManager \<Rightarrow> string option \<times> ElectionManager" where
  "HandleRequest req m =
     (if \<not> e_started m then (Some ''election manager: not started'', m)
      else case e_store m of
        None \<Rightarrow> (Some ''election manager: missing required dependency (store, lifecycle, calculator, or provider)'', m)
      | Some store \<Rightarrow>
        if \<not> e_lifecycle m \<or> Option.is_none (e_calculator m) \<or> Option.is_none (e_provider m)
        then (Some ''election manager: missing required dependency (store, lifecycle, calculator, or provider)'', m)
        else case store (rq_CapsuleID req) of
          None \<Rightarrow> (Some (''election manager: capsule '' @ rq_CapsuleID req @ '' not found''), m)
        | Some c \<Rightarrow>
          if map_of (e_inflight m) (rq_CapsuleID req, rq_ReplicaID req) \<noteq> None then (None, m)
          else case map_of (e_topics m) (rq_ClusterPath req) of
            None \<Rightarrow> (Some (''election manager: cluster '' @ rq_ClusterPath req @ '' not joined''), m)
          | Some topic \<Rightarrow> (case Registry_Get (rq_ClusterPath req) (e_registry m) of
              None \<Rightarrow> (Some ''election manager: no strategy configured'', m)
            | Some strategy \<Rightarrow> (None, m\<lparr>
                e_inflight := mput (rq_CapsuleID req, rq_ReplicaID req) (length (e_rounds m)) (e_inflight m),
                e_calls := e_calls m @ [StartElection (rq_CapsuleID req)],
                e_rounds := e_rounds m @ [spawn req c strategy topic]\<rparr>)))"

subsection \<open>Local claims and the tiebreak\<close>

definition hasLocalClaim :: "CapsuleID \<Rightarrow> ElectionManager \<Rightarrow> bool" where
  "hasLocalClaim cid m = (map_of (e_localClaims m) cid = Some True)"

definition tryClaimCapsule :: "CapsuleID \<Rightarrow> ElectionManager \<Rightarrow> bool \<times> ElectionManager" where
  "tryClaimCapsule cid m =
     (if map_of (e_localClaims m) cid = Some True then (False, m)
      else (True, m\<lparr>e_localClaims := mput cid True (e_localClaims m)\<rparr>))"

definition releaseCapsuleClaim :: "CapsuleID \<Rightarrow> ElectionManager \<Rightarrow> ElectionManager" where
  "releaseCapsuleClaim cid m = m\<lparr>e_localClaims := mdel cid (e_localClaims m)\<rparr>"

definition ForgetCapsule :: "CapsuleID \<Rightarrow> ElectionManager \<Rightarrow> ElectionManager" where
  "ForgetCapsule cid m = releaseCapsuleClaim cid m"

definition removeInflight :: "inflightKey \<Rightarrow> ElectionManager \<Rightarrow> ElectionManager" where
  "removeInflight key m = m\<lparr>e_inflight := mdel key (e_inflight m)\<rparr>"

definition isBetter :: "Claim \<Rightarrow> Decision \<Rightarrow> string \<Rightarrow> bool" where
  "isBetter rival ours ourNodeID =
     (if cl_GravityScore rival \<noteq> d_Score ours then cl_GravityScore rival > d_Score ours
      else if cl_TimestampMicros rival \<noteq> UnixMicro (d_PublishAt ours)
        then cl_TimestampMicros rival < UnixMicro (d_PublishAt ours)
      else cl_NodeId rival < ourNodeID)"

subsection \<open>Reporting an outcome\<close>

text \<open>The outside world of one step: the clock, the random source, the codec, and the error of publishing a
  message of the given type, if any.\<close>

record world =
  w_now :: time
  w_rnd :: "nat option"
  w_codec :: codec
  w_net :: "string \<Rightarrow> string option"

definition publishFailureToCluster :: "world \<Rightarrow> Request \<Rightarrow> string \<Rightarrow> ElectionManager \<Rightarrow> ElectionManager" where
  "publishFailureToCluster w req reason m = (case map_of (e_topics m) (rq_ClusterPath req) of
     None \<Rightarrow> m
   | Some a \<Rightarrow> (let msg = \<lparr>ef_CapsuleId = rq_CapsuleID req, ef_ReplicaId = rq_ReplicaID req,
         ef_ClusterPath = rq_ClusterPath req, ef_SenderId = e_nodeID m, ef_Reason = reason,
         ef_TimestampMicros = UnixMicro (w_now w)\<rparr>
       in modify_topic a (\<lambda>t. snd (PublishFailure (w_codec w) (w_now w) (w_net w ''failed'') msg t)) m))"

definition report :: "world \<Rightarrow> Request \<Rightarrow> Outcome \<Rightarrow> string \<Rightarrow> f64 \<Rightarrow> string \<Rightarrow> ElectionManager \<Rightarrow> ElectionManager" where
  "report w req outcome winner score reason m = (case outcome of
     outcomeWon \<Rightarrow> m\<lparr>e_calls := e_calls m @ [WinElection (rq_CapsuleID req)],
       e_events := e_events m @ [EmitWon req winner score]\<rparr>
   | outcomeLost \<Rightarrow> m\<lparr>e_events := e_events m @ [EmitLost req winner]\<rparr>
   | outcomeFailed \<Rightarrow> (let m = releaseCapsuleClaim (rq_CapsuleID req) m in
       publishFailureToCluster w req reason
         (m\<lparr>e_calls := e_calls m @ [ElectionTimeout (rq_CapsuleID req)],
            e_events := e_events m @ [EmitFailed req reason]\<rparr>)))"

subsection \<open>One round\<close>

definition set_round :: "nat \<Rightarrow> round \<Rightarrow> ElectionManager \<Rightarrow> ElectionManager" where
  "set_round i r m = m\<lparr>e_rounds := (e_rounds m)[i := r]\<rparr>"

text \<open>Returning from \<^verbatim>\<open>runElection\<close>: report, then the deferred \<^verbatim>\<open>cancelListen\<close> and \<^verbatim>\<open>removeInflight\<close>.\<close>

definition finish :: "world \<Rightarrow> nat \<Rightarrow> Outcome \<Rightarrow> string \<Rightarrow> f64 \<Rightarrow> string \<Rightarrow> round \<Rightarrow> ElectionManager \<Rightarrow> ElectionManager" where
  "finish w i outcome winner score reason r m = (let
     req = r_req r;
     m = report w req outcome winner score reason m;
     m = modify_topic (r_topic r) (Unlisten (rq_CapsuleID req, rq_ReplicaID req) (r_listener r)) m;
     m = removeInflight (rq_CapsuleID req, rq_ReplicaID req) m
     in set_round i (r\<lparr>r_phase := Done outcome\<rparr>) m)"

definition begin_round :: "world \<Rightarrow> nat \<Rightarrow> round \<Rightarrow> ElectionManager \<Rightarrow> ElectionManager" where
  "begin_round w i r m = (let
     req = r_req r;
     (a, t) = Listen (rq_CapsuleID req) (rq_ReplicaID req) 16 (e_topicHeap m ! r_topic r);
     m = modify_topic (r_topic r) (\<lambda>_. t) m;
     decision = (case (calculatorFor (rq_ClusterPath req) m, e_provider m) of
         (Some calc, Some provider) \<Rightarrow> r_strategy r req (r_capsule r) calc provider (w_rnd w) (w_now w)
       | _ \<Rightarrow> r_decision r);
     deadline = w_now w + timeoutFor (rq_ClusterPath req) m;
     ph = (if \<not> d_Eligible decision then Remote
           else if hasLocalClaim (rq_CapsuleID req) m then Remote
           else if w_now w < d_PublishAt decision then Waiting
           else Claiming)
     in set_round i (r\<lparr>r_listener := a, r_decision := decision, r_deadline := deadline, r_phase := ph\<rparr>) m)"

definition ownClaim :: "string \<Rightarrow> time \<Rightarrow> round \<Rightarrow> Claim" where
  "ownClaim nodeID publishedAt r = \<lparr>cl_CapsuleId = rq_CapsuleID (r_req r), cl_ReplicaId = rq_ReplicaID (r_req r),
     cl_ClusterPath = rq_ClusterPath (r_req r), cl_NodeId = nodeID, cl_GravityScore = d_Score (r_decision r),
     cl_TimestampMicros = UnixMicro publishedAt\<rparr>"

datatype event = EvBegin | EvCancelled | EvClaim | EvFailure | EvPublishTimer | EvDeadline | EvTryClaim | EvPublish

definition receive_claim :: "nat \<Rightarrow> round \<Rightarrow> ElectionManager \<Rightarrow> Claim recv \<times> ElectionManager" where
  "receive_claim i r m = (let t = e_topicHeap m ! r_topic r; (c, l) = recvClaim (ct_heap t ! r_listener r)
     in (c, modify_topic (r_topic r) (modify (r_listener r) (\<lambda>_. l)) m))"

definition receive_failure :: "nat \<Rightarrow> round \<Rightarrow> ElectionManager \<Rightarrow> ElectionFailed recv \<times> ElectionManager" where
  "receive_failure i r m = (let t = e_topicHeap m ! r_topic r; (f, l) = recvFailure (ct_heap t ! r_listener r)
     in (f, modify_topic (r_topic r) (modify (r_listener r) (\<lambda>_. l)) m))"

text \<open>\<open>None\<close> when the event is not possible at the blocking point of the round.\<close>

definition remote_step :: "world \<Rightarrow> event \<Rightarrow> nat \<Rightarrow> round \<Rightarrow> ElectionManager \<Rightarrow> ElectionManager option" where
  "remote_step w ev i r m = (case ev of
     EvCancelled \<Rightarrow> if e_cancelled m then Some (finish w i outcomeFailed '''' 0 ''context cancelled'' r m) else None
   | EvClaim \<Rightarrow> (case receive_claim i r m of
       (Blocked, _) \<Rightarrow> None
     | (ClosedCh, m) \<Rightarrow> Some (finish w i outcomeFailed '''' 0 ''claim channel closed'' r m)
     | (Msg c, m) \<Rightarrow> Some (finish w i outcomeLost (cl_NodeId c) (cl_GravityScore c) '''' (r\<lparr>r_seen := r_seen r @ [c]\<rparr>) m))
   | EvFailure \<Rightarrow> (case receive_failure i r m of
       (Blocked, _) \<Rightarrow> None
     | (ClosedCh, m) \<Rightarrow> Some m
     | (Msg f, m) \<Rightarrow> Some (finish w i outcomeFailed '''' 0 (''remote failure: '' @ ef_Reason f) r m))
   | EvDeadline \<Rightarrow> if r_deadline r \<le> w_now w
       then Some (finish w i outcomeFailed '''' 0 ''election timeout (no claim heard)'' r m) else None
   | _ \<Rightarrow> None)"

definition waiting_step :: "world \<Rightarrow> event \<Rightarrow> nat \<Rightarrow> round \<Rightarrow> ElectionManager \<Rightarrow> ElectionManager option" where
  "waiting_step w ev i r m = (case ev of
     EvCancelled \<Rightarrow> if e_cancelled m then Some (finish w i outcomeFailed '''' 0 ''context cancelled'' r m) else None
   | EvFailure \<Rightarrow> (case receive_failure i r m of
       (Blocked, _) \<Rightarrow> None
     | (ClosedCh, m) \<Rightarrow> Some (set_round i (r\<lparr>r_phase := Panicked\<rparr>) m)
     | (Msg f, m) \<Rightarrow> Some (finish w i outcomeFailed '''' 0 (''remote failure: '' @ ef_Reason f) r m))
   | EvClaim \<Rightarrow> (case receive_claim i r m of
       (Blocked, _) \<Rightarrow> None
     | (ClosedCh, m) \<Rightarrow> Some (set_round i (r\<lparr>r_phase := Panicked\<rparr>) m)
     | (Msg rival, m) \<Rightarrow> (let r = r\<lparr>r_seen := r_seen r @ [rival]\<rparr> in
         if isBetter rival (r_decision r) (e_nodeID m)
         then Some (finish w i outcomeLost (cl_NodeId rival) (cl_GravityScore rival) '''' r m)
         else Some (set_round i (r\<lparr>r_phase := Claiming\<rparr>) m)))
   | EvPublishTimer \<Rightarrow> if d_PublishAt (r_decision r) \<le> w_now w
       then Some (set_round i (r\<lparr>r_phase := Claiming\<rparr>) m) else None
   | EvDeadline \<Rightarrow> if r_deadline r \<le> w_now w
       then Some (finish w i outcomeFailed '''' 0 ''election timeout'' r m) else None
   | _ \<Rightarrow> None)"

definition claiming_step :: "world \<Rightarrow> event \<Rightarrow> nat \<Rightarrow> round \<Rightarrow> ElectionManager \<Rightarrow> ElectionManager option" where
  "claiming_step w ev i r m = (if ev = EvTryClaim then
     (case tryClaimCapsule (rq_CapsuleID (r_req r)) m of
       (False, m) \<Rightarrow> Some (set_round i (r\<lparr>r_phase := Remote\<rparr>) m)
     | (True, m) \<Rightarrow> Some (set_round i (r\<lparr>r_phase := Publishing\<rparr>) m)) else None)"

definition publishing_step :: "world \<Rightarrow> event \<Rightarrow> nat \<Rightarrow> round \<Rightarrow> ElectionManager \<Rightarrow> ElectionManager option" where
  "publishing_step w ev i r m = (if ev = EvPublish then
     (let publishedAt = w_now w;
          (err, t) = PublishClaim (w_codec w) (w_now w) (w_net w ''claim'') (ownClaim (e_nodeID m) publishedAt r)
            (e_topicHeap m ! r_topic r);
          m = modify_topic (r_topic r) (\<lambda>_. t) m
      in case err of
        Some e \<Rightarrow> Some (finish w i outcomeFailed '''' 0 (''publish failed: '' @ e) r
          (releaseCapsuleClaim (rq_CapsuleID (r_req r)) m))
      | None \<Rightarrow> Some (set_round i (r\<lparr>r_publishedAt := publishedAt, r_phase := Tiebreak\<rparr>) m)) else None)"

definition tiebreak_step :: "world \<Rightarrow> event \<Rightarrow> nat \<Rightarrow> round \<Rightarrow> ElectionManager \<Rightarrow> ElectionManager option" where
  "tiebreak_step w ev i r m = (case ev of
     EvCancelled \<Rightarrow> if e_cancelled m then Some (finish w i outcomeFailed '''' 0 ''context cancelled'' r m) else None
   | EvClaim \<Rightarrow> (case receive_claim i r m of
       (Blocked, _) \<Rightarrow> None
     | (ClosedCh, m) \<Rightarrow> Some (set_round i (r\<lparr>r_phase := Panicked\<rparr>) m)
     | (Msg rival, m) \<Rightarrow> (let r = r\<lparr>r_seen := r_seen r @ [rival]\<rparr> in
         if isBetter rival (r_decision r) (e_nodeID m)
         then Some (finish w i outcomeLost (cl_NodeId rival) (cl_GravityScore rival) '''' r
                (releaseCapsuleClaim (rq_CapsuleID (r_req r)) m))
         else Some (set_round i r m)))
   | EvDeadline \<Rightarrow> if r_publishedAt r + e_tiebreakWindow m \<le> w_now w
       then Some (finish w i outcomeWon (e_nodeID m) (d_Score (r_decision r)) '''' r m) else None
   | _ \<Rightarrow> None)"

definition round_step :: "world \<Rightarrow> event \<Rightarrow> nat \<Rightarrow> ElectionManager \<Rightarrow> ElectionManager option" where
  "round_step w ev i m = (if i < length (e_rounds m) then
     (let r = e_rounds m ! i in case r_phase r of
        Spawned \<Rightarrow> if ev = EvBegin then Some (begin_round w i r m) else None
      | Remote \<Rightarrow> remote_step w ev i r m
      | Waiting \<Rightarrow> waiting_step w ev i r m
      | Claiming \<Rightarrow> claiming_step w ev i r m
      | Publishing \<Rightarrow> publishing_step w ev i r m
      | Tiebreak \<Rightarrow> tiebreak_step w ev i r m
      | Done _ \<Rightarrow> None
      | Panicked \<Rightarrow> None) else None)"

subsection \<open>Interleaved runs\<close>

datatype action = AHandle Request | ARound world event nat | AReceive codec nat "time \<times> string \<times> string"
  | ASweep nat time | AJoin "string option" string | ALeave string | AForget CapsuleID
  | AStore "CapsuleID \<Rightarrow> Capsule option" | ATimeout string duration | ACalculator string "Calculator option"
  | AStrategy string StrategyI

fun act :: "action \<Rightarrow> ElectionManager \<Rightarrow> ElectionManager option" where
  "act (AHandle req) m = Some (snd (HandleRequest req m))"
| "act (ARound w ev i) m = round_step w ev i m"
| "act (AReceive cd a msg) m = Some (modify_topic a (loop_step cd msg) m)"
| "act (ASweep a now) m = Some (modify_topic a (sweepBuffer now) m)"
| "act (AJoin err c) m = Some (snd (JoinCluster err c m))"
| "act (ALeave c) m = Some (LeaveCluster c m)"
| "act (AForget cid) m = Some (ForgetCapsule cid m)"
| "act (AStore s) m = Some (m\<lparr>e_store := Some s\<rparr>)"
| "act (ATimeout c d) m = Some (SetClusterTimeout c d m)"
| "act (ACalculator c calc) m = Some (SetClusterCalculator c calc m)"
| "act (AStrategy c s) m = Some (m\<lparr>e_registry := Registry_Set c s (e_registry m)\<rparr>)"

fun run :: "action list \<Rightarrow> ElectionManager \<Rightarrow> ElectionManager option" where
  "run [] m = Some m"
| "run (a # as) m = (case act a m of None \<Rightarrow> None | Some m' \<Rightarrow> run as m')"

end
