(* ===== verification/Election_Rounds.thy ===== *)
theory Election_Rounds
  imports Election_Manager "HOL-Library.Multiset"
begin

text \<open>
  What the rounds of the election manager guarantee. \<open>rstep\<close> is the protocol of one round as a step relation
  over its record and the set of capsules the node has claimed; \<open>round_step_implements\<close> shows that every step of
  the code of \<^verbatim>\<open>runElection\<close> is a step of it. The invariants of all interleavings (\<open>election_inv\<close>, \<open>slot_inv\<close>)
  are then preserved rule by rule.
\<close>

section \<open>Definitions\<close>

definition rkey :: "round \<Rightarrow> inflightKey" where
  "rkey r = (rq_CapsuleID (r_req r), rq_ReplicaID (r_req r))"

definition rcap :: "round \<Rightarrow> CapsuleID" where
  "rcap r = rq_CapsuleID (r_req r)"

fun finished :: "phase \<Rightarrow> bool" where
  "finished (Done _) = True"
| "finished _ = False"

text \<open>The outcomes that the event sink has seen, and the outcome of a round, with the request they answer.\<close>

fun outcome_of :: "sinkEvent \<Rightarrow> Request \<times> Outcome" where
  "outcome_of (EmitWon q _ _) = (q, outcomeWon)"
| "outcome_of (EmitLost q _) = (q, outcomeLost)"
| "outcome_of (EmitFailed q _) = (q, outcomeFailed)"

definition outcome :: "round \<Rightarrow> (Request \<times> Outcome) list" where
  "outcome r = (case r_phase r of Done out \<Rightarrow> [(r_req r, out)] | _ \<Rightarrow> [])"

definition claimed :: "ElectionManager \<Rightarrow> CapsuleID \<Rightarrow> bool" where
  "claimed m cid \<longleftrightarrow> map_of (e_localClaims m) cid = Some True"

text \<open>The protocol of one round: its record and the set of capsules the node has claimed. Every rule is one
  branch of the code between two blocking points.\<close>

inductive rstep :: "string \<Rightarrow> round \<times> (CapsuleID \<Rightarrow> bool) \<Rightarrow> round \<times> (CapsuleID \<Rightarrow> bool) \<Rightarrow> bool" for n where
  start: "r_phase r = Spawned \<Longrightarrow> ph = Remote \<or> (ph = Waiting \<or> ph = Claiming) \<and> d_Eligible d \<and> \<not> C (rcap r) \<Longrightarrow>
    rstep n (r, C) (r\<lparr>r_listener := a, r_decision := d, r_deadline := dl, r_phase := ph\<rparr>, C)"
| spin: "r_phase r = Remote \<Longrightarrow> rstep n (r, C) (r, C)"
| due: "r_phase r = Waiting \<Longrightarrow> rstep n (r, C) (r\<lparr>r_phase := Claiming\<rparr>, C)"
| early: "r_phase r = Waiting \<Longrightarrow> \<not> isBetter c (r_decision r) n \<Longrightarrow>
    rstep n (r, C) (r\<lparr>r_seen := r_seen r @ [c], r_phase := Claiming\<rparr>, C)"
| crash: "r_phase r = Waiting \<or> r_phase r = Tiebreak \<Longrightarrow> rstep n (r, C) (r\<lparr>r_phase := Panicked\<rparr>, C)"
| aside: "r_phase r = Claiming \<Longrightarrow> C (rcap r) \<Longrightarrow> rstep n (r, C) (r\<lparr>r_phase := Remote\<rparr>, C)"
| claim: "r_phase r = Claiming \<Longrightarrow> \<not> C (rcap r) \<Longrightarrow> rstep n (r, C) (r\<lparr>r_phase := Publishing\<rparr>, C(rcap r := True))"
| published: "r_phase r = Publishing \<Longrightarrow> rstep n (r, C) (r\<lparr>r_publishedAt := t, r_phase := Tiebreak\<rparr>, C)"
| ignore: "r_phase r = Tiebreak \<Longrightarrow> \<not> isBetter c (r_decision r) n \<Longrightarrow> rstep n (r, C) (r\<lparr>r_seen := r_seen r @ [c]\<rparr>, C)"
| fail: "r_phase r \<in> {Remote, Waiting, Publishing, Tiebreak} \<Longrightarrow>
    rstep n (r, C) (r\<lparr>r_phase := Done outcomeFailed\<rparr>, C(rcap r := False))"
| mirror: "r_phase r = Remote \<Longrightarrow> rstep n (r, C)
    (r\<lparr>r_seen := r_seen r @ [c], r_phase := Done outcomeLost\<rparr>, C)"
| yield: "r_phase r = Waiting \<Longrightarrow> isBetter c (r_decision r) n \<Longrightarrow> rstep n (r, C)
    (r\<lparr>r_seen := r_seen r @ [c], r_phase := Done outcomeLost\<rparr>, C)"
| beaten: "r_phase r = Tiebreak \<Longrightarrow> isBetter c (r_decision r) n \<Longrightarrow> rstep n (r, C)
    (r\<lparr>r_seen := r_seen r @ [c], r_phase := Done outcomeLost\<rparr>, C(rcap r := False))"
| win: "r_phase r = Tiebreak \<Longrightarrow> rstep n (r, C)
    (r\<lparr>r_phase := Done outcomeWon\<rparr>, C)"

inductive_cases rstepE: "rstep n (r, C) (r', C')"

text \<open>Between actions: unfinished rounds and in-flight entries correspond one to one, the sink has seen
  exactly one outcome per finished round, and the claims it has seen have not beaten it unless it lost.\<close>

definition round_ok :: "string \<Rightarrow> round \<Rightarrow> bool" where
  "round_ok n r \<longleftrightarrow>
     (r_phase r = Spawned \<longrightarrow> r_seen r = []) \<and>
     (r_phase r \<noteq> Done outcomeLost \<longrightarrow> (\<forall>c \<in> set (r_seen r). \<not> isBetter c (r_decision r) n)) \<and>
     (r_phase r \<in> {Waiting, Claiming, Publishing, Tiebreak, Done outcomeWon} \<longrightarrow> d_Eligible (r_decision r))"

definition election_inv :: "ElectionManager \<Rightarrow> bool" where
  "election_inv m \<longleftrightarrow>
     mset (map outcome_of (e_events m)) = mset (concat (map outcome (e_rounds m))) \<and>
     (\<forall>i < length (e_rounds m). round_ok (e_nodeID m) (e_rounds m ! i)) \<and>
     (\<forall>i < length (e_rounds m). \<not> finished (r_phase (e_rounds m ! i)) \<longrightarrow>
        map_of (e_inflight m) (rkey (e_rounds m ! i)) = Some i) \<and>
     (\<forall>k i. map_of (e_inflight m) k = Some i \<longrightarrow>
        i < length (e_rounds m) \<and> rkey (e_rounds m ! i) = k \<and> \<not> finished (r_phase (e_rounds m ! i)))"

text \<open>A round holds the claim slot of its capsule from \<^verbatim>\<open>tryClaimCapsule\<close> on, and keeps it when it wins.\<close>

definition holds :: "round \<Rightarrow> bool" where
  "holds r \<longleftrightarrow> r_phase r \<in> {Publishing, Tiebreak, Done outcomeWon}"

definition slot_inv :: "ElectionManager \<Rightarrow> bool" where
  "slot_inv m \<longleftrightarrow>
     (\<forall>i < length (e_rounds m). holds (e_rounds m ! i) \<longrightarrow> claimed m (rcap (e_rounds m ! i))) \<and>
     (\<forall>i < length (e_rounds m). \<forall>j < length (e_rounds m). holds (e_rounds m ! i) \<longrightarrow> holds (e_rounds m ! j) \<longrightarrow>
        rcap (e_rounds m ! i) = rcap (e_rounds m ! j) \<longrightarrow> i = j)"

text \<open>What it means that a step of the code is a step of the protocol of round \<open>i\<close>.\<close>

definition implements :: "nat \<Rightarrow> ElectionManager \<Rightarrow> ElectionManager \<Rightarrow> bool" where
  "implements i m m' \<longleftrightarrow> (\<exists>r'. rstep (e_nodeID m) (e_rounds m ! i, claimed m) (r', claimed m') \<and>
     e_rounds m' = (e_rounds m)[i := r'] \<and> e_nodeID m' = e_nodeID m \<and>
     e_inflight m' = (if finished (r_phase r') then mdel (rkey (e_rounds m ! i)) (e_inflight m) else e_inflight m) \<and>
     map outcome_of (e_events m') = map outcome_of (e_events m) @ outcome r')"

definition same_core :: "ElectionManager \<Rightarrow> ElectionManager \<Rightarrow> bool" where
  "same_core m m' \<longleftrightarrow> e_rounds m' = e_rounds m \<and> e_inflight m' = e_inflight m \<and> e_nodeID m' = e_nodeID m \<and>
     e_events m' = e_events m"

definition no_failure :: "ElectionManager \<Rightarrow> bool" where
  "no_failure m \<longleftrightarrow> (\<forall>r \<in> set (e_rounds m). r_phase r \<noteq> Done outcomeFailed)"

definition is_forget :: "action \<Rightarrow> bool" where
  "is_forget a \<longleftrightarrow> (\<exists>cid. a = AForget cid)"

text \<open>Steps of round \<open>i\<close> that happen at time \<open>T\<close> or later, over a given network, and that a round ends within
  \<open>n\<close> of them.\<close>

definition late_step :: "nat \<Rightarrow> time \<Rightarrow> codec \<Rightarrow> (string \<Rightarrow> string option) \<Rightarrow> action \<Rightarrow> bool" where
  "late_step i T cd net a \<longleftrightarrow> (\<exists>w ev. a = ARound w ev i \<and> T \<le> w_now w \<and> w_codec w = cd \<and> w_net w = net)"

definition ends :: "nat \<Rightarrow> nat \<Rightarrow> ElectionManager \<Rightarrow> time \<Rightarrow> codec \<Rightarrow> (string \<Rightarrow> string option) \<Rightarrow> bool" where
  "ends n i m T cd net \<longleftrightarrow> (\<exists>as m'. length as \<le> n \<and> (\<forall>a \<in> set as. late_step i T cd net a) \<and> run as m = Some m' \<and>
     finished (r_phase (e_rounds m' ! i)))"

subsection \<open>A concrete manager\<close>

text \<open>A strategy for the concrete runs: every node scores 50 and replica \<open>n\<close> waits \<open>n\<close> times 150 ms.\<close>

definition fixedStrategy :: StrategyI where
  "fixedStrategy req c calc prov rnd now = \<lparr>d_Eligible = True, d_Score = 50,
     d_PublishAt = now + replicaSlot (rq_ReplicaID req) * (150 * Millisecond), d_Reason = ''fixed''\<rparr>"

definition sample_election :: ElectionManager where
  "sample_election = Election_Start (NewElectionManager (Some fixedStrategy) ''n1'' (Some (\<lambda>_. Some sample_capsule)) True
     (Some NewCalculator) (Some (\<lambda>_. Inl ''unused'')) True None None)"

text \<open>The world of a concrete step at time \<open>t\<close>; the codec decodes everything as the given message of another node.\<close>

definition constant_codec :: "string \<Rightarrow> Claim \<Rightarrow> ElectionFailed \<Rightarrow> codec" where
  "constant_codec typ c f = \<lparr>marshalEnvelope = (\<lambda>_. Inr ''e''), marshalClaim = (\<lambda>_. Inr ''c''), marshalFailed = (\<lambda>_. Inr ''f''),
     unmarshalEnvelope = (\<lambda>_. Some \<lparr>env_Type = typ, env_Payload = ''p'', env_SenderId = ''peer'', env_Timestamp = None, env_Signature = ''''\<rparr>),
     unmarshalClaim = (\<lambda>_. Some c), unmarshalFailed = (\<lambda>_. Some f)\<rparr>"

definition remote_failure :: ElectionFailed where
  "remote_failure = \<lparr>ef_CapsuleId = ''c1'', ef_ReplicaId = ''1'', ef_ClusterPath = ''eu'', ef_SenderId = ''n2'',
     ef_Reason = ''election timeout'', ef_TimestampMicros = 0\<rparr>"

definition world_at :: "time \<Rightarrow> world" where
  "world_at t = \<lparr>w_now = t, w_rnd = None, w_codec = constant_codec ''failed'' sample_claim remote_failure, w_net = (\<lambda>_. None)\<rparr>"

definition request :: "string \<Rightarrow> Request" where
  "request replica = sample_request\<lparr>rq_ReplicaID := replica, rq_ClusterPath := ''eu''\<rparr>"

definition phases :: "action list \<Rightarrow> ElectionManager \<Rightarrow> phase list" where
  "phases as m = (case run as m of None \<Rightarrow> [] | Some m' \<Rightarrow> map r_phase (e_rounds m'))"

text \<open>Three replicas fire in parallel; replica 1 is reported failed by a remote node while replica 0 is in its
  tiebreak window.\<close>

definition guard_lost_trace :: "action list" where
  "guard_lost_trace = [AJoin None ''eu'', AHandle (request ''0''), AHandle (request ''1''), AHandle (request ''2''),
     ARound (world_at 0) EvBegin 0, ARound (world_at 0) EvBegin 1, ARound (world_at 0) EvBegin 2,
     ARound (world_at 0) EvTryClaim 0, ARound (world_at 0) EvPublish 0,
     AReceive (constant_codec ''failed'' sample_claim remote_failure) 0 (1, ''n2'', ''m''),
     ARound (world_at 2) EvFailure 1,
     ARound (world_at (300 * Millisecond)) EvDeadline 0,
     ARound (world_at (300 * Millisecond)) EvPublishTimer 2, ARound (world_at (300 * Millisecond)) EvTryClaim 2,
     ARound (world_at (300 * Millisecond)) EvPublish 2, ARound (world_at (600 * Millisecond)) EvDeadline 2]"

text \<open>The cluster is left while a round waits for its publish time; the closed channel is selected.\<close>

definition leave_trace :: "action list" where
  "leave_trace = [AJoin None ''eu'', AHandle (request ''1''), ARound (world_at 0) EvBegin 0, ALeave ''eu'',
     ARound (world_at 1) EvClaim 0]"

text \<open>Node \<open>n\<close> schedules its claim for replica 0 at \<open>start\<close>, publishes it at \<open>published\<close> and receives the rival
  claim in the tiebreak window.\<close>

definition duel_trace :: "time \<Rightarrow> time \<Rightarrow> Claim \<Rightarrow> action list" where
  "duel_trace start published rival = [AJoin None ''eu'', AHandle (request ''0''), ARound (world_at start) EvBegin 0,
     ARound (world_at published) EvTryClaim 0, ARound (world_at published) EvPublish 0,
     AReceive (constant_codec ''claim'' rival remote_failure) 0 (published, ''peer'', ''m''),
     ARound (world_at (published + 1)) EvClaim 0, ARound (world_at (published + 300 * Millisecond)) EvDeadline 0]"

definition duel_claim :: "string \<Rightarrow> int \<Rightarrow> Claim" where
  "duel_claim node micros = \<lparr>cl_CapsuleId = ''c1'', cl_ReplicaId = ''0'', cl_ClusterPath = ''eu'', cl_NodeId = node,
     cl_GravityScore = 50, cl_TimestampMicros = micros\<rparr>"

section \<open>Lemmas\<close>

subsection \<open>Frames\<close>

lemma modify_topic_frame [simp]:
  "e_rounds (modify_topic a f m) = e_rounds m" "e_inflight (modify_topic a f m) = e_inflight m"
  "e_localClaims (modify_topic a f m) = e_localClaims m" "e_nodeID (modify_topic a f m) = e_nodeID m"
  "e_events (modify_topic a f m) = e_events m" "e_cancelled (modify_topic a f m) = e_cancelled m" "e_tiebreakWindow (modify_topic a f m) = e_tiebreakWindow m"
  "claimed (modify_topic a f m) = claimed m"
  by (simp_all add: modify_topic_def claimed_def fun_eq_iff)

lemma release_frame [simp]:
  "e_rounds (releaseCapsuleClaim cid m) = e_rounds m" "e_inflight (releaseCapsuleClaim cid m) = e_inflight m"
  "e_nodeID (releaseCapsuleClaim cid m) = e_nodeID m" "e_events (releaseCapsuleClaim cid m) = e_events m"
  "claimed (releaseCapsuleClaim cid m) = (claimed m)(cid := False)"
  by (simp_all add: releaseCapsuleClaim_def claimed_def fun_eq_iff)

lemma publishFailure_frame [simp]:
  "e_rounds (publishFailureToCluster w q s m) = e_rounds m" "e_inflight (publishFailureToCluster w q s m) = e_inflight m"
  "e_nodeID (publishFailureToCluster w q s m) = e_nodeID m" "e_events (publishFailureToCluster w q s m) = e_events m" "claimed (publishFailureToCluster w q s m) = claimed m"
  by (simp_all add: publishFailureToCluster_def Let_def split: option.split)

lemma claimed_log [simp]: "claimed (m\<lparr>e_calls := x\<rparr>) = claimed m" "claimed (m\<lparr>e_events := y\<rparr>) = claimed m"
  "claimed (m\<lparr>e_rounds := z\<rparr>) = claimed m" "claimed (m\<lparr>e_inflight := u\<rparr>) = claimed m"
  "claimed (m\<lparr>e_topics := tp\<rparr>) = claimed m" "claimed (m\<lparr>e_topicHeap := th\<rparr>) = claimed m"
  "claimed (m\<lparr>e_store := st\<rparr>) = claimed m" "claimed (m\<lparr>e_registry := rg\<rparr>) = claimed m"
  "claimed (m\<lparr>e_perClusterTimeout := pt\<rparr>) = claimed m" "claimed (m\<lparr>e_perClusterCalc := pc\<rparr>) = claimed m"
  by (simp_all add: claimed_def fun_eq_iff)

lemma report_frame [simp]:
  "e_rounds (report w q out win sc rs m) = e_rounds m" "e_inflight (report w q out win sc rs m) = e_inflight m"
  "e_nodeID (report w q out win sc rs m) = e_nodeID m"
  "map outcome_of (e_events (report w q out win sc rs m)) = map outcome_of (e_events m) @ [(q, out)]"
  "claimed (report w q out win sc rs m) = (if out = outcomeFailed then (claimed m)(rq_CapsuleID q := False) else claimed m)"
  by (cases out; simp add: report_def Let_def)+

lemma finish_frame [simp]:
  "e_rounds (finish w i out win sc rs r m) = (e_rounds m)[i := r\<lparr>r_phase := Done out\<rparr>]"
  "e_inflight (finish w i out win sc rs r m) = mdel (rkey r) (e_inflight m)"
  "e_nodeID (finish w i out win sc rs r m) = e_nodeID m"
  "map outcome_of (e_events (finish w i out win sc rs r m)) = map outcome_of (e_events m) @ [(r_req r, out)]"
  "claimed (finish w i out win sc rs r m) = (if out = outcomeFailed then (claimed m)(rcap r := False) else claimed m)"
  by (simp_all add: finish_def Let_def set_round_def removeInflight_def rkey_def rcap_def)

lemma set_round_frame [simp]:
  "e_rounds (set_round i r m) = (e_rounds m)[i := r]" "e_inflight (set_round i r m) = e_inflight m"
  "e_nodeID (set_round i r m) = e_nodeID m" "e_events (set_round i r m) = e_events m" "claimed (set_round i r m) = claimed m"
  by (simp_all add: set_round_def)

lemma receive_frame:
  "receive_claim i r m = (x, m') \<Longrightarrow> e_rounds m' = e_rounds m \<and> e_inflight m' = e_inflight m \<and> e_nodeID m' = e_nodeID m \<and> e_events m' = e_events m \<and> claimed m' = claimed m"
  "receive_failure i r m = (y, m') \<Longrightarrow> e_rounds m' = e_rounds m \<and> e_inflight m' = e_inflight m \<and> e_nodeID m' = e_nodeID m \<and> e_events m' = e_events m \<and> claimed m' = claimed m"
  by (auto simp: receive_claim_def receive_failure_def Let_def split: prod.splits)

subsection \<open>The code implements the protocol\<close>

lemma finish_implements:
  assumes "rstep (e_nodeID m) (e_rounds m ! i, claimed m) (r\<lparr>r_phase := Done out\<rparr>,
      if out = outcomeFailed then (claimed m0)(rcap r := False) else claimed m0)"
    and "e_rounds m0 = e_rounds m" "e_inflight m0 = e_inflight m" "e_nodeID m0 = e_nodeID m" "e_events m0 = e_events m" "r_req r = r_req (e_rounds m ! i)"
  shows "implements i m (finish w i out win sc rs r m0)"
  unfolding implements_def using assms
  by (intro exI [of _ "r\<lparr>r_phase := Done out\<rparr>"]) (simp add: rkey_def outcome_def)

lemma set_round_implements:
  assumes "rstep (e_nodeID m) (e_rounds m ! i, claimed m) (r, claimed m0)" "\<not> finished (r_phase r)"
    and "e_rounds m0 = e_rounds m" "e_inflight m0 = e_inflight m" "e_nodeID m0 = e_nodeID m" "e_events m0 = e_events m"
  shows "implements i m (set_round i r m0)"
  unfolding implements_def using assms
  by (intro exI [of _ r]) (cases "r_phase r"; simp add: outcome_def)

lemma remote_implements:
  assumes "remote_step w ev i (e_rounds m ! i) m = Some m'" "r_phase (e_rounds m ! i) = Remote" "i < length (e_rounds m)"
  shows "implements i m m'"
proof -
  let ?r = "e_rounds m ! i"
  have fail: "implements i m (finish w i outcomeFailed win sc rs ?r m0)"
    if "e_rounds m0 = e_rounds m \<and> e_inflight m0 = e_inflight m \<and> e_nodeID m0 = e_nodeID m \<and> e_events m0 = e_events m \<and> claimed m0 = claimed m" for win sc rs m0
    using that assms(2) by (intro finish_implements) (simp_all add: rstep.fail)
  have lost: "implements i m (finish w i outcomeLost win sc rs (?r\<lparr>r_seen := r_seen ?r @ [c]\<rparr>) m0)"
    if "e_rounds m0 = e_rounds m \<and> e_inflight m0 = e_inflight m \<and> e_nodeID m0 = e_nodeID m \<and> e_events m0 = e_events m \<and> claimed m0 = claimed m" for win sc rs m0 c
    using that rstep.mirror [OF assms(2), of "e_nodeID m" "claimed m" c]
    by (intro finish_implements) simp_all
  have spin: "implements i m m0"
    if "e_rounds m0 = e_rounds m \<and> e_inflight m0 = e_inflight m \<and> e_nodeID m0 = e_nodeID m \<and> e_events m0 = e_events m \<and> claimed m0 = claimed m" for m0
    unfolding implements_def using that assms(2) by (intro exI [of _ ?r]) (simp add: rstep.spin outcome_def)
  show ?thesis using assms(1) fail lost spin
    by (auto simp: remote_step_def dest: receive_frame split: event.splits prod.splits recv.splits if_splits)
qed

lemma waiting_implements:
  assumes "waiting_step w ev i (e_rounds m ! i) m = Some m'" "r_phase (e_rounds m ! i) = Waiting" "i < length (e_rounds m)"
  shows "implements i m m'"
proof -
  let ?r = "e_rounds m ! i"
  let ?same = "\<lambda>m0. e_rounds m0 = e_rounds m \<and> e_inflight m0 = e_inflight m \<and> e_nodeID m0 = e_nodeID m \<and> e_events m0 = e_events m \<and> claimed m0 = claimed m"
  have fail: "implements i m (finish w i outcomeFailed win sc rs ?r m0)" if "?same m0" for win sc rs m0
    using that assms(2) by (intro finish_implements) (simp_all add: rstep.fail)
  have lost: "implements i m (finish w i outcomeLost win sc rs (?r\<lparr>r_seen := r_seen ?r @ [c]\<rparr>) m0)"
    if "?same m0" "isBetter c (r_decision ?r) (e_nodeID m0)" for win sc rs m0 c
    using that rstep.yield [OF assms(2), of c "e_nodeID m" "claimed m"]
    by (intro finish_implements) simp_all
  have early: "implements i m (set_round i (?r\<lparr>r_seen := r_seen ?r @ [c], r_phase := Claiming\<rparr>) m0)"
    if "?same m0" "\<not> isBetter c (r_decision ?r) (e_nodeID m0)" for m0 c
    using that rstep.early [OF assms(2), of c "e_nodeID m" "claimed m"] by (intro set_round_implements) simp_all
  have due: "implements i m (set_round i (?r\<lparr>r_phase := Claiming\<rparr>) m0)" if "?same m0" for m0
    using that assms(2) by (intro set_round_implements) (simp_all add: rstep.due)
  have crash: "implements i m (set_round i (?r\<lparr>r_phase := Panicked\<rparr>) m0)" if "?same m0" for m0
    using that assms(2) by (intro set_round_implements) (simp_all add: rstep.crash)
  show ?thesis using assms(1) fail lost early due crash
    by (auto simp: waiting_step_def Let_def dest: receive_frame split: event.splits prod.splits recv.splits if_splits)
qed

lemma claiming_implements:
  assumes "claiming_step w ev i (e_rounds m ! i) m = Some m'" "r_phase (e_rounds m ! i) = Claiming" "i < length (e_rounds m)"
  shows "implements i m m'"
proof (cases "claimed m (rcap (e_rounds m ! i))")
  case True
  with assms have "m' = set_round i ((e_rounds m ! i)\<lparr>r_phase := Remote\<rparr>) m"
    by (auto simp: claiming_step_def tryClaimCapsule_def claimed_def rcap_def split: if_splits)
  then show ?thesis using True assms(2) by (simp add: set_round_implements rstep.aside)
next
  case False
  with assms have "m' = set_round i ((e_rounds m ! i)\<lparr>r_phase := Publishing\<rparr>)
    (m\<lparr>e_localClaims := mput (rcap (e_rounds m ! i)) True (e_localClaims m)\<rparr>)"
    by (auto simp: claiming_step_def tryClaimCapsule_def claimed_def rcap_def split: if_splits)
  moreover have "claimed (m\<lparr>e_localClaims := mput x True (e_localClaims m)\<rparr>) = (claimed m)(x := True)" for x
    by (simp add: claimed_def fun_eq_iff)
  ultimately show ?thesis using False assms(2) by (simp add: set_round_implements rstep.claim)
qed

lemma publishing_implements:
  assumes "publishing_step w ev i (e_rounds m ! i) m = Some m'" "r_phase (e_rounds m ! i) = Publishing" "i < length (e_rounds m)"
  shows "implements i m m'"
proof -
  let ?r = "e_rounds m ! i"
  have fail: "implements i m (finish w i outcomeFailed win sc rs ?r (releaseCapsuleClaim (rcap ?r) (modify_topic a f m)))" for win sc rs a f
    using assms(2) rstep.fail [of ?r "e_nodeID m" "claimed m"] by (intro finish_implements) simp_all
  have ok: "implements i m (set_round i (?r\<lparr>r_publishedAt := t, r_phase := Tiebreak\<rparr>) (modify_topic a f m))" for t a f
    using assms(2) by (intro set_round_implements) (simp_all add: rstep.published)
  show ?thesis using assms(1) fail ok
    by (auto simp: publishing_step_def Let_def rcap_def split: if_splits prod.splits option.splits)
qed

lemma tiebreak_implements:
  assumes "tiebreak_step w ev i (e_rounds m ! i) m = Some m'" "r_phase (e_rounds m ! i) = Tiebreak" "i < length (e_rounds m)"
  shows "implements i m m'"
proof -
  let ?r = "e_rounds m ! i"
  let ?same = "\<lambda>m0. e_rounds m0 = e_rounds m \<and> e_inflight m0 = e_inflight m \<and> e_nodeID m0 = e_nodeID m \<and> e_events m0 = e_events m \<and> claimed m0 = claimed m"
  have fail: "implements i m (finish w i outcomeFailed win sc rs ?r m0)" if "?same m0" for win sc rs m0
    using that assms(2) by (intro finish_implements) (simp_all add: rstep.fail)
  have lost: "implements i m (finish w i outcomeLost win sc rs (?r\<lparr>r_seen := r_seen ?r @ [c]\<rparr>) (releaseCapsuleClaim (rcap ?r) m0))"
    if "?same m0" "isBetter c (r_decision ?r) (e_nodeID m0)" for win sc rs m0 c
    using that rstep.beaten [OF assms(2), of c "e_nodeID m" "claimed m"]
    by (intro finish_implements) simp_all
  have ignore: "implements i m (set_round i (?r\<lparr>r_seen := r_seen ?r @ [c]\<rparr>) m0)"
    if "?same m0" "\<not> isBetter c (r_decision ?r) (e_nodeID m0)" for m0 c
    using that assms(2) rstep.ignore [OF assms(2), of c "e_nodeID m" "claimed m"] by (intro set_round_implements) simp_all
  have won: "implements i m (finish w i outcomeWon win sc rs ?r m0)" if "?same m0" for win sc rs m0
    using that assms(2) by (intro finish_implements) (simp_all add: rstep.win)
  have crash: "implements i m (set_round i (?r\<lparr>r_phase := Panicked\<rparr>) m0)" if "?same m0" for m0
    using that assms(2) by (intro set_round_implements) (simp_all add: rstep.crash)
  show ?thesis using assms(1) fail lost ignore won crash
    by (auto simp: tiebreak_step_def Let_def rcap_def dest: receive_frame split: event.splits prod.splits recv.splits if_splits)
qed

lemma begin_implements:
  assumes "r_phase (e_rounds m ! i) = Spawned" "i < length (e_rounds m)"
  shows "implements i m (begin_round w i (e_rounds m ! i) m)"
  unfolding begin_round_def Let_def
  by (auto split: prod.split intro!: set_round_implements rstep.start [OF assms(1)] simp: hasLocalClaim_def claimed_def rcap_def modify_topic_def)

lemma round_step_implements: "round_step w ev i m = Some m' \<Longrightarrow> i < length (e_rounds m) \<and> implements i m m'"
  by (auto simp: round_step_def Let_def begin_implements remote_implements waiting_implements claiming_implements
      publishing_implements tiebreak_implements split: if_splits phase.splits)

subsection \<open>Invariants\<close>

lemma rstep_req: "rstep n (r, C) (r', C') \<Longrightarrow> r_req r' = r_req r"
  by (erule rstepE) simp_all

lemma rstep_live: "rstep n (r, C) (r', C') \<Longrightarrow> \<not> finished (r_phase r)"
  by (erule rstepE; (elim disjE)?; simp)

lemma rstep_round_ok:
  assumes "rstep n (r, C) (r', C')" "round_ok n r"
  shows "round_ok n r'"
  using assms(1) by (rule rstepE; (elim disjE conjE)?; use assms(2) in \<open>simp add: round_ok_def\<close>)

lemma election_invD:
  assumes "election_inv m"
  shows "i < length (e_rounds m) \<Longrightarrow> round_ok (e_nodeID m) (e_rounds m ! i)"
    and "i < length (e_rounds m) \<Longrightarrow> \<not> finished (r_phase (e_rounds m ! i)) \<Longrightarrow>
      map_of (e_inflight m) (rkey (e_rounds m ! i)) = Some i"
    and "map_of (e_inflight m) k = Some i \<Longrightarrow>
      i < length (e_rounds m) \<and> rkey (e_rounds m ! i) = k \<and> \<not> finished (r_phase (e_rounds m ! i))"
    and "mset (map outcome_of (e_events m)) = mset (concat (map outcome (e_rounds m)))"
  using assms unfolding election_inv_def by blast+

lemma mset_outcome_update:
  assumes "i < length rs" "outcome (rs ! i) = []"
  shows "mset (concat (map outcome (rs[i := r]))) = mset (concat (map outcome rs)) + mset (outcome r)"
proof -
  have "rs[i := r] = take i rs @ r # drop (Suc i) rs" "rs = take i rs @ rs ! i # drop (Suc i) rs"
    using assms(1) by (simp_all add: upd_conv_take_nth_drop id_take_nth_drop)
  moreover have "mset (concat (map outcome (take i rs @ r # drop (Suc i) rs))) =
      mset (concat (map outcome (take i rs @ rs ! i # drop (Suc i) rs))) + mset (outcome r)"
    using assms(2) by simp
  ultimately show ?thesis by metis
qed

lemma outcome_live: "\<not> finished (r_phase r) \<Longrightarrow> outcome r = []"
  by (cases "r_phase r") (simp_all add: outcome_def)

lemma election_inv_implements:
  assumes "election_inv m" "implements i m m'" "i < length (e_rounds m)"
  shows "election_inv m'"
proof -
  let ?r = "e_rounds m ! i"
  obtain r' where st: "rstep (e_nodeID m) (?r, claimed m) (r', claimed m')"
    and eqs: "e_rounds m' = (e_rounds m)[i := r']" "e_nodeID m' = e_nodeID m"
      "e_inflight m' = (if finished (r_phase r') then mdel (rkey ?r) (e_inflight m) else e_inflight m)"
      "map outcome_of (e_events m') = map outcome_of (e_events m) @ outcome r'"
    using assms(2) unfolding implements_def by blast
  have k: "rkey r' = rkey ?r" using rstep_req [OF st] by (simp add: rkey_def)
  have live: "map_of (e_inflight m) (rkey ?r) = Some i"
    using election_invD(2) [OF assms(1,3) rstep_live [OF st]] .
  have ok: "round_ok (e_nodeID m) r'" using rstep_round_ok [OF st] election_invD(1) [OF assms(1,3)] .
  show ?thesis
    unfolding election_inv_def eqs
  proof (intro conjI allI impI, goal_cases)
    case 1
    show ?case
      using election_invD(4) [OF assms(1)] mset_outcome_update [OF assms(3) outcome_live [OF rstep_live [OF st]], of r'] by simp
  next
    case (2 j)
    then show ?case using ok election_invD(1) [OF assms(1), of j] by (cases "j = i") simp_all
  next
    case (3 j)
    show ?case
    proof (cases "j = i")
      case True
      with 3 assms(3) live k show ?thesis by simp
    next
      case False
      with 3 have j: "map_of (e_inflight m) (rkey (e_rounds m ! j)) = Some j"
        using election_invD(2) [OF assms(1), of j] by simp
      with live False have "rkey (e_rounds m ! j) \<noteq> rkey ?r" by force
      with j False show ?thesis by simp
    qed
  next
    case (4 key j)
    then have "map_of (e_inflight m) key = Some j" by (simp add: fun_upd_apply split: if_splits)
    from election_invD(3) [OF assms(1) this] show ?case by simp
  next
    case (5 key j)
    then have "map_of (e_inflight m) key = Some j" by (simp add: fun_upd_apply split: if_splits)
    from election_invD(3) [OF assms(1) this] k assms(3) show ?case by (cases "j = i") simp_all
  next
    case (6 key j)
    then have e: "map_of (e_inflight m) key = Some j" and ne: "finished (r_phase r') \<Longrightarrow> key \<noteq> rkey ?r"
      by (simp_all add: fun_upd_apply split: if_splits)
    from election_invD(3) [OF assms(1) e] ne assms(3) show ?case by (cases "j = i") auto
  qed
qed

lemma election_inv_same: "same_core m m' \<Longrightarrow> election_inv m \<Longrightarrow> election_inv m'"
  by (simp add: same_core_def election_inv_def)

lemma HandleRequest_cases:
  "snd (HandleRequest req m) = m \<or>
   map_of (e_inflight m) (rq_CapsuleID req, rq_ReplicaID req) = None \<and>
   (\<exists>c st t. snd (HandleRequest req m) =
      m\<lparr>e_inflight := mput (rq_CapsuleID req, rq_ReplicaID req) (length (e_rounds m)) (e_inflight m),
        e_calls := e_calls m @ [StartElection (rq_CapsuleID req)], e_rounds := e_rounds m @ [spawn req c st t]\<rparr>)"
  unfolding HandleRequest_def by (simp split: option.split) blast

lemma spawn_simps [simp]: "rkey (spawn req c st t) = (rq_CapsuleID req, rq_ReplicaID req)" "rcap (spawn req c st t) = rq_CapsuleID req"
  "r_phase (spawn req c st t) = Spawned" "round_ok n (spawn req c st t)" "\<not> holds (spawn req c st t)"
  by (simp_all add: rkey_def rcap_def spawn_def round_ok_def holds_def)

lemma election_inv_spawn:
  assumes "election_inv m" "map_of (e_inflight m) (rkey r) = None" "r_phase r = Spawned" "round_ok (e_nodeID m) r"
  shows "election_inv (m\<lparr>e_inflight := mput (rkey r) (length (e_rounds m)) (e_inflight m), e_calls := calls,
    e_rounds := e_rounds m @ [r]\<rparr>)"
proof -
  have other: "rkey (e_rounds m ! j) \<noteq> rkey r" if "j < length (e_rounds m)" "\<not> finished (r_phase (e_rounds m ! j))" for j
    using that assms(1,2) unfolding election_inv_def by (metis option.distinct(1))
  have entry: "j < length (e_rounds m) \<and> rkey (e_rounds m ! j) = k \<and> \<not> finished (r_phase (e_rounds m ! j))"
    if "map_of (e_inflight m) k = Some j" for k j using that assms(1) unfolding election_inv_def by blast
  show ?thesis unfolding election_inv_def
  proof (intro conjI allI impI, goal_cases)
    case 1
    show ?case using election_invD(4) [OF assms(1)] outcome_live [of r] assms(3) by simp
  next
    case (2 j)
    then show ?case using assms(1,4) unfolding election_inv_def by (cases "j < length (e_rounds m)") (simp_all add: nth_append)
  next
    case (3 j)
    then show ?case using assms(1) other [of j] unfolding election_inv_def
      by (cases "j < length (e_rounds m)") (simp_all add: nth_append)
  next
    case (4 k j)
    then show ?case using entry [of k j] by (cases "k = rkey r") auto
  next
    case (5 k j)
    then show ?case using entry [of k j] by (cases "k = rkey r") (auto simp: nth_append)
  next
    case (6 k j)
    then show ?case using entry [of k j] assms(3) by (cases "k = rkey r") (auto simp: nth_append)
  qed
qed

lemma election_inv_HandleRequest:
  assumes "election_inv m"
  shows "election_inv (snd (HandleRequest req m))"
  using HandleRequest_cases [of req m]
proof (elim disjE conjE exE)
  fix c st t
  assume "map_of (e_inflight m) (rq_CapsuleID req, rq_ReplicaID req) = None"
    "snd (HandleRequest req m) = m\<lparr>e_inflight := mput (rq_CapsuleID req, rq_ReplicaID req) (length (e_rounds m)) (e_inflight m),
       e_calls := e_calls m @ [StartElection (rq_CapsuleID req)], e_rounds := e_rounds m @ [spawn req c st t]\<rparr>"
  then show ?thesis
    using election_inv_spawn [OF assms, of "spawn req c st t" "e_calls m @ [StartElection (rq_CapsuleID req)]"] by simp
qed (use assms in simp)

lemma same_core_calls [simp]:
  "same_core m (snd (JoinCluster err c m))" "same_core m (LeaveCluster c m)" "same_core m (ForgetCapsule cid m)"
  "same_core m (SetClusterTimeout c d m)" "same_core m (SetClusterCalculator c calc m)" "same_core m (modify_topic a f m)"
  "same_core m (m\<lparr>e_store := st\<rparr>)" "same_core m (m\<lparr>e_registry := rg\<rparr>)"
  by (simp_all add: same_core_def JoinCluster_def LeaveCluster_def ForgetCapsule_def SetClusterTimeout_def
      SetClusterCalculator_def split: option.split)

lemma claimed_calls [simp]:
  "claimed (snd (JoinCluster err c m)) = claimed m" "claimed (LeaveCluster c m) = claimed m"
  "claimed (SetClusterTimeout c d m) = claimed m" "claimed (SetClusterCalculator c calc m) = claimed m"
  by (simp_all add: JoinCluster_def LeaveCluster_def SetClusterTimeout_def SetClusterCalculator_def split: option.split)

lemma act_other:
  assumes "act a m = Some m'" "\<nexists>req. a = AHandle req" "\<nexists>w ev i. a = ARound w ev i"
  shows "same_core m m' \<and> (is_forget a \<or> claimed m' = claimed m)"
  using assms by (cases a) (auto simp: is_forget_def simp del: loop_step.simps)

lemma act_cases:
  assumes "act a m = Some m'"
  obtains req where "a = AHandle req" "m' = snd (HandleRequest req m)"
  | w ev i where "a = ARound w ev i" "i < length (e_rounds m)" "implements i m m'"
  | "same_core m m'" "is_forget a \<or> claimed m' = claimed m"
proof (cases "(\<exists>req. a = AHandle req) \<or> (\<exists>w ev i. a = ARound w ev i)")
  case True
  then show ?thesis using assms that(1,2) round_step_implements by fastforce
next
  case False
  then show ?thesis using act_other [OF assms] that(3) by blast
qed

lemma election_inv_act:
  assumes "act a m = Some m'" "election_inv m"
  shows "election_inv m'"
  using assms(1)
proof (cases rule: act_cases)
  case 1
  then show ?thesis using election_inv_HandleRequest [OF assms(2)] by simp
next
  case 2
  then show ?thesis using election_inv_implements [OF assms(2)] by simp
next
  case 3
  then show ?thesis using election_inv_same assms(2) by blast
qed

lemma election_inv_run: "run as m = Some m' \<Longrightarrow> election_inv m \<Longrightarrow> election_inv m'"
  by (induction as arbitrary: m) (auto dest: election_inv_act split: option.splits)

lemma election_inv_New: "election_inv (Election_Start (NewElectionManager s n st lc c p ps sg v))"
  by (simp add: election_inv_def Election_Start_def NewElectionManager_def)

subsection \<open>The claim slot\<close>

lemma rstep_slot:
  assumes "rstep n (r, C) (r', C')" "r_phase r' \<noteq> Done outcomeFailed"
  shows "C' = C \<and> (holds r' \<longrightarrow> holds r) \<or> \<not> C (rcap r) \<and> C' = C(rcap r := True) \<or>
    holds r \<and> \<not> holds r' \<and> C' = C(rcap r := False)"
  using assms(1) by (rule rstepE; (elim disjE conjE)?; use assms(2) in \<open>simp add: holds_def\<close>)

lemma slot_inv_implements:
  assumes "slot_inv m" "implements i m m'" "i < length (e_rounds m)" "r_phase (e_rounds m' ! i) \<noteq> Done outcomeFailed"
  shows "slot_inv m'"
proof -
  let ?r = "e_rounds m ! i"
  obtain r' where st: "rstep (e_nodeID m) (?r, claimed m) (r', claimed m')" and rs: "e_rounds m' = (e_rounds m)[i := r']"
    using assms(2) unfolding implements_def by blast
  have "r_phase r' \<noteq> Done outcomeFailed" using assms(3,4) rs by simp
  note slot = rstep_slot [OF st this]
  have cap: "rcap r' = rcap ?r" using rstep_req [OF st] by (simp add: rcap_def)
  have nth: "e_rounds m' ! j = (if j = i then r' else e_rounds m ! j)" if "j < length (e_rounds m)" for j
    using that rs by simp
  have held: "claimed m (rcap (e_rounds m ! j))" if "j < length (e_rounds m)" "holds (e_rounds m ! j)" for j
    using assms(1) that unfolding slot_inv_def by blast
  have uniq: "j = k" if "j < length (e_rounds m)" "k < length (e_rounds m)" "holds (e_rounds m ! j)" "holds (e_rounds m ! k)"
    "rcap (e_rounds m ! j) = rcap (e_rounds m ! k)" for j k
    using assms(1) that unfolding slot_inv_def by blast
  have len: "length (e_rounds m') = length (e_rounds m)" using rs by simp
  have H: "claimed m' (rcap (e_rounds m' ! j))" if j: "j < length (e_rounds m')" "holds (e_rounds m' ! j)" for j
    using j held [of j] held [of i] uniq [of j i] slot cap assms(3) by (cases "j = i") (auto simp: nth len)
  have U: "j = k" if jk: "j < length (e_rounds m')" "k < length (e_rounds m')" "holds (e_rounds m' ! j)" "holds (e_rounds m' ! k)"
    "rcap (e_rounds m' ! j) = rcap (e_rounds m' ! k)" for j k
    using jk held [of j] held [of k] uniq [of j k] slot cap assms(3) by (cases "j = i"; cases "k = i") (auto simp: nth len)
  show ?thesis unfolding slot_inv_def using H U by blast
qed

lemma slot_inv_same: "same_core m m' \<Longrightarrow> claimed m' = claimed m \<Longrightarrow> slot_inv m \<Longrightarrow> slot_inv m'"
  by (simp add: same_core_def slot_inv_def)

lemma slot_inv_HandleRequest:
  assumes "slot_inv m"
  shows "slot_inv (snd (HandleRequest req m))"
  using HandleRequest_cases [of req m]
proof (elim disjE conjE exE)
  fix c st t
  assume m': "snd (HandleRequest req m) = m\<lparr>e_inflight := mput (rq_CapsuleID req, rq_ReplicaID req) (length (e_rounds m)) (e_inflight m),
       e_calls := e_calls m @ [StartElection (rq_CapsuleID req)], e_rounds := e_rounds m @ [spawn req c st t]\<rparr>"
  have old: "j < length (e_rounds m)" if "j < length (e_rounds m @ [spawn req c st t])" "holds ((e_rounds m @ [spawn req c st t]) ! j)" for j
    using that by (cases "j < length (e_rounds m)") (simp_all add: nth_append)
  show ?thesis
    using assms old unfolding m' slot_inv_def by (simp add: nth_append)
qed (use assms in simp)

lemma no_failure_act:
  assumes "act a m = Some m'" "no_failure m'"
  shows "no_failure m"
  using assms(1)
proof (cases rule: act_cases)
  case (1 req)
  then show ?thesis using assms(2) HandleRequest_cases [of req m] by (auto simp: no_failure_def)
next
  case (2 w ev i)
  then obtain r' where st: "rstep (e_nodeID m) (e_rounds m ! i, claimed m) (r', claimed m')" and rs: "e_rounds m' = (e_rounds m)[i := r']"
    unfolding implements_def by blast
  have "r_phase (e_rounds m ! j) \<noteq> Done outcomeFailed" if "j < length (e_rounds m)" for j
  proof (cases "j = i")
    case True
    then show ?thesis using rstep_live [OF st] by auto
  next
    case False
    then have "e_rounds m ! j = e_rounds m' ! j" "j < length (e_rounds m')" using rs that by simp_all
    then show ?thesis using assms(2) unfolding no_failure_def by (metis nth_mem)
  qed
  then show ?thesis unfolding no_failure_def by (metis in_set_conv_nth)
next
  case 3
  then show ?thesis using assms(2) by (simp add: same_core_def no_failure_def)
qed

lemma slot_inv_act:
  assumes "act a m = Some m'" "slot_inv m" "no_failure m'" "\<not> is_forget a"
  shows "slot_inv m'"
  using assms(1)
proof (cases rule: act_cases)
  case (1 req)
  then show ?thesis using slot_inv_HandleRequest [OF assms(2)] by simp
next
  case (2 w ev i)
  then have "length (e_rounds m') = length (e_rounds m)" unfolding implements_def by auto
  with 2 assms(3) have "r_phase (e_rounds m' ! i) \<noteq> Done outcomeFailed" unfolding no_failure_def by (metis nth_mem)
  then show ?thesis using slot_inv_implements [OF assms(2) 2(3,2)] by simp
next
  case 3
  then show ?thesis using slot_inv_same assms(2,4) by blast
qed

lemma run_no_failure: "run as m = Some m' \<Longrightarrow> no_failure m' \<Longrightarrow> no_failure m"
  by (induction as arbitrary: m) (auto dest: no_failure_act split: option.splits)

lemma slot_inv_run:
  "run as m = Some m' \<Longrightarrow> slot_inv m \<Longrightarrow> no_failure m' \<Longrightarrow> \<forall>a \<in> set as. \<not> is_forget a \<Longrightarrow> slot_inv m'"
proof (induction as arbitrary: m)
  case (Cons a as)
  from Cons.prems(1) obtain m1 where m1: "act a m = Some m1" "run as m1 = Some m'" by (auto split: option.splits)
  have "no_failure m1" by (rule run_no_failure [OF m1(2) Cons.prems(3)])
  then have "slot_inv m1" using slot_inv_act [OF m1(1) Cons.prems(2)] Cons.prems(4) by simp
  with Cons m1 show ?case by simp
qed simp

lemma slot_inv_New: "slot_inv (Election_Start (NewElectionManager s n st lc c p ps sg v))"
  by (simp add: slot_inv_def Election_Start_def NewElectionManager_def)

subsection \<open>Rounds end\<close>

lemma ends_step:
  assumes "round_step w ev i m = Some m1" "T \<le> w_now w" "w_codec w = cd" "w_net w = net" "ends n i m1 T cd net"
  shows "ends (Suc n) i m T cd net"
proof -
  from assms(5) obtain as m' where "length as \<le> n" "\<forall>a \<in> set as. late_step i T cd net a" "run as m1 = Some m'"
    "finished (r_phase (e_rounds m' ! i))" unfolding ends_def by blast
  with assms(1-4) show ?thesis unfolding ends_def
    by (intro exI [of _ "ARound w ev i # as"] exI [of _ m']) (auto simp: late_step_def)
qed

lemma ends_now: "finished (r_phase (e_rounds m ! i)) \<Longrightarrow> ends n i m T cd net"
  unfolding ends_def by (intro exI [of _ "[]"] exI [of _ m]) simp

lemma ends_mono: "ends n i m T cd net \<Longrightarrow> n \<le> k \<Longrightarrow> ends k i m T cd net"
  unfolding ends_def using order_trans by blast

lemma ends_Remote:
  assumes "i < length (e_rounds m)" "r_phase (e_rounds m ! i) = Remote"
  shows "ends 1 i m T cd net"
proof -
  let ?w = "\<lparr>w_now = max T (r_deadline (e_rounds m ! i)), w_rnd = None, w_codec = cd, w_net = net\<rparr>"
  have "round_step ?w EvDeadline i m =
    Some (finish ?w i outcomeFailed '''' 0 ''election timeout (no claim heard)'' (e_rounds m ! i) m)"
    using assms by (simp add: round_step_def remote_step_def Let_def)
  from ends_step [OF this _ _ _ ends_now, of T cd net 0] assms(1) show ?thesis by simp
qed

lemma ends_Waiting:
  assumes "i < length (e_rounds m)" "r_phase (e_rounds m ! i) = Waiting"
  shows "ends 1 i m T cd net"
proof -
  let ?w = "\<lparr>w_now = max T (r_deadline (e_rounds m ! i)), w_rnd = None, w_codec = cd, w_net = net\<rparr>"
  have "round_step ?w EvDeadline i m = Some (finish ?w i outcomeFailed '''' 0 ''election timeout'' (e_rounds m ! i) m)"
    using assms by (simp add: round_step_def waiting_step_def Let_def)
  from ends_step [OF this _ _ _ ends_now, of T cd net 0] assms(1) show ?thesis by simp
qed

lemma ends_Tiebreak:
  assumes "i < length (e_rounds m)" "r_phase (e_rounds m ! i) = Tiebreak"
  shows "ends 1 i m T cd net"
proof -
  let ?r = "e_rounds m ! i"
  let ?w = "\<lparr>w_now = max T (r_publishedAt ?r + e_tiebreakWindow m), w_rnd = None, w_codec = cd, w_net = net\<rparr>"
  have "round_step ?w EvDeadline i m = Some (finish ?w i outcomeWon (e_nodeID m) (d_Score (r_decision ?r)) '''' ?r m)"
    using assms by (simp add: round_step_def tiebreak_step_def Let_def)
  from ends_step [OF this _ _ _ ends_now, of T cd net 0] assms(1) show ?thesis by simp
qed

lemma ends_Publishing:
  assumes "i < length (e_rounds m)" "r_phase (e_rounds m ! i) = Publishing"
  shows "ends 2 i m T cd net"
proof -
  let ?r = "e_rounds m ! i" let ?w = "\<lparr>w_now = T, w_rnd = None, w_codec = cd, w_net = net\<rparr>"
  obtain err t where pub: "PublishClaim cd T (net ''claim'') (ownClaim (e_nodeID m) T ?r) (e_topicHeap m ! r_topic ?r) = (err, t)"
    by fastforce
  let ?m = "modify_topic (r_topic ?r) (\<lambda>_. t) m"
  show ?thesis
  proof (cases err)
    case None
    then have st: "round_step ?w EvPublish i m = Some (set_round i (?r\<lparr>r_publishedAt := T, r_phase := Tiebreak\<rparr>) ?m)"
      using assms pub by (simp add: round_step_def publishing_step_def Let_def)
    have "ends 1 i (set_round i (?r\<lparr>r_publishedAt := T, r_phase := Tiebreak\<rparr>) ?m) T cd net"
      using assms(1) by (intro ends_Tiebreak) simp_all
    from ends_step [OF st _ _ _ this] show ?thesis by (simp add: numeral_2_eq_2)
  next
    case (Some e)
    then have st: "round_step ?w EvPublish i m = Some (finish ?w i outcomeFailed '''' 0 (''publish failed: '' @ e) ?r
        (releaseCapsuleClaim (rq_CapsuleID (r_req ?r)) ?m))"
      using assms pub by (simp add: round_step_def publishing_step_def Let_def)
    from ends_step [OF st _ _ _ ends_now, of T cd net 1] assms(1) show ?thesis by (simp add: numeral_2_eq_2)
  qed
qed

lemma ends_Claiming:
  assumes "i < length (e_rounds m)" "r_phase (e_rounds m ! i) = Claiming"
  shows "ends 3 i m T cd net"
proof -
  let ?r = "e_rounds m ! i" let ?w = "\<lparr>w_now = T, w_rnd = None, w_codec = cd, w_net = net\<rparr>"
  obtain ok m0 where tr: "tryClaimCapsule (rq_CapsuleID (r_req ?r)) m = (ok, m0)" by fastforce
  then have len: "e_rounds m0 = e_rounds m" by (auto simp: tryClaimCapsule_def split: if_splits)
  let ?ph = "if ok then Publishing else Remote"
  have st: "round_step ?w EvTryClaim i m = Some (set_round i (?r\<lparr>r_phase := ?ph\<rparr>) m0)"
    using assms tr by (cases ok) (simp_all add: round_step_def claiming_step_def)
  have "ends 2 i (set_round i (?r\<lparr>r_phase := ?ph\<rparr>) m0) T cd net"
    using assms(1) len by (cases ok) (auto intro: ends_Publishing ends_mono [OF ends_Remote])
  from ends_step [OF st _ _ _ this] show ?thesis by (simp add: numeral_3_eq_3 numeral_2_eq_2)
qed

lemma ends_Spawned:
  assumes "i < length (e_rounds m)" "r_phase (e_rounds m ! i) = Spawned"
  shows "ends 4 i m T cd net"
proof -
  let ?r = "e_rounds m ! i" let ?w = "\<lparr>w_now = T, w_rnd = None, w_codec = cd, w_net = net\<rparr>"
  let ?m = "begin_round ?w i ?r m"
  have st: "round_step ?w EvBegin i m = Some ?m" using assms by (simp add: round_step_def)
  then have "implements i m ?m" using round_step_implements by blast
  then obtain r' where rs: "rstep (e_nodeID m) (?r, claimed m) (r', claimed ?m)" "e_rounds ?m = (e_rounds m)[i := r']"
    unfolding implements_def by blast
  from rs(1) assms(2) have "r_phase r' \<in> {Remote, Waiting, Claiming}"
    by (rule_tac rstepE [OF rs(1)]; (elim disjE conjE)?; simp)
  then have "ends 3 i ?m T cd net"
    using assms(1) rs(2) by (auto intro: ends_Claiming ends_mono [OF ends_Remote] ends_mono [OF ends_Waiting])
  from ends_step [OF st _ _ _ this] show ?thesis by simp
qed

section \<open>Properties\<close>

text \<open>
  C18. Every election round reports exactly once. After any interleaving of requests, rounds, received messages,
  joins, leaves and configuration changes, the outcomes the event sink has seen are, as a multiset, exactly the
  outcomes of the finished rounds: no outcome is lost, none is reported twice, none for a running round.
\<close>

theorem one_outcome_per_round:
  assumes "run as (Election_Start (NewElectionManager strategy node store lifecycle calc provider pubsub signer verifier)) = Some m"
  shows "mset (map outcome_of (e_events m)) = mset (concat (map outcome (e_rounds m)))"
  using election_invD(4) [OF election_inv_run [OF assms election_inv_New]] .

theorem one_outcome_per_round_witness:
  "\<exists>m. run [AJoin None ''eu'', AHandle (sample_request\<lparr>rq_ClusterPath := ''eu''\<rparr>)] sample_election = Some m \<and>
     mset (map outcome_of (e_events m)) = mset (concat (map outcome (e_rounds m))) \<and> length (e_rounds m) = 1"
proof -
  let ?as = "[AJoin None ''eu'', AHandle (sample_request\<lparr>rq_ClusterPath := ''eu''\<rparr>)]"
  obtain m where m: "run ?as sample_election = Some m" by simp
  have "mset (map outcome_of (e_events m)) = mset (concat (map outcome (e_rounds m)))"
    using m unfolding sample_election_def by (rule one_outcome_per_round)
  moreover have "length (e_rounds m) = 1"
    using m by (auto simp: sample_election_def JoinCluster_def Election_Start_def NewElectionManager_def HandleRequest_def sample_request_def
        Registry_Get_def NewStrategyRegistry_def mput_def)
  ultimately show ?thesis using m by blast
qed

text \<open>
  C2. Requests for the same replica collapse onto one round: at every moment at most one unfinished round
  exists per capsule and replica, and it is the one registered as in flight.
\<close>

theorem one_round_per_replica:
  assumes "run as (Election_Start (NewElectionManager strategy node store lifecycle calc provider pubsub signer verifier)) = Some m"
    and "i < length (e_rounds m)" and "j < length (e_rounds m)"
    and "\<not> finished (r_phase (e_rounds m ! i))" and "\<not> finished (r_phase (e_rounds m ! j))"
    and "rkey (e_rounds m ! i) = rkey (e_rounds m ! j)"
  shows "i = j \<and> map_of (e_inflight m) (rkey (e_rounds m ! i)) = Some i"
proof -
  note entry = election_invD(2) [OF election_inv_run [OF assms(1) election_inv_New]]
  have "map_of (e_inflight m) (rkey (e_rounds m ! i)) = Some j" unfolding assms(6) by (rule entry [OF assms(3,5)])
  with entry [OF assms(2,4)] show ?thesis by simp
qed

theorem one_round_per_replica_witness:
  "\<exists>m. run [AJoin None ''eu'', AHandle (sample_request\<lparr>rq_ClusterPath := ''eu''\<rparr>),
       AHandle (sample_request\<lparr>rq_ClusterPath := ''eu'', rq_Reason := reasonManual\<rparr>)] sample_election = Some m \<and>
     length (e_rounds m) = 1 \<and> map_of (e_inflight m) (''c1'', ''0'') = Some 0"
proof -
  let ?as = "[AJoin None ''eu'', AHandle (sample_request\<lparr>rq_ClusterPath := ''eu''\<rparr>),
       AHandle (sample_request\<lparr>rq_ClusterPath := ''eu'', rq_Reason := reasonManual\<rparr>)]"
  obtain m where m: "run ?as sample_election = Some m" by simp
  then have l: "length (e_rounds m) = 1" "r_phase (e_rounds m ! 0) = Spawned" "rkey (e_rounds m ! 0) = (''c1'', ''0'')"
    by (auto simp: sample_election_def JoinCluster_def Election_Start_def NewElectionManager_def HandleRequest_def sample_request_def
        Registry_Get_def NewStrategyRegistry_def mput_def spawn_def rkey_def)
  have "map_of (e_inflight m) (rkey (e_rounds m ! 0)) = Some 0"
    using one_round_per_replica [OF m [unfolded sample_election_def], of 0 0] l by simp
  with m l show ?thesis by auto
qed

text \<open>
  C3. Two nodes do not both win the same replica on different scores. If a round on one node and a round on
  another node both finish as winner although each has received the claim the other published, then the two
  claims carry the same gravity score.
\<close>

theorem two_winners_same_score:
  assumes "run asA (Election_Start (NewElectionManager sA nA stA lA cA pA psA sgA vA)) = Some mA"
    and "run asB (Election_Start (NewElectionManager sB nB stB lB cB pB psB sgB vB)) = Some mB"
    and "a < length (e_rounds mA)" and "b < length (e_rounds mB)"
    and "r_phase (e_rounds mA ! a) = Done outcomeWon" and "r_phase (e_rounds mB ! b) = Done outcomeWon"
    and "ownClaim (e_nodeID mB) (r_publishedAt (e_rounds mB ! b)) (e_rounds mB ! b) \<in> set (r_seen (e_rounds mA ! a))"
    and "ownClaim (e_nodeID mA) (r_publishedAt (e_rounds mA ! a)) (e_rounds mA ! a) \<in> set (r_seen (e_rounds mB ! b))"
  shows "d_Score (r_decision (e_rounds mA ! a)) = d_Score (r_decision (e_rounds mB ! b))"
proof -
  have "\<not> isBetter (ownClaim (e_nodeID mB) (r_publishedAt (e_rounds mB ! b)) (e_rounds mB ! b)) (r_decision (e_rounds mA ! a)) (e_nodeID mA)"
    using election_invD(1) [OF election_inv_run [OF assms(1) election_inv_New] assms(3)] assms(5,7) unfolding round_ok_def by simp
  moreover have "\<not> isBetter (ownClaim (e_nodeID mA) (r_publishedAt (e_rounds mA ! a)) (e_rounds mA ! a)) (r_decision (e_rounds mB ! b)) (e_nodeID mB)"
    using election_invD(1) [OF election_inv_run [OF assms(2) election_inv_New] assms(4)] assms(6,8) unfolding round_ok_def by simp
  ultimately show ?thesis by (auto simp: isBetter_def ownClaim_def split: if_splits)
qed

theorem two_winners_same_score_witness:
  "\<exists>mA mB. run (duel_trace 0 5000 (duel_claim ''n2'' 7)) sample_election = Some mA \<and>
     run (duel_trace 3000 7000 (duel_claim ''n1'' 5)) (sample_election\<lparr>e_nodeID := ''n2''\<rparr>) = Some mB \<and>
     r_phase (e_rounds mA ! 0) = Done outcomeWon \<and> r_phase (e_rounds mB ! 0) = Done outcomeWon \<and>
     d_Score (r_decision (e_rounds mA ! 0)) = d_Score (r_decision (e_rounds mB ! 0))"
proof -
  let ?won = "\<lambda>m rival own. length (e_rounds m) = 1 \<and> r_phase (e_rounds m ! 0) = Done outcomeWon \<and>
    r_seen (e_rounds m ! 0) = [rival] \<and> ownClaim (e_nodeID m) (r_publishedAt (e_rounds m ! 0)) (e_rounds m ! 0) = own"
  have "case run (duel_trace 0 5000 (duel_claim ''n2'' 7)) sample_election of None \<Rightarrow> False
    | Some m \<Rightarrow> ?won m (duel_claim ''n2'' 7) (duel_claim ''n1'' 5)" by code_simp
  then obtain mA where A: "run (duel_trace 0 5000 (duel_claim ''n2'' 7)) sample_election = Some mA"
    "?won mA (duel_claim ''n2'' 7) (duel_claim ''n1'' 5)" by (auto split: option.splits)
  have "case run (duel_trace 3000 7000 (duel_claim ''n1'' 5)) (sample_election\<lparr>e_nodeID := ''n2''\<rparr>) of None \<Rightarrow> False
    | Some m \<Rightarrow> ?won m (duel_claim ''n1'' 5) (duel_claim ''n2'' 7)" by code_simp
  then obtain mB where B: "run (duel_trace 3000 7000 (duel_claim ''n1'' 5)) (sample_election\<lparr>e_nodeID := ''n2''\<rparr>) = Some mB"
    "?won mB (duel_claim ''n1'' 5) (duel_claim ''n2'' 7)" by (auto split: option.splits)
  have n2: "sample_election\<lparr>e_nodeID := ''n2''\<rparr> = Election_Start (NewElectionManager (Some fixedStrategy) ''n2''
     (Some (\<lambda>_. Some sample_capsule)) True (Some NewCalculator) (Some (\<lambda>_. Inl ''unused'')) True None None)"
    by (simp add: sample_election_def Election_Start_def NewElectionManager_def)
  have "d_Score (r_decision (e_rounds mA ! 0)) = d_Score (r_decision (e_rounds mB ! 0))"
    using two_winners_same_score [OF A(1) [unfolded sample_election_def] B(1) [unfolded n2], of 0 0] A(2) B(2) by simp
  with A B show ?thesis by blast
qed



text \<open>
  C4. A node claims at most one replica of a capsule as long as no round on it fails: in every interleaving
  without a failed round and without \<^verbatim>\<open>ForgetCapsule\<close>, two rounds for the same capsule never both hold the claim
  slot, so the node cannot win two replicas of it.
\<close>

theorem one_replica_per_node:
  assumes "run as (Election_Start (NewElectionManager strategy node store lifecycle calc provider pubsub signer verifier)) = Some m"
    and "\<forall>a \<in> set as. \<not> is_forget a" and "no_failure m"
    and "i < length (e_rounds m)" and "j < length (e_rounds m)"
    and "r_phase (e_rounds m ! i) = Done outcomeWon" and "r_phase (e_rounds m ! j) = Done outcomeWon"
    and "rcap (e_rounds m ! i) = rcap (e_rounds m ! j)"
  shows "i = j"
  using slot_inv_run [OF assms(1) slot_inv_New assms(3,2)] assms(4-8) unfolding slot_inv_def holds_def by blast

theorem one_replica_per_node_witness:
  "\<exists>m. run (duel_trace 0 5000 (duel_claim ''n2'' 7)) sample_election = Some m \<and> no_failure m \<and>
     (\<forall>j < length (e_rounds m). r_phase (e_rounds m ! j) = Done outcomeWon \<and> rcap (e_rounds m ! j) = ''c1'' \<longleftrightarrow> j = 0)"
proof -
  have "case run (duel_trace 0 5000 (duel_claim ''n2'' 7)) sample_election of None \<Rightarrow> False
    | Some m \<Rightarrow> length (e_rounds m) = 1 \<and> r_phase (e_rounds m ! 0) = Done outcomeWon \<and> rcap (e_rounds m ! 0) = ''c1'' \<and>
        no_failure m" by code_simp
  then obtain m where m: "run (duel_trace 0 5000 (duel_claim ''n2'' 7)) sample_election = Some m" "length (e_rounds m) = 1"
    "r_phase (e_rounds m ! 0) = Done outcomeWon" "rcap (e_rounds m ! 0) = ''c1''" "no_failure m" by (auto split: option.splits)
  have "\<forall>a \<in> set (duel_trace 0 5000 (duel_claim ''n2'' 7)). \<not> is_forget a" by (simp add: duel_trace_def is_forget_def)
  then have "j = 0" if "j < length (e_rounds m)" "r_phase (e_rounds m ! j) = Done outcomeWon" "rcap (e_rounds m ! j) = ''c1''" for j
    using one_replica_per_node [OF m(1) [unfolded sample_election_def], of j 0] m that by simp
  with m show ?thesis by auto
qed





end
