(* ===== verification/Momentum.thy ===== *)
theory Momentum
  imports Capsule_Types
begin

text \<open>
  \<^verbatim>\<open>src/capsule/momentum\<close>: the momentum tracker of a capsule and the adjuster that boosts and decays it.
  Momentum is an \<^verbatim>\<open>int32\<close>; \<open>s32\<close> is its wrap-around. The adjuster holds trackers by reference: an address is an
  index of \<open>adj_heap\<close>. The adjustment handler is the log \<open>adj_events\<close>.
\<close>

section \<open>Definitions\<close>

subsection \<open>Tracker\<close>

record Tracker =
  tk_state :: MomentumState
  tk_config :: MomentumConfig
  tk_minMomentum :: int
  tk_maxMomentum :: int
  tk_boostAmount :: int
  tk_reduceAmount :: int

definition WithMinMomentum :: "int \<Rightarrow> Tracker \<Rightarrow> Tracker" where "WithMinMomentum m t = t\<lparr>tk_minMomentum := m\<rparr>"
definition WithMaxMomentum :: "int \<Rightarrow> Tracker \<Rightarrow> Tracker" where "WithMaxMomentum m t = t\<lparr>tk_maxMomentum := m\<rparr>"
definition WithBoostAmount :: "int \<Rightarrow> Tracker \<Rightarrow> Tracker" where "WithBoostAmount a t = t\<lparr>tk_boostAmount := a\<rparr>"
definition WithReduceAmount :: "int \<Rightarrow> Tracker \<Rightarrow> Tracker" where "WithReduceAmount a t = t\<lparr>tk_reduceAmount := a\<rparr>"

definition NewTracker :: "time \<Rightarrow> MomentumConfig \<Rightarrow> (Tracker \<Rightarrow> Tracker) list \<Rightarrow> Tracker" where
  "NewTracker now config opts = fold (\<lambda>opt. opt) opts
     \<lparr>tk_state = \<lparr>ms_Current = mc_Base config, ms_Base = mc_Base config, ms_LastAdjusted = now\<rparr>, tk_config = config,
      tk_minMomentum = 0, tk_maxMomentum = 100, tk_boostAmount = 5, tk_reduceAmount = 5\<rparr>"

definition NewTrackerFromTier :: "time \<Rightarrow> Tier \<Rightarrow> (Tracker \<Rightarrow> Tracker) list \<Rightarrow> Tracker" where
  "NewTrackerFromTier now tier opts = NewTracker now \<lparr>mc_Base = BaseMomentum tier, mc_BoostOnTraffic = True,
     mc_ReduceOnIdle = True, mc_IdleTimeout = 300 * Second\<rparr> opts"

definition Current :: "Tracker \<Rightarrow> int" where "Current t = ms_Current (tk_state t)"

definition clamp :: "Tracker \<Rightarrow> int \<Rightarrow> int" where
  "clamp t value = (if value < tk_minMomentum t then tk_minMomentum t
     else if value > tk_maxMomentum t then tk_maxMomentum t else value)"

definition adjust :: "time \<Rightarrow> int \<Rightarrow> Tracker \<Rightarrow> Tracker" where
  "adjust now value t = t\<lparr>tk_state := (tk_state t)\<lparr>ms_Current := value, ms_LastAdjusted := now\<rparr>\<rparr>"

definition Boost :: "time \<Rightarrow> Tracker \<Rightarrow> bool \<times> Tracker" where
  "Boost now t = (if \<not> mc_BoostOnTraffic (tk_config t) then (False, t)
     else let old = Current t;
              t' = adjust now (clamp t (s32 (Current t + tk_boostAmount t))) t
          in (Current t' \<noteq> old, t'))"

definition Reduce :: "time \<Rightarrow> Tracker \<Rightarrow> bool \<times> Tracker" where
  "Reduce now t = (if \<not> mc_ReduceOnIdle (tk_config t) then (False, t)
     else let old = Current t;
              t' = adjust now (clamp t (s32 (Current t - tk_reduceAmount t))) t
          in (Current t' \<noteq> old, t'))"

definition Tracker_Set :: "time \<Rightarrow> int \<Rightarrow> Tracker \<Rightarrow> Tracker" where
  "Tracker_Set now value t = adjust now (clamp t value) t"

definition Tracker_Reset :: "time \<Rightarrow> Tracker \<Rightarrow> Tracker" where
  "Tracker_Reset now t = adjust now (ms_Base (tk_state t)) t"

definition IsIdle :: "time \<Rightarrow> Tracker \<Rightarrow> bool" where
  "IsIdle now t = (if mc_IdleTimeout (tk_config t) = 0 then False
     else now - ms_LastAdjusted (tk_state t) > mc_IdleTimeout (tk_config t))"

subsection \<open>Adjuster\<close>

record AdjustmentEvent =
  ae_CapsuleID :: CapsuleID
  ae_OldValue :: int
  ae_NewValue :: int
  ae_Reason :: string
  ae_Timestamp :: time

record Adjuster =
  adj_trackers :: "(CapsuleID, nat) gomap"
  adj_heap :: "Tracker list"
  adj_events :: "AdjustmentEvent list"

definition NewAdjuster :: "Tracker list \<Rightarrow> Adjuster" where
  "NewAdjuster heap = \<lparr>adj_trackers = [], adj_heap = heap, adj_events = []\<rparr>"

definition Adjuster_Register :: "CapsuleID \<Rightarrow> nat \<Rightarrow> Adjuster \<Rightarrow> Adjuster" where
  "Adjuster_Register cid tracker a = a\<lparr>adj_trackers := mput cid tracker (adj_trackers a)\<rparr>"

definition Adjuster_Unregister :: "CapsuleID \<Rightarrow> Adjuster \<Rightarrow> Adjuster" where
  "Adjuster_Unregister cid a = a\<lparr>adj_trackers := mdel cid (adj_trackers a)\<rparr>"

definition GetTracker :: "CapsuleID \<Rightarrow> Adjuster \<Rightarrow> nat option" where
  "GetTracker cid a = map_of (adj_trackers a) cid"

definition apply_change :: "CapsuleID \<Rightarrow> string \<Rightarrow> time \<Rightarrow> nat \<Rightarrow> bool \<times> Tracker \<Rightarrow> Adjuster \<Rightarrow> Adjuster" where
  "apply_change cid reason now p res a = (let
     old = Current (adj_heap a ! p); (changed, t) = res;
     a = a\<lparr>adj_heap := (adj_heap a)[p := t]\<rparr>
     in if changed then a\<lparr>adj_events := adj_events a @ [\<lparr>ae_CapsuleID = cid, ae_OldValue = old, ae_NewValue = Current t,
          ae_Reason = reason, ae_Timestamp = now\<rparr>]\<rparr> else a)"

definition OnTraffic :: "time \<Rightarrow> CapsuleID \<Rightarrow> Adjuster \<Rightarrow> Adjuster" where
  "OnTraffic now cid a = (case map_of (adj_trackers a) cid of
     None \<Rightarrow> a
   | Some p \<Rightarrow> apply_change cid ''traffic_boost'' now p (Boost now (adj_heap a ! p)) a)"

definition OnFailure :: "time \<Rightarrow> CapsuleID \<Rightarrow> Adjuster \<Rightarrow> Adjuster" where
  "OnFailure now cid a = (case map_of (adj_trackers a) cid of
     None \<Rightarrow> a
   | Some p \<Rightarrow> apply_change cid ''failure_reduce'' now p (Reduce now (adj_heap a ! p)) a)"

text \<open>\<open>checkIdle\<close> goes over a snapshot of the tracker map, in some order.\<close>

fun idleStep :: "time \<Rightarrow> CapsuleID \<times> nat \<Rightarrow> Adjuster \<Rightarrow> Adjuster" where
  "idleStep now (cid, p) a = (if IsIdle now (adj_heap a ! p)
     then apply_change cid ''idle_reduce'' now p (Reduce now (adj_heap a ! p)) a else a)"

definition checkIdle :: "time \<Rightarrow> Adjuster \<Rightarrow> Adjuster" where
  "checkIdle now a = fold (idleStep now) (adj_trackers a) a"

subsection \<open>Specification\<close>

datatype tracker_call = TBoost time | TReduce time | TSet time int | TReset time

fun tracker_do :: "tracker_call \<Rightarrow> Tracker \<Rightarrow> Tracker" where
  "tracker_do (TBoost now) t = snd (Boost now t)"
| "tracker_do (TReduce now) t = snd (Reduce now t)"
| "tracker_do (TSet now v) t = Tracker_Set now v t"
| "tracker_do (TReset now) t = Tracker_Reset now t"

definition in_range :: "Tracker \<Rightarrow> bool" where
  "in_range t \<longleftrightarrow> tk_minMomentum t \<le> Current t \<and> Current t \<le> tk_maxMomentum t"

definition wf_tracker :: "Tracker \<Rightarrow> bool" where
  "wf_tracker t \<longleftrightarrow> in_range t \<and> tk_minMomentum t \<le> ms_Base (tk_state t) \<and> ms_Base (tk_state t) \<le> tk_maxMomentum t"

text \<open>Idle checks of one tracker at successive instants.\<close>

definition idleTracker :: "time \<Rightarrow> Tracker \<Rightarrow> Tracker" where
  "idleTracker now t = (if IsIdle now t then snd (Reduce now t) else t)"

text \<open>Instants each more than \<open>d\<close> after the one before, the first more than \<open>d\<close> after \<open>t\<close>.\<close>

fun spaced :: "duration \<Rightarrow> time \<Rightarrow> time list \<Rightarrow> bool" where
  "spaced d t [] = True"
| "spaced d t (x # xs) = (x - t > d \<and> spaced d x xs)"

definition sample_tracker :: Tracker where
  "sample_tracker = NewTrackerFromTier 0 ''standard'' []"

section \<open>Lemmas\<close>

lemma clamp_bounds: "tk_minMomentum t \<le> tk_maxMomentum t \<Longrightarrow> tk_minMomentum t \<le> clamp t v \<and> clamp t v \<le> tk_maxMomentum t"
  by (simp add: clamp_def)

lemma Current_adjust [simp]: "Current (adjust now v t) = v"
  by (simp add: Current_def adjust_def)

lemma adjust_frame [simp]:
  "tk_minMomentum (adjust now v t) = tk_minMomentum t" "tk_maxMomentum (adjust now v t) = tk_maxMomentum t"
  "tk_config (adjust now v t) = tk_config t" "tk_reduceAmount (adjust now v t) = tk_reduceAmount t"
  "ms_Base (tk_state (adjust now v t)) = ms_Base (tk_state t)" "ms_LastAdjusted (tk_state (adjust now v t)) = now"
  by (simp_all add: adjust_def)

lemma tracker_do_frame:
  "tk_minMomentum (tracker_do c t) = tk_minMomentum t" "tk_maxMomentum (tracker_do c t) = tk_maxMomentum t"
  "ms_Base (tk_state (tracker_do c t)) = ms_Base (tk_state t)"
  by (cases c; simp add: Boost_def Reduce_def Tracker_Set_def Tracker_Reset_def Let_def)+

lemma wf_tracker_do:
  assumes "wf_tracker t"
  shows "wf_tracker (tracker_do c t)"
proof -
  have le: "tk_minMomentum t \<le> tk_maxMomentum t" using assms by (simp add: wf_tracker_def)
  have "in_range (tracker_do c t)"
    using assms clamp_bounds [OF le]
    by (cases c) (simp_all add: in_range_def wf_tracker_def Boost_def Reduce_def Tracker_Set_def Tracker_Reset_def Let_def)
  with assms show ?thesis by (simp add: wf_tracker_def tracker_do_frame)
qed

lemma idleTracker_step:
  assumes "wf_tracker t" "mc_ReduceOnIdle (tk_config t)" "0 < mc_IdleTimeout (tk_config t)" "0 \<le> tk_reduceAmount t"
    "now - ms_LastAdjusted (tk_state t) > mc_IdleTimeout (tk_config t)" "in_s32 (Current t - tk_reduceAmount t)"
  shows "idleTracker now t = adjust now (max (tk_minMomentum t) (Current t - tk_reduceAmount t)) t"
  using assms by (auto simp: idleTracker_def IsIdle_def Reduce_def Let_def clamp_def wf_tracker_def in_range_def max_def)

lemma max_sub: "0 \<le> k \<Longrightarrow> max a (max a b - k) = max a (b - k)" for a b k :: int
  by simp

lemma idle_decay:
  assumes "spaced (mc_IdleTimeout (tk_config t)) (ms_LastAdjusted (tk_state t)) ts"
    "wf_tracker t" "mc_ReduceOnIdle (tk_config t)" "0 < mc_IdleTimeout (tk_config t)" "0 \<le> tk_reduceAmount t"
    "- 2147483648 \<le> tk_minMomentum t - tk_reduceAmount t" "tk_maxMomentum t < 2147483648"
  shows "Current (fold idleTracker ts t) = max (tk_minMomentum t) (Current t - int (length ts) * tk_reduceAmount t)"
  using assms
proof (induction ts arbitrary: t)
  case Nil
  then show ?case by (simp add: wf_tracker_def in_range_def)
next
  case (Cons x ts)
  let ?t = "idleTracker x t"
  have "in_s32 (Current t - tk_reduceAmount t)"
    using Cons.prems by (auto simp: in_s32_def wf_tracker_def in_range_def)
  then have st: "?t = adjust x (max (tk_minMomentum t) (Current t - tk_reduceAmount t)) t"
    using Cons.prems by (intro idleTracker_step) simp_all
  have "wf_tracker ?t" unfolding st using Cons.prems(2,5) by (auto simp: wf_tracker_def in_range_def)
  then have "Current (fold idleTracker ts ?t) = max (tk_minMomentum ?t) (Current ?t - int (length ts) * tk_reduceAmount ?t)"
    using Cons.prems by (intro Cons.IH) (simp_all add: st)
  also have "\<dots> = max (tk_minMomentum t) (Current t - int (length (x # ts)) * tk_reduceAmount t)"
    using max_sub [of "int (length ts) * tk_reduceAmount t" "tk_minMomentum t" "Current t - tk_reduceAmount t"] Cons.prems(5)
    by (simp add: st distrib_right)
  finally show ?case by simp
qed

section \<open>Properties\<close>

text \<open>
  C31. Momentum stays within its bounds. From a tracker whose base and current value lie between the minimum and
  the maximum, every sequence of boosts, reductions, sets and resets keeps it there, even when an addition wraps
  around in \<^verbatim>\<open>int32\<close>.
\<close>

theorem momentum_in_bounds:
  assumes "wf_tracker t"
  shows "tk_minMomentum t \<le> Current (fold tracker_do calls t) \<and> Current (fold tracker_do calls t) \<le> tk_maxMomentum t"
proof -
  have "wf_tracker (fold tracker_do calls t) \<and> tk_minMomentum (fold tracker_do calls t) = tk_minMomentum t \<and>
    tk_maxMomentum (fold tracker_do calls t) = tk_maxMomentum t"
    using assms by (induction calls arbitrary: t) (simp_all add: wf_tracker_do tracker_do_frame)
  then show ?thesis by (auto simp: wf_tracker_def in_range_def)
qed

theorem momentum_in_bounds_witness:
  "Current (fold tracker_do [TBoost 1, TSet 2 1000, TReduce 3, TReset 4] sample_tracker) \<le> 100"
proof -
  have "wf_tracker sample_tracker" by code_simp
  from momentum_in_bounds [OF this, of "[TBoost 1, TSet 2 1000, TReduce 3, TReset 4]"]
  show ?thesis by (simp add: sample_tracker_def NewTrackerFromTier_def NewTracker_def)
qed

text \<open>
  An unused capsule decays linearly to its minimum: idle checks that each come more than the idle timeout
  after the previous adjustment lower the momentum by the reduce amount each time, down to the minimum.
\<close>

theorem idle_capsule_decays:
  assumes "wf_tracker t" and "mc_ReduceOnIdle (tk_config t)" and "0 < mc_IdleTimeout (tk_config t)" and "0 \<le> tk_reduceAmount t"
    and "- 2147483648 \<le> tk_minMomentum t - tk_reduceAmount t" and "tk_maxMomentum t < 2147483648"
    and "spaced (mc_IdleTimeout (tk_config t)) (ms_LastAdjusted (tk_state t)) ts"
  shows "Current (fold idleTracker ts t) = max (tk_minMomentum t) (Current t - int (length ts) * tk_reduceAmount t)"
  using idle_decay [OF assms(7,1-6)] .

theorem idle_capsule_decays_witness:
  "Current (fold idleTracker [301000000000, 602000000000, 903000000000] sample_tracker) = 35"
proof -
  have "Current (fold idleTracker [301000000000, 602000000000, 903000000000] sample_tracker) =
    max (tk_minMomentum sample_tracker) (Current sample_tracker - int (length [301000000000::int, 602000000000, 903000000000]) *
      tk_reduceAmount sample_tracker)"
    by (rule idle_capsule_decays) code_simp+
  also have "\<dots> = 35" by code_simp
  finally show ?thesis .
qed

text \<open>
  Outside the bounds a boost can lower momentum: a tracker built with a base of 150 starts above its maximum
  and its first boost takes it down to 100, and with the largest \<^verbatim>\<open>int32\<close> as maximum the addition wraps and the
  boost drops the momentum to the minimum.
\<close>

theorem boost_can_lower_momentum:
  "Current (snd (Boost 1 (NewTracker 0 \<lparr>mc_Base = 150, mc_BoostOnTraffic = True, mc_ReduceOnIdle = True, mc_IdleTimeout = 0\<rparr> []))) = 100 \<and>
   Current (snd (Boost 1 (NewTracker 0 \<lparr>mc_Base = 2147483647, mc_BoostOnTraffic = True, mc_ReduceOnIdle = True, mc_IdleTimeout = 0\<rparr>
     [WithMaxMomentum 2147483647]))) = 0"
  by code_simp

end
