(* ===== verification/Placement.thy ===== *)
theory Placement
  imports Gravity
begin

text \<open>
  \<^verbatim>\<open>src/capsule/placement\<close>: the placement rule evaluator over the entities of the mesh. The entity provider is an
  interface of the source; it is the record \<open>EntityProvider\<close> of its answers.
\<close>

section \<open>Definitions\<close>

record Rule =
  pl_Name :: string
  pl_Type :: string
  pl_Mode :: string
  pl_Names :: "string list"
  pl_Labels :: labels
  pl_Required :: bool

definition FromSpec :: "PlacementRule \<Rightarrow> Rule" where
  "FromSpec spec = \<lparr>pl_Name = pr_Name spec, pl_Type = pr_Type spec, pl_Mode = pr_Mode spec, pl_Names = pr_Names spec,
     pl_Labels = pr_Labels spec, pl_Required = pr_Required spec\<rparr>"

definition FromSpecList :: "PlacementRule list \<Rightarrow> Rule list" where
  "FromSpecList specs = map FromSpec specs"

definition IsCapsuleRule :: "Rule \<Rightarrow> bool" where
  "IsCapsuleRule r \<longleftrightarrow> pl_Type r = placementTypeCapsule"

definition IsNear :: "Rule \<Rightarrow> bool" where
  "IsNear r \<longleftrightarrow> IsCapsuleRule r \<and> pl_Mode r = placementModeNear"

definition IsAway :: "Rule \<Rightarrow> bool" where
  "IsAway r \<longleftrightarrow> IsCapsuleRule r \<and> pl_Mode r = placementModeAway"

definition SameKeys :: "Rule \<Rightarrow> string list" where
  "SameKeys r = map fst (filter (\<lambda>(key, val). val = SameKeyword) (lbl (pl_Labels r)))"

record Entity =
  ent_Name :: string
  ent_Type :: string
  ent_Labels :: labels

record EntityProvider =
  ep_Nodes :: "Entity list"
  ep_Clusters :: "Entity list"
  ep_Datacenters :: "Entity list"
  ep_CapsuleNodes :: "string list \<Rightarrow> labels \<Rightarrow> Entity list"

definition SelectByName :: "Entity list \<Rightarrow> string list \<Rightarrow> Entity list" where
  "SelectByName entities names = (if names = [] then entities else filter (\<lambda>e. ent_Name e \<in> set names) entities)"

definition SelectByLabels :: "Entity list \<Rightarrow> labels \<Rightarrow> Entity list" where
  "SelectByLabels entities required =
     (if lbl required = [] then entities else filter (\<lambda>e. LabelsMatch (ent_Labels e) required) entities)"

definition Select :: "Entity list \<Rightarrow> string list \<Rightarrow> labels \<Rightarrow> Entity list" where
  "Select entities names ls = (let
     result = (if names \<noteq> [] then SelectByName entities names else entities)
     in if lbl ls \<noteq> [] then SelectByLabels result ls else result)"

definition evaluateDirectRule :: "Entity \<Rightarrow> Rule \<Rightarrow> bool" where
  "evaluateDirectRule node rule =
     (if pl_Names rule \<noteq> [] \<and> ent_Name node \<notin> set (pl_Names rule) then False
      else LabelsMatch (ent_Labels node) (pl_Labels rule))"

definition evaluateClusterRule :: "EntityProvider \<Rightarrow> Entity \<Rightarrow> Rule \<Rightarrow> bool" where
  "evaluateClusterRule ep node rule = (let matching = Select (ep_Clusters ep) (pl_Names rule) (pl_Labels rule) in
     case map_of (lbl (ent_Labels node)) ''cluster'' of
       None \<Rightarrow> False
     | Some nodeCluster \<Rightarrow> list_ex (\<lambda>c. ent_Name c = nodeCluster) matching)"

definition evaluateDatacenterRule :: "EntityProvider \<Rightarrow> Entity \<Rightarrow> Rule \<Rightarrow> bool" where
  "evaluateDatacenterRule ep node rule = (let matching = Select (ep_Datacenters ep) (pl_Names rule) (pl_Labels rule) in
     case map_of (lbl (ent_Labels node)) ''datacenter'' of
       None \<Rightarrow> False
     | Some nodeDC \<Rightarrow> list_ex (\<lambda>dc. ent_Name dc = nodeDC) matching)"

definition keyShared :: "Entity \<Rightarrow> Entity \<Rightarrow> string \<Rightarrow> bool" where
  "keyShared node target key = (case (map_of (lbl (ent_Labels node)) key, map_of (lbl (ent_Labels target)) key) of
     (Some nodeVal, Some targetVal) \<Rightarrow> nodeVal = targetVal
   | _ \<Rightarrow> False)"

definition evaluateCapsuleRule :: "EntityProvider \<Rightarrow> Entity \<Rightarrow> Rule \<Rightarrow> bool" where
  "evaluateCapsuleRule ep node rule = (let targetNodes = ep_CapsuleNodes ep (pl_Names rule) None in
     if targetNodes = [] then IsAway rule
     else let sameKeys = SameKeys rule in
       if sameKeys = [] then True
       else let sharesLabels = list_ex (\<lambda>target. list_all (keyShared node target) sameKeys) targetNodes in
         if IsNear rule then sharesLabels
         else if IsAway rule then \<not> sharesLabels
         else False)"

definition evaluateRule :: "EntityProvider \<Rightarrow> Entity \<Rightarrow> Rule \<Rightarrow> bool" where
  "evaluateRule ep node rule =
     (if pl_Type rule = placementTypeNode then evaluateDirectRule node rule
      else if pl_Type rule = placementTypeCluster then evaluateClusterRule ep node rule
      else if pl_Type rule = placementTypeDatacenter then evaluateDatacenterRule ep node rule
      else if pl_Type rule = placementTypeCapsule then evaluateCapsuleRule ep node rule
      else False)"

record PlacementResult =
  pe_NodeName :: string
  pe_Eligible :: bool
  pe_Score :: f64
  pe_FailedRules :: "string list"
  pe_MatchedSoft :: "string list"

definition evaluateStep :: "EntityProvider \<Rightarrow> Entity \<Rightarrow> Rule \<Rightarrow> PlacementResult \<Rightarrow> PlacementResult" where
  "evaluateStep ep node rule result = (let
     passed = evaluateRule ep node rule;
     result = (if \<not> passed \<and> pl_Required rule
       then result\<lparr>pe_Eligible := False, pe_FailedRules := pe_FailedRules result @ [pl_Name rule]\<rparr> else result)
     in if passed \<and> \<not> pl_Required rule
       then result\<lparr>pe_Score := fadd (pe_Score result) 1, pe_MatchedSoft := pe_MatchedSoft result @ [pl_Name rule]\<rparr> else result)"

definition EvaluateNode :: "EntityProvider \<Rightarrow> Entity \<Rightarrow> Rule list \<Rightarrow> PlacementResult" where
  "EvaluateNode ep node rules = fold (evaluateStep ep node) rules
     \<lparr>pe_NodeName = ent_Name node, pe_Eligible = True, pe_Score = 0, pe_FailedRules = [], pe_MatchedSoft = []\<rparr>"

definition EvaluateAll :: "EntityProvider \<Rightarrow> Rule list \<Rightarrow> PlacementResult list" where
  "EvaluateAll ep rules = map (\<lambda>node. EvaluateNode ep node rules) (ep_Nodes ep)"

definition EligibleNodes :: "EntityProvider \<Rightarrow> Rule list \<Rightarrow> PlacementResult list" where
  "EligibleNodes ep rules = filter pe_Eligible (EvaluateAll ep rules)"

subsection \<open>Specification\<close>

definition required_failing :: "EntityProvider \<Rightarrow> Entity \<Rightarrow> Rule list \<Rightarrow> Rule list" where
  "required_failing ep node rules = filter (\<lambda>r. pl_Required r \<and> \<not> evaluateRule ep node r) rules"

definition soft_passing :: "EntityProvider \<Rightarrow> Entity \<Rightarrow> Rule list \<Rightarrow> Rule list" where
  "soft_passing ep node rules = filter (\<lambda>r. \<not> pl_Required r \<and> evaluateRule ep node r) rules"

text \<open>A mesh for the concrete runs: capsule \<open>db\<close> runs on \<open>n2\<close>.\<close>

definition sample_mesh :: EntityProvider where
  "sample_mesh = \<lparr>
     ep_Nodes = [\<lparr>ent_Name = ''n1'', ent_Type = ''node'', ent_Labels = Some [(''zone'', ''a'')]\<rparr>,
                 \<lparr>ent_Name = ''n2'', ent_Type = ''node'', ent_Labels = Some [(''zone'', ''b''), (''disk'', ''ssd'')]\<rparr>],
     ep_Clusters = [], ep_Datacenters = [],
     ep_CapsuleNodes = (\<lambda>names _. if ''db'' \<in> set names
       then [\<lparr>ent_Name = ''n2'', ent_Type = ''node'', ent_Labels = Some [(''zone'', ''b''), (''disk'', ''ssd'')]\<rparr>] else [])\<rparr>"

definition soft_ssd :: Rule where
  "soft_ssd = \<lparr>pl_Name = ''ssd'', pl_Type = placementTypeNode, pl_Mode = '''', pl_Names = [], pl_Labels = Some [(''disk'', ''ssd'')],
     pl_Required = False\<rparr>"

definition away_from_db :: Rule where
  "away_from_db = \<lparr>pl_Name = ''away'', pl_Type = placementTypeCapsule, pl_Mode = placementModeAway, pl_Names = [''db''],
     pl_Labels = None, pl_Required = True\<rparr>"

section \<open>Lemmas\<close>

lemma evaluateStep_effect:
  "pe_Eligible (evaluateStep ep node r res) \<longleftrightarrow> pe_Eligible res \<and> \<not> (pl_Required r \<and> \<not> evaluateRule ep node r)"
  "pe_FailedRules (evaluateStep ep node r res) = pe_FailedRules res @ map pl_Name (required_failing ep node [r])"
  "pe_MatchedSoft (evaluateStep ep node r res) = pe_MatchedSoft res @ map pl_Name (soft_passing ep node [r])"
  "pe_Score (evaluateStep ep node r res) =
     (if soft_passing ep node [r] = [] then pe_Score res else fadd (pe_Score res) 1)"
  by (simp_all add: evaluateStep_def Let_def required_failing_def soft_passing_def)

lemma fold_evaluateStep:
  "pe_Eligible (fold (evaluateStep ep node) rules res) \<longleftrightarrow> pe_Eligible res \<and> required_failing ep node rules = []"
  "pe_FailedRules (fold (evaluateStep ep node) rules res) = pe_FailedRules res @ map pl_Name (required_failing ep node rules)"
  "pe_MatchedSoft (fold (evaluateStep ep node) rules res) = pe_MatchedSoft res @ map pl_Name (soft_passing ep node rules)"
  by (induction rules arbitrary: res) (simp_all add: evaluateStep_effect required_failing_def soft_passing_def)

lemma fold_score:
  assumes "pe_Score res = of_nat k" "k + length rules \<le> 2 ^ 53"
  shows "pe_Score (fold (evaluateStep ep node) rules res) = of_nat (k + length (soft_passing ep node rules))"
  using assms
proof (induction rules arbitrary: res k)
  case (Cons r rules)
  let ?k = "k + length (soft_passing ep node [r])"
  have le: "?k \<le> Suc k" by (simp add: soft_passing_def)
  have "f64 (of_nat (Suc k)) = (of_nat (Suc k) :: rat)" using Cons.prems(2) by (intro f64_of_nat) simp
  then have "fadd (of_nat k) 1 = (of_nat (Suc k) :: rat)" by (simp add: fadd_def add.commute)
  then have "pe_Score (evaluateStep ep node r res) = of_nat ?k"
    using Cons.prems(1) by (auto simp: evaluateStep_effect soft_passing_def)
  from Cons.IH [OF this] Cons.prems(2) le show ?case by (simp add: soft_passing_def)
qed (simp add: soft_passing_def)

section \<open>Properties\<close>



text \<open>
  The nodes are not sorted: the comment of \<^verbatim>\<open>EvaluateAll\<close> promises results by eligibility and score, but they
  come in the provider's order; here the node with score 0 comes before the node with score 1.
\<close>

theorem EvaluateAll_not_sorted:
  "map pe_Score (EvaluateAll sample_mesh [soft_ssd]) = [0, 1]"
  by code_simp

text \<open>
  A required anti-affinity rule without a \<^verbatim>\<open>same\<close> label excludes no node: while the capsule to avoid runs
  somewhere, the evaluator passes every node, the one that runs it included. The gravity package decides the same
  rule the other way for that node.
\<close>

theorem away_rule_ignored:
  assumes "pl_Type rule = placementTypeCapsule" and "SameKeys rule = []" and "ep_CapsuleNodes ep (pl_Names rule) None \<noteq> []"
  shows "evaluateRule ep node rule"
  using assms by (simp add: evaluateRule_def evaluateCapsuleRule_def placement_defs Let_def)

theorem away_rule_ignored_witness:
  "evaluateRule sample_mesh (ep_Nodes sample_mesh ! 1) away_from_db \<and>
   \<not> ruleMatchesNode \<lparr>pr_Name = ''away'', pr_Type = placementTypeCapsule, pr_Mode = placementModeAway, pr_Names = [''db''],
       pr_Labels = None, pr_Required = True\<rparr> (sample_node\<lparr>ns_NodeID := ''n2''\<rparr>) (Some (\<lambda>c n. if n = ''db'' then [''n2''] else []))"
proof
  show "evaluateRule sample_mesh (ep_Nodes sample_mesh ! 1) away_from_db"
    by (rule away_rule_ignored) (simp_all add: away_from_db_def sample_mesh_def SameKeys_def)
  show "\<not> ruleMatchesNode \<lparr>pr_Name = ''away'', pr_Type = placementTypeCapsule, pr_Mode = placementModeAway, pr_Names = [''db''],
       pr_Labels = None, pr_Required = True\<rparr> (sample_node\<lparr>ns_NodeID := ''n2''\<rparr>) (Some (\<lambda>c n. if n = ''db'' then [''n2''] else []))"
    by code_simp
qed

end
