(* ===== verification/Health.thy ===== *)
theory Health
  imports Phonebook
begin

text \<open>
  \<^verbatim>\<open>src/node/health\<close>: failure detection. \<open>ScoreTracker\<close> turns probe results into scores, statuses and quarantine
  timers over the phonebook; the monitor probes peers, answers probe requests of others and removes failed nodes; the
  health topic authenticates the messages of other nodes.

  The state holds the phonebook database, which other parts of the node change as well, the quarantine timers, the
  events published on the bus with their time, and the messages published on the topic. Arguments of the operations
  stand for what is outside: the clock, the ping of a peer, \<^verbatim>\<open>peer.Decode\<close>, random choices, protobuf and the
  verification of a signature. Scores are finite.
\<close>

section \<open>Definitions\<close>

subsection \<open>Thresholds\<close>

definition DefaultScoreIncrement :: f64 where "DefaultScoreIncrement = f64 (1 / 2)"
definition DefaultSuspectedThreshold :: f64 where "DefaultSuspectedThreshold = f64 4"
definition DefaultQuarantineThreshold :: f64 where "DefaultQuarantineThreshold = f64 10"
definition DefaultQuarantineTimeout :: duration where "DefaultQuarantineTimeout = 30 * Second"

record ClusterSizeScaleBand =
  sb_MinNodes :: int
  sb_ThresholdScale :: f64
  sb_TimeoutScale :: f64

definition DefaultScaleBands :: "ClusterSizeScaleBand list" where
  "DefaultScaleBands =
     [\<lparr>sb_MinNodes = 0, sb_ThresholdScale = f64 (3 / 10), sb_TimeoutScale = f64 (33 / 100)\<rparr>,
      \<lparr>sb_MinNodes = 3, sb_ThresholdScale = f64 (5 / 10), sb_TimeoutScale = f64 (5 / 10)\<rparr>,
      \<lparr>sb_MinNodes = 6, sb_ThresholdScale = f64 (7 / 10), sb_TimeoutScale = f64 (67 / 100)\<rparr>,
      \<lparr>sb_MinNodes = 11, sb_ThresholdScale = f64 1, sb_TimeoutScale = f64 1\<rparr>]"

record ScoreConfig =
  sg_ScoreIncrement :: f64
  sg_SuspectedThreshold :: f64
  sg_QuarantineThreshold :: f64
  sg_QuarantineTimeout :: duration
  sg_ScaleBands :: "ClusterSizeScaleBand list"

definition DefaultScoreConfig :: ScoreConfig where
  "DefaultScoreConfig = \<lparr>sg_ScoreIncrement = DefaultScoreIncrement, sg_SuspectedThreshold = DefaultSuspectedThreshold,
     sg_QuarantineThreshold = DefaultQuarantineThreshold, sg_QuarantineTimeout = DefaultQuarantineTimeout,
     sg_ScaleBands = DefaultScaleBands\<rparr>"

record effectiveThresholds =
  et_SuspectedThreshold :: f64
  et_QuarantineThreshold :: f64
  et_QuarantineTimeout :: duration

definition computeEffective :: "ScoreConfig \<Rightarrow> int \<Rightarrow> effectiveThresholds" where
  "computeEffective cfg clusterSize = (let
     bands = (if sg_ScaleBands cfg = [] then DefaultScaleBands else sg_ScaleBands cfg);
     band = fold (\<lambda>b band. if clusterSize \<ge> sb_MinNodes b then b else band) bands
       \<lparr>sb_MinNodes = 0, sb_ThresholdScale = 0, sb_TimeoutScale = 0\<rparr>
     in \<lparr>et_SuspectedThreshold = fmul (sg_SuspectedThreshold cfg) (sb_ThresholdScale band),
         et_QuarantineThreshold = fmul (sg_QuarantineThreshold cfg) (sb_ThresholdScale band),
         et_QuarantineTimeout = to_integer (fmul (of_integer (sg_QuarantineTimeout cfg)) (sb_TimeoutScale band))\<rparr>)"

subsection \<open>The score tracker\<close>

datatype healthEvent =
    NodeRecovered string string string
  | NodeProbeResult string string bool string f64
  | NodeFailed string string
  | NodeQuarantined string string f64
  | NodeSuspected string string f64

record ScoreUpdate =
  su_TargetNodeId :: string
  su_Score :: f64
  su_Alive :: bool
  su_UpdatedBy :: string
  su_Timestamp :: "time option"
  su_Reason :: string

record PingRequest =
  pq_TargetNodeId :: string
  pq_RequesterId :: string
  pq_RequestId :: string
  pq_Timestamp :: "time option"

record ThresholdCrossed =
  tc_TargetNodeId :: string
  tc_Score :: f64
  tc_ReportedBy :: string
  tc_Timestamp :: "time option"

datatype healthPayload = MScoreUpdate ScoreUpdate | MPingRequest PingRequest | MThresholdCrossed ThresholdCrossed

record 'db ScoreTracker =
  tr_phonebook :: 'db
  tr_config :: ScoreConfig
  tr_clusterPath :: string
  tr_quarantineTimers :: "(string, time) gomap"
  tr_bus :: "(time \<times> healthEvent) list"
  tr_out :: "healthPayload list"
  tr_refreshed :: nat

definition NewScoreTracker :: "string \<Rightarrow> 'db \<Rightarrow> ScoreConfig \<Rightarrow> 'db ScoreTracker" where
  "NewScoreTracker clusterPath pb config = \<lparr>tr_phonebook = pb, tr_config = config, tr_clusterPath = clusterPath,
     tr_quarantineTimers = [], tr_bus = [], tr_out = [], tr_refreshed = 0\<rparr>"

definition clusterSize :: "'db pbsql \<Rightarrow> 'db ScoreTracker \<Rightarrow> int" where
  "clusterSize D st = (case GetByCluster D (tr_phonebook st) (tr_clusterPath st) of
     None \<Rightarrow> 1
   | Some peers \<Rightarrow> int (length peers))"

definition effective :: "'db pbsql \<Rightarrow> 'db ScoreTracker \<Rightarrow> effectiveThresholds" where
  "effective D st = computeEffective (tr_config st) (clusterSize D st)"

definition EffectiveThresholds :: "'db pbsql \<Rightarrow> 'db ScoreTracker \<Rightarrow> f64 \<times> f64 \<times> duration" where
  "EffectiveThresholds D st = (let e = effective D st in
     (et_SuspectedThreshold e, et_QuarantineThreshold e, et_QuarantineTimeout e))"

definition Publish :: "time \<Rightarrow> healthEvent \<Rightarrow> 'db ScoreTracker \<Rightarrow> 'db ScoreTracker" where
  "Publish now ev st = st\<lparr>tr_bus := tr_bus st @ [(now, ev)]\<rparr>"

text \<open>A phonebook call whose error the code ignores.\<close>

definition pbTry :: "('db \<Rightarrow> 'db option) \<Rightarrow> 'db ScoreTracker \<Rightarrow> 'db ScoreTracker" where
  "pbTry f st = (case f (tr_phonebook st) of None \<Rightarrow> st | Some db \<Rightarrow> st\<lparr>tr_phonebook := db\<rparr>)"

definition checkThresholds :: "'db pbsql \<Rightarrow> time \<Rightarrow> string \<Rightarrow> f64 \<Rightarrow> f64 \<Rightarrow> string \<Rightarrow> 'db ScoreTracker \<Rightarrow> 'db ScoreTracker" where
  "checkThresholds D now nodeID oldScore newScore reason st = (let eff = effective D st in
     if oldScore < et_QuarantineThreshold eff \<and> newScore \<ge> et_QuarantineThreshold eff then (let
       st = pbTry (SetStatus D now nodeID (tr_clusterPath st) pbStatusQuarantined) st;
       st = st\<lparr>tr_quarantineTimers := mput nodeID now (tr_quarantineTimers st)\<rparr>
       in Publish now (NodeQuarantined nodeID (tr_clusterPath st) newScore) st)
     else (let
       st = (if oldScore < et_SuspectedThreshold eff \<and> newScore \<ge> et_SuspectedThreshold eff
         then Publish now (NodeSuspected nodeID (tr_clusterPath st) newScore)
           (pbTry (SetStatus D now nodeID (tr_clusterPath st) pbStatusSuspected) st)
         else st)
       in Publish now (NodeProbeResult nodeID (tr_clusterPath st) False reason newScore) st))"

definition RecordFailure :: "'db pbsql \<Rightarrow> time \<Rightarrow> string \<Rightarrow> string \<Rightarrow> 'db ScoreTracker \<Rightarrow> f64 \<times> 'db ScoreTracker" where
  "RecordFailure D now nodeID reason st = (case Phonebook_Get D (tr_phonebook st) nodeID (tr_clusterPath st) of
     Some (Some entry) \<Rightarrow> (let
       oldScore = pe_ReliabilityScore entry;
       newScore = fadd oldScore (sg_ScoreIncrement (tr_config st))
       in case SetReliabilityScore D now nodeID (tr_clusterPath st) newScore (tr_phonebook st) of
         None \<Rightarrow> (oldScore, st)
       | Some db \<Rightarrow> (newScore, checkThresholds D now nodeID oldScore newScore reason (st\<lparr>tr_phonebook := db\<rparr>)))
   | _ \<Rightarrow> (0, st))"

definition degraded :: "string \<Rightarrow> bool" where
  "degraded status \<longleftrightarrow> status = pbStatusSuspected \<or> status = pbStatusQuarantined"

definition RecordSuccess :: "'db pbsql \<Rightarrow> time \<Rightarrow> string \<Rightarrow> string \<Rightarrow> 'db ScoreTracker \<Rightarrow> 'db ScoreTracker" where
  "RecordSuccess D now nodeID reason st = (case Phonebook_Get D (tr_phonebook st) nodeID (tr_clusterPath st) of
     Some (Some entry) \<Rightarrow> (let oldStatus = pe_Status entry in
       case SetReliabilityScore D now nodeID (tr_clusterPath st) 0 (tr_phonebook st) of
         None \<Rightarrow> st
       | Some db \<Rightarrow> (let st = st\<lparr>tr_phonebook := db\<rparr> in
           case SetStatus D now nodeID (tr_clusterPath st) pbStatusActive (tr_phonebook st) of
             None \<Rightarrow> st
           | Some db \<Rightarrow> (let
               st = st\<lparr>tr_phonebook := db, tr_quarantineTimers := mdel nodeID (tr_quarantineTimers st)\<rparr>;
               st = (if degraded oldStatus then Publish now (NodeRecovered nodeID (tr_clusterPath st) oldStatus) st else st)
               in Publish now (NodeProbeResult nodeID (tr_clusterPath st) True reason 0) st)))
   | _ \<Rightarrow> st)"

definition SetScore :: "'db pbsql \<Rightarrow> time \<Rightarrow> string \<Rightarrow> f64 \<Rightarrow> bool \<Rightarrow> string \<Rightarrow> 'db ScoreTracker \<Rightarrow> 'db ScoreTracker" where
  "SetScore D now nodeID score alive reason st =
     (if alive then (let
        oldEntry = (case Phonebook_Get D (tr_phonebook st) nodeID (tr_clusterPath st) of Some e \<Rightarrow> e | None \<Rightarrow> None);
        st = pbTry (SetReliabilityScore D now nodeID (tr_clusterPath st) 0) st;
        st = pbTry (SetStatus D now nodeID (tr_clusterPath st) pbStatusActive) st;
        st = st\<lparr>tr_quarantineTimers := mdel nodeID (tr_quarantineTimers st)\<rparr>
        in case oldEntry of
          Some e \<Rightarrow> if degraded (pe_Status e) then Publish now (NodeRecovered nodeID (tr_clusterPath st) (pe_Status e)) st else st
        | None \<Rightarrow> st)
      else (case Phonebook_Get D (tr_phonebook st) nodeID (tr_clusterPath st) of
        Some (Some entry) \<Rightarrow> checkThresholds D now nodeID (pe_ReliabilityScore entry) score reason
          (pbTry (SetReliabilityScore D now nodeID (tr_clusterPath st) score) st)
      | _ \<Rightarrow> st))"

definition GetScore :: "'db pbsql \<Rightarrow> string \<Rightarrow> 'db ScoreTracker \<Rightarrow> f64" where
  "GetScore D nodeID st = (case Phonebook_Get D (tr_phonebook st) nodeID (tr_clusterPath st) of
     Some (Some entry) \<Rightarrow> pe_ReliabilityScore entry
   | _ \<Rightarrow> 0)"

text \<open>One timer of the loop of \<^verbatim>\<open>CheckQuarantineTimeouts\<close>.\<close>

definition checkTimer :: "'db pbsql \<Rightarrow> time \<Rightarrow> duration \<Rightarrow> string \<times> time \<Rightarrow> string list \<times> 'db ScoreTracker \<Rightarrow> string list \<times> 'db ScoreTracker" where
  "checkTimer D now timeout timer acc = (case timer of (nodeID, quarantinedAt) \<Rightarrow> case acc of (failed, st) \<Rightarrow>
     if now - quarantinedAt \<le> timeout then (failed, st)
     else (case SetStatus D now nodeID (tr_clusterPath st) pbStatusFailed (tr_phonebook st) of
       None \<Rightarrow> (failed, st)
     | Some db \<Rightarrow> (failed @ [nodeID], Publish now (NodeFailed nodeID (tr_clusterPath st))
         (st\<lparr>tr_phonebook := db, tr_quarantineTimers := mdel nodeID (tr_quarantineTimers st)\<rparr>))))"

definition CheckQuarantineTimeouts :: "'db pbsql \<Rightarrow> time \<Rightarrow> 'db ScoreTracker \<Rightarrow> string list \<times> 'db ScoreTracker" where
  "CheckQuarantineTimeouts D now st =
     fold (checkTimer D now (et_QuarantineTimeout (effective D st))) (tr_quarantineTimers st) ([], st)"

subsection \<open>The monitor\<close>

text \<open>What the monitor uses of its host: the own identifier, decoding, pinging, sorting the peers by the time they were
  first seen, a random index below a bound, fresh request identifiers, the optional session refresher.\<close>

record hostEnv =
  he_self :: string
  he_Decode :: "string \<Rightarrow> string option"
  he_Ping :: "string \<Rightarrow> bool"
  he_sort :: "Entry list \<Rightarrow> Entry list"
  he_Intn :: "nat \<Rightarrow> nat"
  he_uuid :: "string \<Rightarrow> string"
  he_maxResponders :: int
  he_refresher :: bool

definition DefaultMaxResponders :: int where "DefaultMaxResponders = 2"

definition send :: "healthPayload \<Rightarrow> 'db ScoreTracker \<Rightarrow> 'db ScoreTracker" where
  "send m st = st\<lparr>tr_out := tr_out st @ [m]\<rparr>"

definition refresh :: "hostEnv \<Rightarrow> 'db ScoreTracker \<Rightarrow> 'db ScoreTracker" where
  "refresh H st = (if he_refresher H then st\<lparr>tr_refreshed := Suc (tr_refreshed st)\<rparr> else st)"

definition scoreUpdate :: "hostEnv \<Rightarrow> time \<Rightarrow> string \<Rightarrow> f64 \<Rightarrow> bool \<Rightarrow> string \<Rightarrow> healthPayload" where
  "scoreUpdate H now nodeID score alive reason = MScoreUpdate \<lparr>su_TargetNodeId = nodeID, su_Score = score, su_Alive = alive,
     su_UpdatedBy = he_self H, su_Timestamp = Some now, su_Reason = reason\<rparr>"

definition pingRequest :: "hostEnv \<Rightarrow> time \<Rightarrow> string \<Rightarrow> healthPayload" where
  "pingRequest H now nodeID = MPingRequest \<lparr>pq_TargetNodeId = nodeID, pq_RequesterId = he_self H, pq_RequestId = he_uuid H nodeID,
     pq_Timestamp = Some now\<rparr>"

definition thresholdCrossed :: "hostEnv \<Rightarrow> time \<Rightarrow> string \<Rightarrow> f64 \<Rightarrow> healthPayload" where
  "thresholdCrossed H now nodeID score = MThresholdCrossed \<lparr>tc_TargetNodeId = nodeID, tc_Score = score, tc_ReportedBy = he_self H,
     tc_Timestamp = Some now\<rparr>"

definition probeCandidates :: "string \<Rightarrow> Entry list \<Rightarrow> Entry list" where
  "probeCandidates selfID peers = filter (\<lambda>p. pe_NodeID p \<noteq> selfID \<and>
     \<not> (pe_Status p = pbStatusQuarantined \<or> pe_Status p = pbStatusFailed)) peers"

definition selectRandomActivePeer :: "'db pbsql \<Rightarrow> hostEnv \<Rightarrow> 'db ScoreTracker \<Rightarrow> Entry option" where
  "selectRandomActivePeer D H st = (case GetByCluster D (tr_phonebook st) (tr_clusterPath st) of
     None \<Rightarrow> None
   | Some peers \<Rightarrow> (let candidates = probeCandidates (he_self H) peers in
       if candidates = [] then None else Some (candidates ! he_Intn H (length candidates))))"

definition onProbeSuccess :: "'db pbsql \<Rightarrow> hostEnv \<Rightarrow> time \<Rightarrow> string \<Rightarrow> 'db ScoreTracker \<Rightarrow> 'db ScoreTracker" where
  "onProbeSuccess D H now nodeID st =
     send (scoreUpdate H now nodeID 0 True ''direct_ping_success'') (refresh H (RecordSuccess D now nodeID ''direct'' st))"

definition isQuarantined :: "'db pbsql \<Rightarrow> string \<Rightarrow> 'db ScoreTracker \<Rightarrow> bool" where
  "isQuarantined D nodeID st = (case Phonebook_Get D (tr_phonebook st) nodeID (tr_clusterPath st) of
     Some (Some entry) \<Rightarrow> pe_Status entry = pbStatusQuarantined
   | _ \<Rightarrow> False)"

definition onDirectPingFail :: "'db pbsql \<Rightarrow> hostEnv \<Rightarrow> time \<Rightarrow> string \<Rightarrow> 'db ScoreTracker \<Rightarrow> 'db ScoreTracker" where
  "onDirectPingFail D H now nodeID st = (let
     (newScore, st) = RecordFailure D now nodeID ''direct_ping_fail'' st;
     st = send (scoreUpdate H now nodeID newScore False ''direct_ping_fail'') st;
     st = send (pingRequest H now nodeID) st
     in if isQuarantined D nodeID st then send (thresholdCrossed H now nodeID newScore) st else st)"

definition runProtocolPeriod :: "'db pbsql \<Rightarrow> hostEnv \<Rightarrow> time \<Rightarrow> 'db ScoreTracker \<Rightarrow> 'db ScoreTracker" where
  "runProtocolPeriod D H now st = (case selectRandomActivePeer D H st of
     None \<Rightarrow> st
   | Some target \<Rightarrow> (case he_Decode H (pe_NodeID target) of
       None \<Rightarrow> st
     | Some targetID \<Rightarrow> if he_Ping H targetID then onProbeSuccess D H now (pe_NodeID target) st
         else onDirectPingFail D H now (pe_NodeID target) st))"

definition onScoreUpdate :: "'db pbsql \<Rightarrow> hostEnv \<Rightarrow> time \<Rightarrow> ScoreUpdate \<Rightarrow> 'db ScoreTracker \<Rightarrow> 'db ScoreTracker" where
  "onScoreUpdate D H now update st = (let
     st = SetScore D now (su_TargetNodeId update) (su_Score update) (su_Alive update) (su_Reason update) st
     in if su_Alive update then refresh H st else st)"

text \<open>The loop of \<^verbatim>\<open>isTopResponder\<close> over the sorted peers; a peer identifier that does not decode is the empty one.\<close>

fun topResponderLoop :: "hostEnv \<Rightarrow> string \<Rightarrow> int \<Rightarrow> Entry list \<Rightarrow> bool" where
  "topResponderLoop H excludeTarget position [] = False"
| "topResponderLoop H excludeTarget position (p # ps) =
     (if (case he_Decode H (pe_NodeID p) of Some i \<Rightarrow> i | None \<Rightarrow> '''') = excludeTarget then topResponderLoop H excludeTarget position ps
      else if pe_Status p \<noteq> pbStatusActive then topResponderLoop H excludeTarget position ps
      else if pe_NodeID p = he_self H then position < he_maxResponders H
      else if position + 1 \<ge> he_maxResponders H then False
      else topResponderLoop H excludeTarget (position + 1) ps)"

definition isTopResponder :: "'db pbsql \<Rightarrow> hostEnv \<Rightarrow> string \<Rightarrow> 'db ScoreTracker \<Rightarrow> bool" where
  "isTopResponder D H excludeTarget st = (case GetByCluster D (tr_phonebook st) (tr_clusterPath st) of
     None \<Rightarrow> False
   | Some peers \<Rightarrow> topResponderLoop H excludeTarget 0 (he_sort H peers))"

definition onPingRequest :: "'db pbsql \<Rightarrow> hostEnv \<Rightarrow> time \<Rightarrow> PingRequest \<Rightarrow> 'db ScoreTracker \<Rightarrow> 'db ScoreTracker" where
  "onPingRequest D H now req st = (let target = pq_TargetNodeId req in
     if pq_RequesterId req = he_self H then st
     else case he_Decode H target of
       None \<Rightarrow> st
     | Some targetID \<Rightarrow>
         if \<not> isTopResponder D H targetID st then st
         else (let st = snd (RecordFailure D now target ''indirect_pre_probe'' st) in
           if he_Ping H targetID then
             send (scoreUpdate H now target 0 True ''indirect_ping_success'') (RecordSuccess D now target ''indirect_ping_success'' st)
           else (let
             newScore = GetScore D target st;
             st = send (scoreUpdate H now target newScore False ''indirect_ping_fail'') st
             in if isQuarantined D target st then send (thresholdCrossed H now target newScore) st else st)))"

definition onThresholdCrossed :: "'db pbsql \<Rightarrow> hostEnv \<Rightarrow> time \<Rightarrow> ThresholdCrossed \<Rightarrow> 'db ScoreTracker \<Rightarrow> 'db ScoreTracker" where
  "onThresholdCrossed D H now tc st = (let target = tc_TargetNodeId tc in
     case he_Decode H target of
       None \<Rightarrow> st
     | Some targetID \<Rightarrow> if he_Ping H targetID
         then send (scoreUpdate H now target 0 True ''final_confirmation_success'')
           (RecordSuccess D now target ''final_confirmation_success'' st)
         else st)"

text \<open>One tick of the quarantine check loop, and of the quarantine probe loop.\<close>

definition quarantineCheckTick :: "'db pbsql \<Rightarrow> time \<Rightarrow> 'db ScoreTracker \<Rightarrow> 'db ScoreTracker" where
  "quarantineCheckTick D now st = (let (failed, st) = CheckQuarantineTimeouts D now st in
     fold (\<lambda>nodeID st. pbTry (Phonebook_Remove D nodeID (tr_clusterPath st)) st) failed st)"

definition probeQuarantinedPeers :: "'db pbsql \<Rightarrow> hostEnv \<Rightarrow> time \<Rightarrow> 'db ScoreTracker \<Rightarrow> 'db ScoreTracker" where
  "probeQuarantinedPeers D H now st = (case GetByStatus D (tr_phonebook st) (tr_clusterPath st) pbStatusQuarantined of
     None \<Rightarrow> st
   | Some quarantined \<Rightarrow> fold (\<lambda>entry. send (pingRequest H now (pe_NodeID entry))) quarantined st)"

subsection \<open>The health topic\<close>

definition DefaultMaxMessageAge :: duration where "DefaultMaxMessageAge = 30 * Second"

record HealthMessage =
  hm_Type :: string
  hm_Payload :: string
  hm_SenderId :: string
  hm_Timestamp :: "time option"
  hm_Signature :: "string option"

text \<open>Protobuf and the keys: the payloads are decoded by their type; \<open>hc_Verify\<close> is parsing a public key and verifying a
  signature with it, \<open>hc_Sign\<close> signing with the own key.\<close>

record healthCodec =
  hc_Unmarshal :: "string \<Rightarrow> HealthMessage option"
  hc_Marshal :: "HealthMessage \<Rightarrow> string option"
  hc_MarshalPayload :: "healthPayload \<Rightarrow> string option"
  hc_ScoreUpdate :: "string \<Rightarrow> ScoreUpdate option"
  hc_PingRequest :: "string \<Rightarrow> PingRequest option"
  hc_ThresholdCrossed :: "string \<Rightarrow> ThresholdCrossed option"
  hc_Verify :: "string \<Rightarrow> string \<Rightarrow> string \<Rightarrow> bool"
  hc_Sign :: "string \<Rightarrow> string option"

text \<open>\<^verbatim>\<open>time.Time.MarshalBinary\<close> of a UTC time: a version, the seconds since year 1, the nanoseconds, the offset -1.\<close>

definition MarshalBinary :: "time \<Rightarrow> string" where
  "MarshalBinary t = char_of (1::nat) # PutUint64 (u64 (t div Second + 62135596800)) @ PutUint32 (nat (t mod Second))
     @ [char_of (255::nat), char_of (255::nat)]"

definition signedContent :: "HealthMessage \<Rightarrow> string" where
  "signedContent msg = (let
     b = WriteString (hm_Type msg) NewBuffer;
     b = WriteField (hm_Payload msg) b;
     b = WriteString (hm_SenderId msg) b;
     b = (case hm_Timestamp msg of Some t \<Rightarrow> WriteTimeBinary (MarshalBinary t) b | None \<Rightarrow> WriteField [] b)
     in Bytes b)"

definition signMessage :: "healthCodec \<Rightarrow> HealthMessage \<Rightarrow> string option" where
  "signMessage C msg = hc_Sign C (signedContent msg)"

definition verifySignature :: "'db pbsql \<Rightarrow> healthCodec \<Rightarrow> HealthMessage \<Rightarrow> 'db ScoreTracker \<Rightarrow> bool" where
  "verifySignature D C msg st = (case hm_Signature msg of
     None \<Rightarrow> False
   | Some sig \<Rightarrow> (case Phonebook_Get D (tr_phonebook st) (hm_SenderId msg) (tr_clusterPath st) of
       Some (Some entry) \<Rightarrow> hc_Verify C (pe_PublicKey entry) (signedContent msg) sig
     | _ \<Rightarrow> False))"

definition payloadType :: "healthPayload \<Rightarrow> string" where
  "payloadType m = (case m of MScoreUpdate _ \<Rightarrow> ''score_update'' | MPingRequest _ \<Rightarrow> ''ping_request'' | MThresholdCrossed _ \<Rightarrow> ''threshold_crossed'')"

definition Health_publish :: "healthCodec \<Rightarrow> hostEnv \<Rightarrow> time \<Rightarrow> healthPayload \<Rightarrow> string option" where
  "Health_publish C H now m = (case hc_MarshalPayload C m of
     None \<Rightarrow> None
   | Some payload \<Rightarrow> (let
       envelope = \<lparr>hm_Type = payloadType m, hm_Payload = payload, hm_SenderId = he_self H, hm_Timestamp = Some now, hm_Signature = None\<rparr>
       in hc_Marshal C (envelope\<lparr>hm_Signature := signMessage C envelope\<rparr>)))"

definition Health_handleMessage :: "'db pbsql \<Rightarrow> healthCodec \<Rightarrow> hostEnv \<Rightarrow> duration \<Rightarrow> time \<Rightarrow> string \<Rightarrow> 'db ScoreTracker \<Rightarrow> 'db ScoreTracker" where
  "Health_handleMessage D C H maxMessageAge now data st = (case hc_Unmarshal C data of
     None \<Rightarrow> st
   | Some envelope \<Rightarrow> (case hm_Timestamp envelope of
       None \<Rightarrow> st
     | Some t \<Rightarrow>
         if now - t > maxMessageAge then st
         else if \<not> verifySignature D C envelope st then st
         else if hm_Type envelope = ''score_update'' then
           (case hc_ScoreUpdate C (hm_Payload envelope) of Some u \<Rightarrow> onScoreUpdate D H now u st | None \<Rightarrow> st)
         else if hm_Type envelope = ''ping_request'' then
           (case hc_PingRequest C (hm_Payload envelope) of Some r \<Rightarrow> onPingRequest D H now r st | None \<Rightarrow> st)
         else if hm_Type envelope = ''threshold_crossed'' then
           (case hc_ThresholdCrossed C (hm_Payload envelope) of Some tc \<Rightarrow> onThresholdCrossed D H now tc st | None \<Rightarrow> st)
         else st))"

end
