(* ===== verification/Health_Detection.thy ===== *)
theory Health_Detection
  imports Health
begin

text \<open>
  What the failure detector guarantees. \<open>health_step\<close> is one step of a node: a protocol period, a received message, a
  tick of one of the quarantine loops, or a change of the phonebook by another part of the node. The bus is the
  history: a node is declared failed only while it is quarantined, for longer than the timeout, without a recovery.
  Over a database that is up, consecutive failed probes drive the status through the thresholds. Two theorems show
  cases in which the code does not do what it means to: a node that is never quarantined because the cluster shrank,
  and an active node that is removed because its quarantine timer outlives its return.
\<close>

section \<open>Definitions\<close>

inductive health_step :: "'db pbsql \<Rightarrow> healthCodec \<Rightarrow> 'db ScoreTracker \<Rightarrow> 'db ScoreTracker \<Rightarrow> bool"
  for D :: "'db pbsql" and C :: healthCodec where
  period: "health_step D C st (runProtocolPeriod D H now st)"
| receive: "health_step D C st (Health_handleMessage D C H maxAge now data st)"
| check: "health_step D C st (quarantineCheckTick D now st)"
| probe: "health_step D C st (probeQuarantinedPeers D H now st)"
| phonebook: "health_step D C st (st\<lparr>tr_phonebook := db\<rparr>)"

text \<open>Since when a node is quarantined, according to the history.\<close>

fun quarantine_note :: "string \<Rightarrow> time \<times> healthEvent \<Rightarrow> time option \<Rightarrow> time option" where
  "quarantine_note n (t, NodeQuarantined m c s) acc = (if m = n then Some t else acc)"
| "quarantine_note n (t, NodeRecovered m c s) acc = (if m = n then None else acc)"
| "quarantine_note n (t, _) acc = acc"

definition quarantinedSince :: "string \<Rightarrow> (time \<times> healthEvent) list \<Rightarrow> time option" where
  "quarantinedSince n bus = fold (quarantine_note n) bus None"

definition timers_traced :: "'db ScoreTracker \<Rightarrow> bool" where
  "timers_traced st \<longleftrightarrow> wf_map (tr_quarantineTimers st) \<and>
     (\<forall>n t. map_of (tr_quarantineTimers st) n = Some t \<longrightarrow> quarantinedSince n (tr_bus st) = Some t)"

definition failures_traced :: "ScoreConfig \<Rightarrow> (time \<times> healthEvent) list \<Rightarrow> bool" where
  "failures_traced cfg bus \<longleftrightarrow> (\<forall>pre post n c t. bus = pre @ (t, NodeFailed n c) # post \<longrightarrow>
     (\<exists>t0 nodes. quarantinedSince n pre = Some t0 \<and> et_QuarantineTimeout (computeEffective cfg nodes) < t - t0))"

definition detector_inv :: "ScoreConfig \<Rightarrow> 'db ScoreTracker \<Rightarrow> bool" where
  "detector_inv cfg st \<longleftrightarrow> tr_config st = cfg \<and> timers_traced st \<and> failures_traced cfg (tr_bus st)"

text \<open>Consecutive failed probes of one node.\<close>

definition failedProbes :: "'db pbsql \<Rightarrow> string \<Rightarrow> string \<Rightarrow> time list \<Rightarrow> 'db ScoreTracker \<Rightarrow> 'db ScoreTracker" where
  "failedProbes D n reason ts st = fold (\<lambda>t st. snd (RecordFailure D t n reason st)) ts st"

fun scoreAfter :: "f64 \<Rightarrow> f64 \<Rightarrow> nat \<Rightarrow> f64" where
  "scoreAfter inc s 0 = s"
| "scoreAfter inc s (Suc k) = fadd (scoreAfter inc s k) inc"

definition statusOf :: "effectiveThresholds \<Rightarrow> f64 \<Rightarrow> string" where
  "statusOf eff score = (if et_QuarantineThreshold eff \<le> score then pbStatusQuarantined
     else if et_SuspectedThreshold eff \<le> score then pbStatusSuspected else pbStatusActive)"

text \<open>The peers that count for responder selection.\<close>

definition responder :: "hostEnv \<Rightarrow> string \<Rightarrow> Entry \<Rightarrow> bool" where
  "responder H target p \<longleftrightarrow> (case he_Decode H (pe_NodeID p) of Some i \<Rightarrow> i | None \<Rightarrow> '''') \<noteq> target \<and> pe_Status p = pbStatusActive"

text \<open>A tracker over a working database in which the node \<open>n\<close> has a score and a status.\<close>

definition probed :: "'db pbsql \<Rightarrow> ('db \<Rightarrow> bool) \<Rightarrow> ('db \<Rightarrow> string \<times> string \<Rightarrow> pbrow option) \<Rightarrow>
    f64 \<Rightarrow> effectiveThresholds \<Rightarrow> string \<Rightarrow> 'db ScoreTracker \<Rightarrow> f64 \<Rightarrow> string \<Rightarrow> bool" where
  "probed D ok tbl inc eff n st score status \<longleftrightarrow> ok (tr_phonebook st) \<and> sg_ScoreIncrement (tr_config st) = inc \<and> effective D st = eff \<and>
     (case entries tbl (tr_phonebook st) (n, tr_clusterPath st) of None \<Rightarrow> False
      | Some e \<Rightarrow> pe_ReliabilityScore e = score \<and> pe_Status e = status)"

text \<open>A cluster of two nodes, a configuration with small thresholds, a host whose pings fail, for the concrete runs.\<close>

definition sample_row :: "string \<Rightarrow> f64 \<Rightarrow> pbrow" where
  "sample_row n score = \<lparr>pw_node_id = n, pw_cluster_path = ''eu/dc1/main'', pw_public_key = ''key'', pw_addresses = None,
     pw_region = ''eu'', pw_datacenter = ''dc1'', pw_capabilities = None, pw_first_seen = 1, pw_last_seen = 1,
     pw_last_connected = 0, pw_updated_at = 1, pw_conn_attempts = 0, pw_conn_success = 0, pw_success_rate = 0,
     pw_consec_fails = 0, pw_reliability_score = score, pw_last_probe_time = 0, pw_last_probe_success = 1,
     pw_status = ''active'', pw_is_connected = 0\<rparr>"

definition sample_cfg :: ScoreConfig where
  "sample_cfg = \<lparr>sg_ScoreIncrement = 1, sg_SuspectedThreshold = 1, sg_QuarantineThreshold = 2, sg_QuarantineTimeout = 10,
     sg_ScaleBands = [\<lparr>sb_MinNodes = 0, sb_ThresholdScale = 1, sb_TimeoutScale = 1\<rparr>]\<rparr>"

definition sample_host :: hostEnv where
  "sample_host = \<lparr>he_self = ''self'', he_Decode = Some, he_Ping = (\<lambda>_. False), he_sort = (\<lambda>ps. ps), he_Intn = (\<lambda>_. 0),
     he_uuid = (\<lambda>_. ''id''), he_maxResponders = 2, he_refresher = False\<rparr>"

definition sample_codec :: healthCodec where
  "sample_codec = \<lparr>hc_Unmarshal = (\<lambda>_. None), hc_Marshal = (\<lambda>_. None), hc_MarshalPayload = (\<lambda>_. None), hc_ScoreUpdate = (\<lambda>_. None),
     hc_PingRequest = (\<lambda>_. None), hc_ThresholdCrossed = (\<lambda>_. None), hc_Verify = (\<lambda>_ _ _. False), hc_Sign = (\<lambda>_. None)\<rparr>"

definition sample_tracker :: "f64 \<Rightarrow> pbrow list ScoreTracker" where
  "sample_tracker score = NewScoreTracker ''eu/dc1/main'' [sample_row ''self'' 0, sample_row ''n1'' score] sample_cfg"

section \<open>The history\<close>

lemma quarantinedSince_snoc: "quarantinedSince n (bus @ [x]) = quarantine_note n x (quarantinedSince n bus)"
  by (simp add: quarantinedSince_def)

lemma failures_traced_snoc:
  "failures_traced cfg (bus @ [(t, ev)]) \<longleftrightarrow> failures_traced cfg bus \<and>
     (\<forall>n c. ev = NodeFailed n c \<longrightarrow> (\<exists>t0 nodes. quarantinedSince n bus = Some t0 \<and>
        et_QuarantineTimeout (computeEffective cfg nodes) < t - t0))"
  unfolding failures_traced_def
proof (intro iffI conjI allI impI)
  assume h: "\<forall>pre post n c t'. bus @ [(t, ev)] = pre @ (t', NodeFailed n c) # post \<longrightarrow>
     (\<exists>t0 nodes. quarantinedSince n pre = Some t0 \<and> et_QuarantineTimeout (computeEffective cfg nodes) < t' - t0)"
  show "\<exists>t0 nodes. quarantinedSince n pre = Some t0 \<and> et_QuarantineTimeout (computeEffective cfg nodes) < t' - t0"
    if "bus = pre @ (t', NodeFailed n c) # post" for pre post n c t'
    using h [rule_format, of pre t' n c "post @ [(t, ev)]"] that by simp
  show "\<exists>t0 nodes. quarantinedSince n bus = Some t0 \<and> et_QuarantineTimeout (computeEffective cfg nodes) < t - t0"
    if "ev = NodeFailed n c" for n c
    using h [rule_format, of bus t n c "[]"] that by simp
next
  fix pre post n c t'
  assume h: "(\<forall>pre post n c t'. bus = pre @ (t', NodeFailed n c) # post \<longrightarrow>
       (\<exists>t0 nodes. quarantinedSince n pre = Some t0 \<and> et_QuarantineTimeout (computeEffective cfg nodes) < t' - t0)) \<and>
     (\<forall>n c. ev = NodeFailed n c \<longrightarrow> (\<exists>t0 nodes. quarantinedSince n bus = Some t0 \<and>
        et_QuarantineTimeout (computeEffective cfg nodes) < t - t0))"
    and e: "bus @ [(t, ev)] = pre @ (t', NodeFailed n c) # post"
  show "\<exists>t0 nodes. quarantinedSince n pre = Some t0 \<and> et_QuarantineTimeout (computeEffective cfg nodes) < t' - t0"
  proof (cases post rule: rev_cases)
    case Nil
    then show ?thesis using h e by auto
  next
    case (snoc post' x)
    then have "bus = pre @ (t', NodeFailed n c) # post'" using e by simp
    then show ?thesis using h by blast
  qed
qed

text \<open>Publishing keeps the invariant when the event agrees with the timers.\<close>

lemma pbTry_fields [simp]:
  "tr_quarantineTimers (pbTry f st) = tr_quarantineTimers st" "tr_bus (pbTry f st) = tr_bus st"
  "tr_config (pbTry f st) = tr_config st" "tr_clusterPath (pbTry f st) = tr_clusterPath st"
  by (simp_all add: pbTry_def split: option.split)

lemma Publish_fields [simp]:
  "tr_phonebook (Publish t ev st) = tr_phonebook st" "tr_quarantineTimers (Publish t ev st) = tr_quarantineTimers st"
  "tr_bus (Publish t ev st) = tr_bus st @ [(t, ev)]" "tr_config (Publish t ev st) = tr_config st"
  "tr_clusterPath (Publish t ev st) = tr_clusterPath st"
  by (simp_all add: Publish_def)

lemma detector_inv_cong:
  "tr_quarantineTimers st' = tr_quarantineTimers st \<Longrightarrow> tr_bus st' = tr_bus st \<Longrightarrow> tr_config st' = tr_config st \<Longrightarrow>
   detector_inv cfg st' = detector_inv cfg st"
  by (simp add: detector_inv_def timers_traced_def)

lemma detector_inv_frame [simp]:
  "detector_inv cfg (pbTry f st) = detector_inv cfg st"
  "detector_inv cfg (st\<lparr>tr_phonebook := db\<rparr>) = detector_inv cfg st"
  "detector_inv cfg (send m st) = detector_inv cfg st"
  "detector_inv cfg (refresh H st) = detector_inv cfg st"
  by (rule detector_inv_cong; simp add: send_def refresh_def)+

lemma detector_inv_publish:
  assumes "detector_inv cfg st" and "\<And>n. quarantine_note n (t, ev) = (\<lambda>acc. acc)" and "\<And>n c. ev \<noteq> NodeFailed n c"
  shows "detector_inv cfg (Publish t ev st)"
  using assms
  by (simp add: detector_inv_def timers_traced_def Publish_def failures_traced_snoc quarantinedSince_snoc)

lemma detector_inv_quarantine:
  assumes "detector_inv cfg st"
  shows "detector_inv cfg (Publish t (NodeQuarantined n c s) (st\<lparr>tr_quarantineTimers := mput n t (tr_quarantineTimers st)\<rparr>))"
  using assms
  by (auto simp: detector_inv_def timers_traced_def Publish_def failures_traced_snoc quarantinedSince_snoc split: if_splits)

lemma detector_inv_release:
  assumes "detector_inv cfg st"
  shows "detector_inv cfg (st\<lparr>tr_quarantineTimers := mdel n (tr_quarantineTimers st)\<rparr>)"
  using assms by (auto simp: detector_inv_def timers_traced_def split: if_splits)

lemma detector_inv_recover:
  assumes "detector_inv cfg st" and "map_of (tr_quarantineTimers st) n = None"
  shows "detector_inv cfg (Publish t (NodeRecovered n c s) st)"
  using assms
  by (auto simp: detector_inv_def timers_traced_def Publish_def failures_traced_snoc quarantinedSince_snoc)

lemma detector_inv_fail:
  assumes "detector_inv cfg st" and "map_of (tr_quarantineTimers st) n = Some t0"
    and "et_QuarantineTimeout (computeEffective (tr_config st) nodes) < t - t0"
  shows "detector_inv cfg (Publish t (NodeFailed n c) (st\<lparr>tr_quarantineTimers := mdel n (tr_quarantineTimers st)\<rparr>))"
  using assms
  by (auto simp: detector_inv_def timers_traced_def Publish_def failures_traced_snoc quarantinedSince_snoc split: if_splits)

lemma checkThresholds_inv:
  "detector_inv cfg st \<Longrightarrow> detector_inv cfg (checkThresholds D now n oldScore newScore reason st)"
  by (auto simp: checkThresholds_def Let_def intro!: detector_inv_publish
      detector_inv_quarantine [of cfg "pbTry _ _", simplified])

lemma RecordFailure_inv: "detector_inv cfg st \<Longrightarrow> detector_inv cfg (snd (RecordFailure D now n reason st))"
  by (auto simp: RecordFailure_def Let_def intro!: checkThresholds_inv split: option.split)

lemma detector_inv_released:
  assumes "detector_inv cfg st"
  shows "detector_inv cfg (Publish t (NodeProbeResult n c True reason 0)
      (st\<lparr>tr_phonebook := db, tr_quarantineTimers := mdel n (tr_quarantineTimers st)\<rparr>))"
    and "detector_inv cfg (Publish t (NodeProbeResult n c True reason 0) (Publish t (NodeRecovered n c s)
      (st\<lparr>tr_phonebook := db, tr_quarantineTimers := mdel n (tr_quarantineTimers st)\<rparr>)))"
proof -
  let ?st = "st\<lparr>tr_phonebook := db, tr_quarantineTimers := mdel n (tr_quarantineTimers st)\<rparr>"
  have "detector_inv cfg ?st" using detector_inv_release [of cfg "st\<lparr>tr_phonebook := db\<rparr>" n] assms by simp
  moreover have "map_of (tr_quarantineTimers ?st) n = None" by simp
  ultimately show "detector_inv cfg (Publish t (NodeProbeResult n c True reason 0) ?st)"
    "detector_inv cfg (Publish t (NodeProbeResult n c True reason 0) (Publish t (NodeRecovered n c s) ?st))"
    by (auto intro!: detector_inv_publish detector_inv_recover)
qed

lemma RecordSuccess_inv: "detector_inv cfg st \<Longrightarrow> detector_inv cfg (RecordSuccess D now n reason st)"
  by (auto simp: RecordSuccess_def Let_def intro: detector_inv_released split: option.split)

lemma SetScore_inv:
  assumes "detector_inv cfg st"
  shows "detector_inv cfg (SetScore D now n score alive reason st)"
proof -
  have rel: "detector_inv cfg (st'\<lparr>tr_quarantineTimers := mdel n (tr_quarantineTimers st')\<rparr>)"
    "detector_inv cfg (Publish now (NodeRecovered n c s) (st'\<lparr>tr_quarantineTimers := mdel n (tr_quarantineTimers st')\<rparr>))"
    if "detector_inv cfg st'" for st' :: "'a ScoreTracker" and c s
    using detector_inv_release [OF that] by (auto intro!: detector_inv_recover)
  show ?thesis
    using assms rel [of "pbTry _ (pbTry _ st)"]
    by (auto simp: SetScore_def Let_def intro!: checkThresholds_inv split: option.split)
qed

lemma checkTimer_inv:
  assumes "detector_inv cfg st" and "map_of (tr_quarantineTimers st) n = Some t0"
    and "timeout = et_QuarantineTimeout (computeEffective (tr_config st) nodes)"
  shows "detector_inv cfg (snd (checkTimer D now timeout (n, t0) (failed, st)))"
  using assms detector_inv_fail [of cfg "st\<lparr>tr_phonebook := _\<rparr>" n t0 nodes now]
  by (auto simp: checkTimer_def split: option.split)

lemma checkTimer_fields:
  "tr_config (snd (checkTimer D now timeout x acc)) = tr_config (snd acc)"
  "m \<noteq> fst x \<Longrightarrow> map_of (tr_quarantineTimers (snd (checkTimer D now timeout x acc))) m = map_of (tr_quarantineTimers (snd acc)) m"
  by (auto simp: checkTimer_def Publish_def split: prod.split option.split)

lemma checkTimers_inv:
  assumes "distinct (map fst timers)" and "detector_inv cfg (snd acc)"
    and "list_all (\<lambda>(n, t0). map_of (tr_quarantineTimers (snd acc)) n = Some t0) timers"
    and "timeout = et_QuarantineTimeout (computeEffective (tr_config (snd acc)) nodes)"
  shows "detector_inv cfg (snd (fold (checkTimer D now timeout) timers acc))"
  using assms
proof (induction timers arbitrary: acc)
  case (Cons x timers)
  obtain n t0 where x: "x = (n, t0)" by (cases x)
  obtain failed st where acc: "acc = (failed, st)" by (cases acc)
  let ?acc = "checkTimer D now timeout x acc"
  have "detector_inv cfg (snd ?acc)"
    unfolding x acc using Cons.prems x acc by (intro checkTimer_inv) auto
  moreover have "list_all (\<lambda>(n, t0). map_of (tr_quarantineTimers (snd ?acc)) n = Some t0) timers"
    unfolding list_all_iff
  proof
    fix y assume y: "y \<in> set timers"
    then have "fst y \<noteq> fst x" using Cons.prems(1) by (auto simp: image_iff)
    moreover have "map_of (tr_quarantineTimers (snd acc)) (fst y) = Some (snd y)"
      using Cons.prems(3) y by (auto simp: list_all_iff)
    ultimately show "case y of (n, t0) \<Rightarrow> map_of (tr_quarantineTimers (snd ?acc)) n = Some t0"
      by (cases y) (simp add: checkTimer_fields(2))
  qed
  ultimately show ?case
    using Cons.IH [of ?acc] Cons.prems by (simp add: checkTimer_fields(1))
qed simp

lemma CheckQuarantineTimeouts_inv:
  assumes "detector_inv cfg st"
  shows "detector_inv cfg (snd (CheckQuarantineTimeouts D now st))"
proof -
  have wf: "wf_map (tr_quarantineTimers st)" using assms by (simp add: detector_inv_def timers_traced_def)
  then show ?thesis
    unfolding CheckQuarantineTimeouts_def effective_def
    using assms by (intro checkTimers_inv) (auto simp: wf_map_def list_all_iff map_of_is_SomeI)
qed

lemma quarantineCheckTick_inv:
  assumes "detector_inv cfg st"
  shows "detector_inv cfg (quarantineCheckTick D now st)"
proof -
  have "detector_inv cfg st' \<Longrightarrow> detector_inv cfg (fold (\<lambda>n st. pbTry (Phonebook_Remove D n (tr_clusterPath st)) st) ns st')" for ns and st' :: "'a ScoreTracker"
    by (induction ns arbitrary: st') simp_all
  then show ?thesis
    using CheckQuarantineTimeouts_inv [OF assms, of D now]
    by (cases "CheckQuarantineTimeouts D now st") (simp add: quarantineCheckTick_def)
qed

lemmas detector_handler_defs = runProtocolPeriod_def onProbeSuccess_def onDirectPingFail_def Health_handleMessage_def
  onScoreUpdate_def onPingRequest_def onThresholdCrossed_def

lemma onDirectPingFail_inv: "detector_inv cfg st \<Longrightarrow> detector_inv cfg (onDirectPingFail D H now n st)"
  using RecordFailure_inv [of cfg st D now n "''direct_ping_fail''"]
  by (cases "RecordFailure D now n ''direct_ping_fail'' st") (simp add: onDirectPingFail_def Let_def)

lemma onProbeSuccess_inv: "detector_inv cfg st \<Longrightarrow> detector_inv cfg (onProbeSuccess D H now n st)"
  by (simp add: onProbeSuccess_def RecordSuccess_inv)

lemma onPingRequest_inv: "detector_inv cfg st \<Longrightarrow> detector_inv cfg (onPingRequest D H now req st)"
  by (simp add: onPingRequest_def Let_def RecordSuccess_inv RecordFailure_inv split: option.split)

lemma onThresholdCrossed_inv: "detector_inv cfg st \<Longrightarrow> detector_inv cfg (onThresholdCrossed D H now tc st)"
  by (simp add: onThresholdCrossed_def Let_def RecordSuccess_inv split: option.split)

lemma onScoreUpdate_inv: "detector_inv cfg st \<Longrightarrow> detector_inv cfg (onScoreUpdate D H now u st)"
  by (simp add: onScoreUpdate_def Let_def SetScore_inv)

lemma probeQuarantinedPeers_inv: "detector_inv cfg st \<Longrightarrow> detector_inv cfg (probeQuarantinedPeers D H now st)"
proof -
  have "detector_inv cfg (fold (\<lambda>e. send (pingRequest H now (pe_NodeID e))) es st) = detector_inv cfg st" for es :: "Entry list"
    by (induction es arbitrary: st) simp_all
  then show "detector_inv cfg st \<Longrightarrow> ?thesis" by (simp add: probeQuarantinedPeers_def split: option.split)
qed

lemma health_step_inv: "health_step D C st st' \<Longrightarrow> detector_inv cfg st \<Longrightarrow> detector_inv cfg st'"
proof (induction rule: health_step.induct)
  case (period st H now)
  then show ?case by (simp add: runProtocolPeriod_def onProbeSuccess_inv onDirectPingFail_inv split: option.split)
next
  case (receive st H maxAge now data)
  then show ?case
    by (simp add: Health_handleMessage_def onScoreUpdate_inv onPingRequest_inv onThresholdCrossed_inv split: option.split)
qed (simp_all add: quarantineCheckTick_inv probeQuarantinedPeers_inv)

lemma sample_effective:
  "0 \<le> nodes \<Longrightarrow> computeEffective sample_cfg nodes =
     \<lparr>et_SuspectedThreshold = 1, et_QuarantineThreshold = 2, et_QuarantineTimeout = 10\<rparr>"
  by (simp add: computeEffective_def sample_cfg_def fmul_def f64_numeral of_integer_small to_integer_def)

lemmas tracker_eval = NewScoreTracker_def sample_row_def Phonebook_Get_def GetByCluster_def
  scanEntries_def scanEntry_def atKey_def pbrows_db_def exec_def SetReliabilityScore_def SetStatus_def Phonebook_Remove_def
  clusterSize_def effective_def pbTry_def Publish_def send_def Let_def

lemma sample_quarantine:
  "runProtocolPeriod pbrows_db sample_host 100 (sample_tracker 1) =
     (sample_tracker 1)\<lparr>tr_phonebook := [sample_row ''self'' 0, (sample_row ''n1'' 2)\<lparr>pw_status := ''quarantined'', pw_updated_at := 0\<rparr>],
       tr_quarantineTimers := [(''n1'', 100)], tr_bus := [(100, NodeQuarantined ''n1'' ''eu/dc1/main'' 2)],
       tr_out := [scoreUpdate sample_host 100 ''n1'' 2 False ''direct_ping_fail'', pingRequest sample_host 100 ''n1'',
         thresholdCrossed sample_host 100 ''n1'' 2]\<rparr>"
  by (simp add: sample_tracker_def runProtocolPeriod_def selectRandomActivePeer_def probeCandidates_def sample_host_def
      onDirectPingFail_def RecordFailure_def checkThresholds_def sample_effective isQuarantined_def tracker_eval
      pbStatusQuarantined_def pbStatusFailed_def fadd_def f64_numeral mput_def UnixMilli_def)
    (simp add: sample_cfg_def fadd_def f64_numeral)

lemma sample_failed:
  "tr_bus (quarantineCheckTick pbrows_db 200 (runProtocolPeriod pbrows_db sample_host 100 (sample_tracker 1))) =
     [(100, NodeQuarantined ''n1'' ''eu/dc1/main'' 2), (200, NodeFailed ''n1'' ''eu/dc1/main'')]"
  unfolding sample_quarantine
  by (simp add: quarantineCheckTick_def CheckQuarantineTimeouts_def checkTimer_def sample_tracker_def sample_effective tracker_eval)

section \<open>Properties of the history\<close>



section \<open>Probing over a database that is up\<close>

lemma dom_atEntry: "{n. atEntry k g M (n, c) \<noteq> None} = {n. M (n, c) \<noteq> None}"
  by (auto simp: atEntry_def)

context reliable_phonebook
begin

text \<open>The entry of a node and the members of the cluster, as the tracker sees them.\<close>

lemma clusterSize_ok:
  assumes "ok (tr_phonebook st)"
  shows "clusterSize D st = int (card {n. entries tbl (tr_phonebook st) (n, tr_clusterPath st) \<noteq> None})"
proof -
  obtain es where es: "GetByCluster D (tr_phonebook st) (tr_clusterPath st) = Some es" "distinct (map pe_NodeID es)"
    "pe_NodeID ` set es = {n. entries tbl (tr_phonebook st) (n, tr_clusterPath st) \<noteq> None}"
    using GetByCluster_ok [OF assms] by metis
  from es(2) have "length es = card (pe_NodeID ` set es)" by (metis distinct_card length_map list.set_map)
  then show ?thesis using es by (simp add: clusterSize_def)
qed

lemma effective_cong:
  assumes "ok (tr_phonebook st)" "ok (tr_phonebook st')" "tr_config st' = tr_config st" "tr_clusterPath st' = tr_clusterPath st"
    and "{n. entries tbl (tr_phonebook st') (n, tr_clusterPath st) \<noteq> None} = {n. entries tbl (tr_phonebook st) (n, tr_clusterPath st) \<noteq> None}"
  shows "effective D st' = effective D st"
  using assms clusterSize_ok [of st] clusterSize_ok [of st'] by (simp add: effective_def)

lemma pbTry_SetStatus:
  assumes "ok (tr_phonebook st)"
  shows "\<exists>db. pbTry (SetStatus D t n c s) st = st\<lparr>tr_phonebook := db\<rparr> \<and> ok db \<and>
    entries tbl db = atEntry (n, c) (\<lambda>e. e\<lparr>pe_Status := s, pe_UpdatedAt := ms t\<rparr>) (entries tbl (tr_phonebook st))"
proof -
  obtain db where "SetStatus D t n c s (tr_phonebook st) = Some db" "ok db"
    "entries tbl db = pb_spec (PStatus t n c s) (entries tbl (tr_phonebook st))"
    using SetStatus_ok [OF assms] .
  then show ?thesis by (intro exI [of _ db]) (simp add: pbTry_def)
qed

lemma RecordFailure_ok:
  assumes ok: "ok (tr_phonebook st)" and e: "entries tbl (tr_phonebook st) (n, tr_clusterPath st) = Some e"
    and new_def: "new = fadd (pe_ReliabilityScore e) (sg_ScoreIncrement (tr_config st))"
    and eff_def: "eff = effective D st" and st'_def: "st' = snd (RecordFailure D t n reason st)"
  shows "ok (tr_phonebook st') \<and> tr_config st' = tr_config st \<and> tr_clusterPath st' = tr_clusterPath st \<and> effective D st' = eff \<and>
    (\<exists>e'. entries tbl (tr_phonebook st') (n, tr_clusterPath st) = Some e' \<and> pe_ReliabilityScore e' = new \<and>
      pe_Status e' = (if pe_ReliabilityScore e < et_QuarantineThreshold eff \<and> et_QuarantineThreshold eff \<le> new then pbStatusQuarantined
        else if pe_ReliabilityScore e < et_SuspectedThreshold eff \<and> et_SuspectedThreshold eff \<le> new then pbStatusSuspected
        else pe_Status e)) \<and>
    tr_quarantineTimers st' = (if pe_ReliabilityScore e < et_QuarantineThreshold eff \<and> et_QuarantineThreshold eff \<le> new
      then mput n t (tr_quarantineTimers st) else tr_quarantineTimers st)"
proof -
  let ?c = "tr_clusterPath st"
  obtain db where db: "SetReliabilityScore D t n ?c new (tr_phonebook st) = Some db" "ok db"
    "entries tbl db = pb_spec (PScore t n ?c new) (entries tbl (tr_phonebook st))"
    using SetReliabilityScore_ok [OF ok] .
  let ?st = "st\<lparr>tr_phonebook := db\<rparr>"
  have st': "st' = checkThresholds D t n (pe_ReliabilityScore e) new reason ?st"
    using Get_ok [OF ok, of n ?c] e db(1) by (simp add: st'_def RecordFailure_def new_def Let_def)
  have eff: "effective D ?st = eff"
    unfolding eff_def using ok db(2, 3) dom_atEntry by (intro effective_cong) simp_all
  have e1: "entries tbl db (n, ?c) = Some (e\<lparr>pe_ReliabilityScore := new, pe_UpdatedAt := ms t\<rparr>)"
    using db(3) e by (simp add: atEntry_def)
  obtain dbq where q: "pbTry (SetStatus D t n ?c pbStatusQuarantined) ?st = ?st\<lparr>tr_phonebook := dbq\<rparr>" "ok dbq"
    "entries tbl dbq = atEntry (n, ?c) (\<lambda>e. e\<lparr>pe_Status := pbStatusQuarantined, pe_UpdatedAt := ms t\<rparr>) (entries tbl db)"
    using pbTry_SetStatus [of ?st t n ?c pbStatusQuarantined] db(2) by auto
  obtain dbs where s: "pbTry (SetStatus D t n ?c pbStatusSuspected) ?st = ?st\<lparr>tr_phonebook := dbs\<rparr>" "ok dbs"
    "entries tbl dbs = atEntry (n, ?c) (\<lambda>e. e\<lparr>pe_Status := pbStatusSuspected, pe_UpdatedAt := ms t\<rparr>) (entries tbl db)"
    using pbTry_SetStatus [of ?st t n ?c pbStatusSuspected] db(2) by auto
  have same: "effective D x = eff" if "ok (tr_phonebook x)" "tr_config x = tr_config st" "tr_clusterPath x = ?c"
    "entries tbl (tr_phonebook x) = atEntry (n, ?c) g (entries tbl db)" for x g
    unfolding eff [symmetric] by (rule effective_cong) (use that db(2) in \<open>simp_all add: dom_atEntry del: not_None_eq\<close>)
  consider (quarantine) "pe_ReliabilityScore e < et_QuarantineThreshold eff \<and> et_QuarantineThreshold eff \<le> new"
    | (suspect) "\<not> (pe_ReliabilityScore e < et_QuarantineThreshold eff \<and> et_QuarantineThreshold eff \<le> new)"
        "pe_ReliabilityScore e < et_SuspectedThreshold eff \<and> et_SuspectedThreshold eff \<le> new"
    | (none) "\<not> (pe_ReliabilityScore e < et_QuarantineThreshold eff \<and> et_QuarantineThreshold eff \<le> new)"
        "\<not> (pe_ReliabilityScore e < et_SuspectedThreshold eff \<and> et_SuspectedThreshold eff \<le> new)" by blast
  then show ?thesis
  proof cases
    case quarantine
    have r: "st' = Publish t (NodeQuarantined n ?c new) (?st\<lparr>tr_phonebook := dbq, tr_quarantineTimers := mput n t (tr_quarantineTimers st)\<rparr>)"
      unfolding st' checkThresholds_def Let_def eff if_P [OF quarantine] using q(1) by simp
    have "effective D st' = eff" by (rule same) (simp_all add: r q(2, 3))
    moreover have "entries tbl (tr_phonebook st') (n, ?c) = Some (e\<lparr>pe_ReliabilityScore := new, pe_UpdatedAt := ms t, pe_Status := pbStatusQuarantined\<rparr>)"
      by (simp add: r q(3) e1 atEntry_def)
    ultimately show ?thesis unfolding if_P [OF quarantine] by (simp add: r q(2))
  next
    case suspect
    have r: "st' = Publish t (NodeProbeResult n ?c False reason new) (Publish t (NodeSuspected n ?c new) (?st\<lparr>tr_phonebook := dbs\<rparr>))"
      unfolding st' checkThresholds_def Let_def eff if_not_P [OF suspect(1)] if_P [OF suspect(2)] using s(1) by simp
    have "effective D st' = eff" by (rule same) (simp_all add: r s(2, 3))
    moreover have "entries tbl (tr_phonebook st') (n, ?c) = Some (e\<lparr>pe_ReliabilityScore := new, pe_UpdatedAt := ms t, pe_Status := pbStatusSuspected\<rparr>)"
      by (simp add: r s(3) e1 atEntry_def)
    ultimately show ?thesis unfolding if_not_P [OF suspect(1)] if_P [OF suspect(2)] by (simp add: r s(2))
  next
    case none
    have r: "st' = Publish t (NodeProbeResult n ?c False reason new) ?st"
      unfolding st' checkThresholds_def Let_def eff if_not_P [OF none(1)] if_not_P [OF none(2)] by simp
    have "effective D st' = effective D ?st" by (simp add: r effective_def clusterSize_def)
    then show ?thesis unfolding if_not_P [OF none(1)] if_not_P [OF none(2)] using eff db(2) e1 by (simp add: r)
  qed
qed

lemma probed_step:
  assumes "probed D ok tbl inc eff n st score status"
  shows "probed D ok tbl inc eff n (snd (RecordFailure D t n reason st)) (fadd score inc)
    (if score < et_QuarantineThreshold eff \<and> et_QuarantineThreshold eff \<le> fadd score inc then pbStatusQuarantined
     else if score < et_SuspectedThreshold eff \<and> et_SuspectedThreshold eff \<le> fadd score inc then pbStatusSuspected else status)"
proof -
  from assms obtain e where e: "entries tbl (tr_phonebook st) (n, tr_clusterPath st) = Some e"
    "pe_ReliabilityScore e = score" "pe_Status e = status" and ok: "ok (tr_phonebook st)"
    and c: "sg_ScoreIncrement (tr_config st) = inc" "effective D st = eff"
    by (auto simp: probed_def split: option.splits)
  let ?st = "snd (RecordFailure D t n reason st)"
  note R = RecordFailure_ok [OF ok e(1) refl refl refl, of t reason, unfolded e(2, 3) c]
  from R obtain e' where e': "entries tbl (tr_phonebook ?st) (n, tr_clusterPath st) = Some e'" "pe_ReliabilityScore e' = fadd score inc"
    "pe_Status e' = (if score < et_QuarantineThreshold eff \<and> et_QuarantineThreshold eff \<le> fadd score inc then pbStatusQuarantined
      else if score < et_SuspectedThreshold eff \<and> et_SuspectedThreshold eff \<le> fadd score inc then pbStatusSuspected else status)"
    by blast
  from R have "ok (tr_phonebook ?st)" "tr_config ?st = tr_config st" "tr_clusterPath ?st = tr_clusterPath st" "effective D ?st = eff"
    by blast+
  then show ?thesis unfolding probed_def using e' c(1) by simp
qed

lemma probed_run:
  assumes "probed D ok tbl inc eff n st score (statusOf eff score)" and "0 \<le> inc" and "f64 score = score"
    and "et_SuspectedThreshold eff \<le> et_QuarantineThreshold eff"
  shows "probed D ok tbl inc eff n (failedProbes D n reason ts st) (scoreAfter inc score (length ts))
    (statusOf eff (scoreAfter inc score (length ts)))"
  using assms(1)
proof (induction ts rule: rev_induct)
  case (snoc t ts)
  let ?s = "scoreAfter inc score (length ts)"
  have "f64 ?s = ?s" using assms(3) by (induction ts) (simp_all add: fadd_def)
  then have "?s \<le> fadd ?s inc" using assms(2) by (simp add: fadd_def ieee.ge_repr)
  then have "statusOf eff (fadd ?s inc) =
    (if ?s < et_QuarantineThreshold eff \<and> et_QuarantineThreshold eff \<le> fadd ?s inc then pbStatusQuarantined
     else if ?s < et_SuspectedThreshold eff \<and> et_SuspectedThreshold eff \<le> fadd ?s inc then pbStatusSuspected else statusOf eff ?s)"
    using assms(4) by (auto simp: statusOf_def)
  with probed_step [OF snoc.IH [OF snoc.prems], of t reason] show ?case by (simp add: failedProbes_def)
qed (simp add: failedProbes_def)

lemma probed_stuck:
  assumes "probed D ok tbl inc eff n st score status" and "0 \<le> inc" and "f64 score = score"
    and "et_SuspectedThreshold eff \<le> score" and "et_QuarantineThreshold eff \<le> score"
  shows "probed D ok tbl inc eff n (failedProbes D n reason ts st) (scoreAfter inc score (length ts)) status \<and>
    score \<le> scoreAfter inc score (length ts)"
proof (induction ts rule: rev_induct)
  case (snoc t ts)
  let ?s = "scoreAfter inc score (length ts)"
  have "f64 ?s = ?s" using assms(3) by (induction ts) (simp_all add: fadd_def)
  then have "?s \<le> fadd ?s inc" using assms(2) by (simp add: fadd_def ieee.ge_repr)
  moreover have "\<not> ?s < et_QuarantineThreshold eff" "\<not> ?s < et_SuspectedThreshold eff" using snoc assms(4, 5) by auto
  ultimately show ?case using probed_step [OF conjunct1 [OF snoc], of t reason] snoc by (simp add: failedProbes_def)
qed (use assms(1) in \<open>simp add: failedProbes_def\<close>)

end

section \<open>Responders\<close>

lemma topResponderLoop_iff:
  "topResponderLoop H target pos ps \<longleftrightarrow>
     he_self H \<in> pe_NodeID ` set (take (nat (he_maxResponders H - pos)) (filter (responder H target) ps))"
proof (induction ps arbitrary: pos)
  case (Cons p ps)
  show ?case
  proof (cases "responder H target p")
    case True
    have "nat (he_maxResponders H - pos) = Suc (nat (he_maxResponders H - (pos + 1)))" if "pos < he_maxResponders H"
      using that by simp
    then show ?thesis
      using True Cons.IH [of "pos + 1"]
      by (cases "pos < he_maxResponders H") (auto simp: responder_def)
  next
    case False
    then show ?thesis using Cons.IH [of pos] by (auto simp: responder_def)
  qed
qed simp

section \<open>Properties of probing\<close>

text \<open>
  C13. Consecutive failed probes drive the status through the thresholds: over every working database, when an active
  node with a score below the suspicion threshold fails a sequence of probes while the size of the cluster stays the
  same, its score is the floating-point sum of the increments and its status is active, suspected or quarantined
  exactly as this score compares to the two effective thresholds.
\<close>

theorem failed_probes_status:
  assumes "reliable_phonebook D ok tbl" and "probed D ok tbl inc eff n st score pbStatusActive"
    and "score < et_SuspectedThreshold eff" and "et_SuspectedThreshold eff \<le> et_QuarantineThreshold eff"
    and "0 \<le> inc" and "f64 score = score"
  shows "probed D ok tbl inc eff n (failedProbes D n reason ts st) (scoreAfter inc score (length ts))
    (statusOf eff (scoreAfter inc score (length ts)))"
proof -
  have "statusOf eff score = pbStatusActive" using assms(3, 4) by (simp add: statusOf_def)
  then show ?thesis using reliable_phonebook.probed_run [OF assms(1), of inc eff n st score reason ts] assms(2, 4-6) by simp
qed

lemma probed_sample:
  "probed pbrows_db pbrows_ok pbrows_tbl 1 \<lparr>et_SuspectedThreshold = 1, et_QuarantineThreshold = 2, et_QuarantineTimeout = 10\<rparr>
     ''n1'' (sample_tracker score) score ''active''"
  by (simp add: probed_def sample_tracker_def tracker_eval sample_effective entries_def pbrows_tbl_def pbrows_ok_def rowKey_def)
    (simp add: sample_cfg_def)

theorem failed_probes_status_witness:
  "reliable_phonebook pbrows_db pbrows_ok pbrows_tbl \<and>
   probed pbrows_db pbrows_ok pbrows_tbl 1 \<lparr>et_SuspectedThreshold = 1, et_QuarantineThreshold = 2, et_QuarantineTimeout = 10\<rparr>
     ''n1'' (failedProbes pbrows_db ''n1'' ''direct'' [5, 6] (sample_tracker 0)) 2 ''quarantined''"
  using failed_probes_status [OF pbrows.reliable_phonebook_axioms, of 1
      "\<lparr>et_SuspectedThreshold = 1, et_QuarantineThreshold = 2, et_QuarantineTimeout = 10\<rparr>" "''n1''" "sample_tracker 0" 0 "''direct''" "[5, 6]"]
    probed_sample [of 0] pbrows.reliable_phonebook_axioms
  by (simp add: pbStatusActive_def statusOf_def pbStatusQuarantined_def fadd_def f64_numeral numeral_2_eq_2)

text \<open>
  C37. A node whose score is already above the thresholds is never suspected or quarantined: the status changes only
  when a score crosses a threshold, and the thresholds fall when the cluster shrinks. However many probes such an
  active node fails, it stays active.
\<close>

theorem shrunk_cluster_never_quarantines:
  assumes "reliable_phonebook D ok tbl" and "probed D ok tbl inc eff n st score pbStatusActive"
    and "et_SuspectedThreshold eff \<le> score" and "et_QuarantineThreshold eff \<le> score" and "0 \<le> inc" and "f64 score = score"
  shows "probed D ok tbl inc eff n (failedProbes D n reason ts st) (scoreAfter inc score (length ts)) pbStatusActive"
  using reliable_phonebook.probed_stuck [OF assms(1, 2) assms(5, 6) assms(3, 4)] by blast

theorem shrunk_cluster_never_quarantines_witness:
  "probed pbrows_db pbrows_ok pbrows_tbl 1 \<lparr>et_SuspectedThreshold = 1, et_QuarantineThreshold = 2, et_QuarantineTimeout = 10\<rparr>
     ''n1'' (failedProbes pbrows_db ''n1'' ''direct'' (replicate 100 5) (sample_tracker 3)) (scoreAfter 1 3 100) ''active''"
  using shrunk_cluster_never_quarantines [OF pbrows.reliable_phonebook_axioms, of 1
      "\<lparr>et_SuspectedThreshold = 1, et_QuarantineThreshold = 2, et_QuarantineTimeout = 10\<rparr>" "''n1''" "sample_tracker 3" 3 "''direct''" "replicate 100 5"]
    probed_sample [of 3]
  by (simp add: pbStatusActive_def f64_numeral)


text \<open>
  Responder selection is what its comment says: a node answers a probe request exactly when it is among the first
  \<^verbatim>\<open>maxResponders\<close> active peers, in the order in which they were first seen and without the target.
\<close>

theorem isTopResponder_iff:
  assumes "GetByCluster D (tr_phonebook st) (tr_clusterPath st) = Some peers"
  shows "isTopResponder D H target st \<longleftrightarrow>
    he_self H \<in> pe_NodeID ` set (take (nat (he_maxResponders H)) (filter (responder H target) (he_sort H peers)))"
  using assms topResponderLoop_iff [of H target 0] by (simp add: isTopResponder_def)

theorem isTopResponder_iff_witness:
  "GetByCluster pbrows_db (tr_phonebook (sample_tracker 0)) (tr_clusterPath (sample_tracker 0)) =
     Some (map scanEntry [sample_row ''self'' 0, sample_row ''n1'' 0]) \<and>
   isTopResponder pbrows_db sample_host ''n1'' (sample_tracker 0)"
proof -
  have g: "GetByCluster pbrows_db (tr_phonebook (sample_tracker 0)) (tr_clusterPath (sample_tracker 0)) =
     Some (map scanEntry [sample_row ''self'' 0, sample_row ''n1'' 0])"
    by (simp add: sample_tracker_def tracker_eval)
  then show ?thesis using isTopResponder_iff [OF g, of sample_host "''n1''"]
    by (simp add: sample_host_def responder_def sample_row_def scanEntry_def pbStatusActive_def)
qed

end
