(* ===== verification/Snapshot_Store.thy ===== *)
theory Snapshot_Store
  imports Capsule_Wire
begin

text \<open>
  \<^verbatim>\<open>src/snapshot/store.go\<close>: the metadata of container snapshots, one SQLite row per capsule and tag, and the two
  evictions. The database is the parameter \<open>D\<close>, \<open>None\<close> for an error; a failed statement changes nothing. Its
  evaluation of the condition on \<^verbatim>\<open>julianday\<close> in \<^verbatim>\<open>EvictExpired\<close> is the parameter \<open>sn_Older\<close>. The locale
  \<open>snapshot_db\<close> says what the code relies on, and is interpreted on a list of rows. The directories on disk are
  not modelled: the store only computes their path.
\<close>

section \<open>Definitions\<close>

record SnapRecord =
  sn_CapsuleID :: string
  sn_Tag :: string
  sn_Size :: int
  sn_Path :: string
  sn_Checksum :: string
  sn_CreatedAt :: time
  sn_LastAccessed :: time
  sn_TTL :: duration
  sn_InUse :: bool

record snaprow =
  sw_capsule_id :: string
  sw_tag :: string
  sw_size :: int
  sw_path :: string
  sw_checksum :: string
  sw_created_at :: time
  sw_last_accessed :: time
  sw_ttl_seconds :: int
  sw_in_use :: int

record 'db snapsql =
  sn_Replace :: "snaprow \<Rightarrow> 'db \<Rightarrow> 'db option"
  sn_Update :: "(snaprow \<Rightarrow> snaprow) \<Rightarrow> (snaprow \<Rightarrow> bool) \<Rightarrow> 'db \<Rightarrow> 'db option"
  sn_Remove :: "(snaprow \<Rightarrow> bool) \<Rightarrow> 'db \<Rightarrow> 'db option"
  sn_Select :: "(snaprow \<Rightarrow> bool) \<Rightarrow> 'db \<Rightarrow> snaprow list option"
  sn_SelectNewest :: "(snaprow \<Rightarrow> bool) \<Rightarrow> 'db \<Rightarrow> snaprow list option"
  sn_Older :: "time \<Rightarrow> time \<Rightarrow> int \<Rightarrow> bool"

definition snapKey :: "string \<Rightarrow> string \<Rightarrow> snaprow \<Rightarrow> bool" where
  "snapKey capsuleID tag r \<longleftrightarrow> sw_capsule_id r = capsuleID \<and> sw_tag r = tag"

definition inUseColumn :: "bool \<Rightarrow> int" where
  "inUseColumn b = (if b then 1 else 0)"

definition snapRow :: "SnapRecord \<Rightarrow> snaprow" where
  "snapRow rec = \<lparr>sw_capsule_id = sn_CapsuleID rec, sw_tag = sn_Tag rec, sw_size = sn_Size rec, sw_path = sn_Path rec,
     sw_checksum = sn_Checksum rec, sw_created_at = sn_CreatedAt rec, sw_last_accessed = sn_LastAccessed rec,
     sw_ttl_seconds = to_integer (Duration_Seconds (sn_TTL rec)), sw_in_use = inUseColumn (sn_InUse rec)\<rparr>"

definition scanRecord :: "snaprow \<Rightarrow> SnapRecord" where
  "scanRecord r = \<lparr>sn_CapsuleID = sw_capsule_id r, sn_Tag = sw_tag r, sn_Size = sw_size r, sn_Path = sw_path r,
     sn_Checksum = sw_checksum r, sn_CreatedAt = sw_created_at r, sn_LastAccessed = sw_last_accessed r,
     sn_TTL = s64 (sw_ttl_seconds r * Second), sn_InUse = (sw_in_use r \<noteq> 0)\<rparr>"

definition scanRecords :: "snaprow list \<Rightarrow> SnapRecord list" where
  "scanRecords rows = map scanRecord rows"

definition Snap_Put :: "'db snapsql \<Rightarrow> SnapRecord \<Rightarrow> 'db \<Rightarrow> 'db option" where
  "Snap_Put D rec db = sn_Replace D (snapRow rec) db"

definition Snap_Get :: "'db snapsql \<Rightarrow> string \<Rightarrow> string \<Rightarrow> 'db \<Rightarrow> SnapRecord option option" where
  "Snap_Get D capsuleID tag db = (case sn_Select D (snapKey capsuleID tag) db of
     None \<Rightarrow> None
   | Some [] \<Rightarrow> Some None
   | Some (r # _) \<Rightarrow> Some (Some (scanRecord r)))"

definition ListByCapsule :: "'db snapsql \<Rightarrow> string \<Rightarrow> 'db \<Rightarrow> SnapRecord list option" where
  "ListByCapsule D capsuleID db = map_option scanRecords (sn_SelectNewest D (\<lambda>r. sw_capsule_id r = capsuleID) db)"

definition TouchAccess :: "'db snapsql \<Rightarrow> time \<Rightarrow> string \<Rightarrow> string \<Rightarrow> 'db \<Rightarrow> 'db option" where
  "TouchAccess D now capsuleID tag db = sn_Update D (\<lambda>r. r\<lparr>sw_last_accessed := now\<rparr>) (snapKey capsuleID tag) db"

definition SetInUse :: "'db snapsql \<Rightarrow> string \<Rightarrow> string \<Rightarrow> bool \<Rightarrow> 'db \<Rightarrow> 'db option" where
  "SetInUse D capsuleID tag inUse db = sn_Update D (\<lambda>r. r\<lparr>sw_in_use := inUseColumn inUse\<rparr>) (snapKey capsuleID tag) db"

definition Snap_Delete :: "'db snapsql \<Rightarrow> string \<Rightarrow> string \<Rightarrow> 'db \<Rightarrow> 'db option" where
  "Snap_Delete D capsuleID tag db = sn_Remove D (snapKey capsuleID tag) db"

definition DeleteByCapsule :: "'db snapsql \<Rightarrow> string \<Rightarrow> 'db \<Rightarrow> 'db option" where
  "DeleteByCapsule D capsuleID db = sn_Remove D (\<lambda>r. sw_capsule_id r = capsuleID) db"

text \<open>The delete statements of the eviction loops; their errors are ignored.\<close>

definition evictRecord :: "'db snapsql \<Rightarrow> SnapRecord \<Rightarrow> 'db \<Rightarrow> 'db" where
  "evictRecord D rec db = (case Snap_Delete D (sn_CapsuleID rec) (sn_Tag rec) db of None \<Rightarrow> db | Some db' \<Rightarrow> db')"

definition EvictExpired :: "'db snapsql \<Rightarrow> time \<Rightarrow> 'db \<Rightarrow> (SnapRecord list \<times> 'db) option" where
  "EvictExpired D now db =
     (case sn_Select D (\<lambda>r. sw_in_use r = 0 \<and> sn_Older D now (sw_last_accessed r) (sw_ttl_seconds r)) db of
        None \<Rightarrow> None
      | Some rows \<Rightarrow> (let evicted = scanRecords rows in Some (evicted, fold (evictRecord D) evicted db)))"

fun overCapLoop :: "'db snapsql \<Rightarrow> int \<Rightarrow> int \<Rightarrow> SnapRecord list \<Rightarrow> 'db \<Rightarrow> SnapRecord list \<times> 'db" where
  "overCapLoop D maxPer kept [] db = ([], db)"
| "overCapLoop D maxPer kept (rec # recs) db =
     (if (kept < maxPer \<or> sn_InUse rec) \<and> (\<not> sn_InUse rec \<or> kept < maxPer) then overCapLoop D maxPer (kept + 1) recs db
      else let (evicted, db) = overCapLoop D maxPer kept recs (evictRecord D rec db) in (rec # evicted, db))"

definition EvictOverCap :: "'db snapsql \<Rightarrow> string \<Rightarrow> int \<Rightarrow> 'db \<Rightarrow> (SnapRecord list \<times> 'db) option" where
  "EvictOverCap D capsuleID maxPer db = (case sn_SelectNewest D (\<lambda>r. sw_capsule_id r = capsuleID) db of
     None \<Rightarrow> None
   | Some rows \<Rightarrow> Some (overCapLoop D maxPer 0 (scanRecords rows) db))"

subsection \<open>Specification\<close>

definition keyOf :: "snaprow \<Rightarrow> string \<times> string" where
  "keyOf r = (sw_capsule_id r, sw_tag r)"

definition recKey :: "SnapRecord \<Rightarrow> string \<times> string" where
  "recKey rec = (sn_CapsuleID rec, sn_Tag rec)"

text \<open>A database that is a list of rows.\<close>

definition snaprows_db :: "snaprow list snapsql" where
  "snaprows_db = \<lparr>sn_Replace = (\<lambda>r rs. Some (filter (\<lambda>q. keyOf q \<noteq> keyOf r) rs @ [r])),
     sn_Update = (\<lambda>f w rs. Some (map (\<lambda>r. if w r then f r else r) rs)),
     sn_Remove = (\<lambda>w rs. Some (filter (\<lambda>r. \<not> w r) rs)), sn_Select = (\<lambda>w rs. Some (filter w rs)),
     sn_SelectNewest = (\<lambda>w rs. Some (sort_key (\<lambda>r. - sw_created_at r) (filter w rs))),
     sn_Older = (\<lambda>now accessed ttl. now - accessed > ttl * Second)\<rparr>"

definition snaprows_tbl :: "snaprow list \<Rightarrow> string \<times> string \<Rightarrow> snaprow option" where
  "snaprows_tbl rs k = find (\<lambda>r. keyOf r = k) rs"

definition snaprows_ok :: "snaprow list \<Rightarrow> bool" where
  "snaprows_ok rs \<longleftrightarrow> distinct (map keyOf rs)"

section \<open>The interface of the database\<close>

locale snapshot_db =
  fixes D :: "'db snapsql" and ok :: "'db \<Rightarrow> bool" and tbl :: "'db \<Rightarrow> string \<times> string \<Rightarrow> snaprow option"
  assumes replace_law: "ok db \<Longrightarrow> sn_Replace D r db = Some db' \<Longrightarrow> ok db' \<and> tbl db' = (tbl db)(keyOf r \<mapsto> r)"
    and update_law: "ok db \<Longrightarrow> (\<And>r. keyOf (f r) = keyOf r) \<Longrightarrow> sn_Update D f w db = Some db' \<Longrightarrow>
      ok db' \<and> tbl db' = (\<lambda>k. map_option (\<lambda>r. if w r then f r else r) (tbl db k))"
    and remove_law: "ok db \<Longrightarrow> sn_Remove D w db = Some db' \<Longrightarrow>
      ok db' \<and> tbl db' = (\<lambda>k. case tbl db k of None \<Rightarrow> None | Some r \<Rightarrow> if w r then None else Some r)"
    and remove_total: "ok db \<Longrightarrow> sn_Remove D w db \<noteq> None"
    and select_law: "ok db \<Longrightarrow> sn_Select D w db = Some rs \<Longrightarrow>
      distinct (map keyOf rs) \<and> (\<forall>r. r \<in> set rs \<longleftrightarrow> tbl db (keyOf r) = Some r \<and> w r)"
    and newest_law: "ok db \<Longrightarrow> sn_SelectNewest D w db = Some rs \<Longrightarrow>
      distinct (map keyOf rs) \<and> (\<forall>r. r \<in> set rs \<longleftrightarrow> tbl db (keyOf r) = Some r \<and> w r) \<and>
      sorted_wrt (\<lambda>r q. sw_created_at r \<ge> sw_created_at q) rs"
    and key_law: "ok db \<Longrightarrow> tbl db k = Some r \<Longrightarrow> keyOf r = k"
begin

lemma evictRecord_tbl:
  assumes "ok db"
  shows "ok (evictRecord D rec db) \<and> tbl (evictRecord D rec db) = (tbl db)(recKey rec := None)"
proof -
  obtain db' where db': "sn_Remove D (snapKey (sn_CapsuleID rec) (sn_Tag rec)) db = Some db'"
    using remove_total [OF assms] by auto
  have "tbl db' k = ((tbl db)(recKey rec := None)) k" for k
    using remove_law [OF assms db'] key_law [OF assms, of k]
    by (cases "tbl db k") (auto simp: snapKey_def recKey_def keyOf_def)
  then show ?thesis using remove_law [OF assms db'] db' by (auto simp: evictRecord_def Snap_Delete_def)
qed

lemma fold_evictRecord_tbl:
  "ok db \<Longrightarrow> ok (fold (evictRecord D) recs db) \<and>
   tbl (fold (evictRecord D) recs db) = (\<lambda>k. if k \<in> recKey ` set recs then None else tbl db k)"
  by (induction recs arbitrary: db) (simp_all add: evictRecord_tbl fun_eq_iff)

lemma EvictExpired_exact:
  assumes "ok db" "EvictExpired D now db = Some (evicted, db')"
  shows "ok db' \<and> tbl db' = (\<lambda>k. case tbl db k of None \<Rightarrow> None
    | Some r \<Rightarrow> if sw_in_use r = 0 \<and> sn_Older D now (sw_last_accessed r) (sw_ttl_seconds r) then None else Some r)"
proof -
  let ?w = "\<lambda>r. sw_in_use r = 0 \<and> sn_Older D now (sw_last_accessed r) (sw_ttl_seconds r)"
  from assms(2) obtain rows where rows: "sn_Select D ?w db = Some rows" and ev: "evicted = scanRecords rows"
    and db': "db' = fold (evictRecord D) evicted db" by (auto simp: EvictExpired_def Let_def split: option.splits)
  have keys: "recKey ` set evicted = keyOf ` set rows"
    by (simp add: ev scanRecords_def image_image recKey_def scanRecord_def keyOf_def)
  have mem: "r \<in> set rows \<longleftrightarrow> tbl db (keyOf r) = Some r \<and> ?w r" for r using select_law [OF assms(1) rows] by blast
  have "tbl db' k = (case tbl db k of None \<Rightarrow> None | Some r \<Rightarrow> if ?w r then None else Some r)" for k
  proof (cases "tbl db k")
    case (Some r)
    then have "k = keyOf r" using key_law [OF assms(1)] by simp
    then have "k \<in> keyOf ` set rows \<longleftrightarrow> ?w r" using mem Some by (fastforce simp: image_iff)
    then show ?thesis using Some fold_evictRecord_tbl [OF assms(1), of evicted] by (simp add: db' keys)
  qed (use fold_evictRecord_tbl [OF assms(1), of evicted] in \<open>simp add: db'\<close>)
  then show ?thesis using fold_evictRecord_tbl [OF assms(1), of evicted] by (auto simp: db')
qed

lemma put_get:
  assumes "ok db" "Snap_Put D rec db = Some db'" "Snap_Get D c t db' = Some x"
  shows "x = (if (c, t) = recKey rec then Some (scanRecord (snapRow rec)) else map_option scanRecord (tbl db (c, t)))"
proof -
  have k: "keyOf (snapRow rec) = recKey rec" by (simp add: keyOf_def recKey_def snapRow_def)
  have db': "ok db'" "tbl db' = (tbl db)(recKey rec \<mapsto> snapRow rec)"
    using replace_law [OF assms(1)] assms(2) k by (auto simp: Snap_Put_def)
  from assms(3) obtain rs where rs: "sn_Select D (snapKey c t) db' = Some rs"
    and x: "x = (case rs of [] \<Rightarrow> None | r # _ \<Rightarrow> Some (scanRecord r))"
    by (auto simp: Snap_Get_def split: option.splits list.splits)
  have mem: "r \<in> set rs \<longleftrightarrow> tbl db' (keyOf r) = Some r \<and> keyOf r = (c, t)" for r
    using select_law [OF db'(1) rs] by (auto simp: snapKey_def keyOf_def)
  have "x = map_option scanRecord (tbl db' (c, t))"
  proof (cases rs)
    case Nil
    have "tbl db' (c, t) = None"
    proof (rule ccontr)
      assume "tbl db' (c, t) \<noteq> None"
      then obtain r where r: "tbl db' (c, t) = Some r" by blast
      then have "keyOf r = (c, t)" by (rule key_law [OF db'(1)])
      then show False using mem [of r] r Nil by simp
    qed
    then show ?thesis using x Nil by simp
  next
    case (Cons r rs')
    then have "tbl db' (c, t) = Some r" using mem [of r] by (metis list.set_intros(1))
    then show ?thesis using x Cons by simp
  qed
  then show ?thesis using db'(2) by simp
qed

end

section \<open>Lemmas\<close>

text \<open>The nested conditions of the loop amount to \<^verbatim>\<open>kept < maxPerCapsule\<close>.\<close>

lemma overCapLoop_drop:
  "overCapLoop D n kept recs db = (drop (nat (n - kept)) recs, fold (evictRecord D) (drop (nat (n - kept)) recs) db)"
proof (induction D n kept recs db rule: overCapLoop.induct)
  case (2 D n kept rec recs db)
  show ?case
  proof (cases "kept < n")
    case True
    then have "nat (n - kept) = Suc (nat (n - (kept + 1)))" by simp
    then show ?thesis using True "2.IH"(1) by simp
  next
    case False
    then show ?thesis using "2.IH"(2) by (simp add: Let_def)
  qed
qed simp

lemma snaprows_find: "snaprows_ok rs \<Longrightarrow> snaprows_tbl rs k = Some r \<longleftrightarrow> r \<in> set rs \<and> keyOf r = k"
proof (induction rs)
  case (Cons q rs)
  then show ?case by (auto simp: snaprows_ok_def snaprows_tbl_def)
qed (simp add: snaprows_tbl_def)

lemma snaprows_filter:
  "snaprows_ok rs \<Longrightarrow> snaprows_tbl (filter P rs) k = (case snaprows_tbl rs k of None \<Rightarrow> None | Some r \<Rightarrow> if P r then Some r else None)"
proof (induction rs)
  case (Cons q rs)
  have absent: "keyOf q = k \<Longrightarrow> find (\<lambda>r. keyOf r = k) (filter P rs) = None"
    using Cons.prems by (auto simp: snaprows_ok_def find_None_iff image_def)
  show ?case using Cons absent by (auto simp: snaprows_ok_def snaprows_tbl_def)
qed (simp add: snaprows_tbl_def)

lemma snaprows_ok_filter: "snaprows_ok rs \<Longrightarrow> snaprows_ok (filter P rs)"
  by (simp add: snaprows_ok_def distinct_map_filter)

lemma snaprows_replace:
  assumes "snaprows_ok rs"
  shows "snaprows_tbl (filter (\<lambda>q. keyOf q \<noteq> keyOf r) rs @ [r]) k = ((snaprows_tbl rs)(keyOf r \<mapsto> r)) k"
proof -
  have "snaprows_tbl (filter (\<lambda>q. keyOf q \<noteq> keyOf r) rs @ [r]) k =
      (case snaprows_tbl (filter (\<lambda>q. keyOf q \<noteq> keyOf r) rs) k of None \<Rightarrow> if keyOf r = k then Some r else None | Some q \<Rightarrow> Some q)"
    by (simp add: snaprows_tbl_def find_append split: option.split)
  moreover have "snaprows_tbl rs k = Some q \<Longrightarrow> keyOf q = k" for q using snaprows_find [OF assms] by blast
  ultimately show ?thesis using snaprows_filter [OF assms] by (simp split: option.split)
qed

lemma snaprows_update:
  assumes "\<And>r. keyOf (f r) = keyOf r"
  shows "snaprows_tbl (map (\<lambda>r. if w r then f r else r) rs) k = map_option (\<lambda>r. if w r then f r else r) (snaprows_tbl rs k)"
  by (induction rs) (simp_all add: snaprows_tbl_def assms)

lemma snaprows_newest:
  assumes "snaprows_ok rs"
  shows "distinct (map keyOf (sort_key (\<lambda>r. - sw_created_at r) (filter w rs)))"
    and "sorted_wrt (\<lambda>r q. sw_created_at r \<ge> sw_created_at q) (sort_key (\<lambda>r. - sw_created_at r) (filter w rs))"
proof -
  let ?s = "sort_key (\<lambda>r. - sw_created_at r) (filter w rs)"
  show "distinct (map keyOf ?s)" using snaprows_ok_filter [OF assms, of w] by (simp add: snaprows_ok_def distinct_map)
  have "sorted (map (\<lambda>r. - sw_created_at r) ?s)" by simp
  then show "sorted_wrt (\<lambda>r q. sw_created_at r \<ge> sw_created_at q) ?s" by (simp only: sorted_wrt_map neg_le_iff_le)
qed

interpretation snaprows: snapshot_db snaprows_db snaprows_ok snaprows_tbl
proof
  fix db db' r f w rs k
  assume ok: "snaprows_ok db"
  show "snaprows_ok db' \<and> snaprows_tbl db' = (snaprows_tbl db)(keyOf r \<mapsto> r)" if "sn_Replace snaprows_db r db = Some db'"
  proof -
    have d: "db' = filter (\<lambda>q. keyOf q \<noteq> keyOf r) db @ [r]" using that by (simp add: snaprows_db_def)
    have "snaprows_ok db'" using snaprows_ok_filter [OF ok] by (auto simp: d snaprows_ok_def)
    then show ?thesis using snaprows_replace [OF ok, of r] unfolding d by blast
  qed
  show "snaprows_ok db' \<and> snaprows_tbl db' = (\<lambda>k. map_option (\<lambda>r. if w r then f r else r) (snaprows_tbl db k))"
    if "\<And>r. keyOf (f r) = keyOf r" "sn_Update snaprows_db f w db = Some db'"
  proof -
    have d: "db' = map (\<lambda>r. if w r then f r else r) db" using that(2) by (simp add: snaprows_db_def)
    have "map keyOf db' = map keyOf db" by (simp add: d that(1))
    then show ?thesis using ok snaprows_update [OF that(1), of w db] unfolding snaprows_ok_def d by presburger
  qed
  show "snaprows_ok db' \<and> snaprows_tbl db' = (\<lambda>k. case snaprows_tbl db k of None \<Rightarrow> None | Some r \<Rightarrow> if w r then None else Some r)"
    if "sn_Remove snaprows_db w db = Some db'"
  proof -
    have d: "db' = filter (\<lambda>r. \<not> w r) db" using that by (simp add: snaprows_db_def)
    show ?thesis unfolding d using snaprows_filter [OF ok, of "\<lambda>r. \<not> w r"] snaprows_ok_filter [OF ok]
      by (simp add: fun_eq_iff split: option.split)
  qed
  show "sn_Remove snaprows_db w db \<noteq> None" by (simp add: snaprows_db_def)
  show "distinct (map keyOf rs) \<and> (\<forall>r. r \<in> set rs \<longleftrightarrow> snaprows_tbl db (keyOf r) = Some r \<and> w r)"
    if "sn_Select snaprows_db w db = Some rs"
  proof -
    have d: "rs = filter w db" using that by (simp add: snaprows_db_def)
    show ?thesis using snaprows_ok_filter [OF ok, of w] snaprows_find [OF ok] by (simp add: d snaprows_ok_def conj_commute)
  qed
  show "distinct (map keyOf rs) \<and> (\<forall>r. r \<in> set rs \<longleftrightarrow> snaprows_tbl db (keyOf r) = Some r \<and> w r) \<and>
      sorted_wrt (\<lambda>r q. sw_created_at r \<ge> sw_created_at q) rs" if "sn_SelectNewest snaprows_db w db = Some rs"
  proof -
    have d: "rs = sort_key (\<lambda>r. - sw_created_at r) (filter w db)" using that by (simp add: snaprows_db_def)
    show ?thesis unfolding d using snaprows_newest [OF ok] snaprows_find [OF ok] by (simp add: conj_commute)
  qed
  show "keyOf r = k" if "snaprows_tbl db k = Some r" using that snaprows_find [OF ok] by simp
qed

section \<open>Properties\<close>

text \<open>
  Expiry removes exactly the snapshots that are not in use and whose time to live has passed, and a snapshot that
  is in use stays, whatever its age.
\<close>

theorem EvictExpired_keeps_in_use:
  assumes "snapshot_db D ok tbl" and "ok db" and "EvictExpired D now db = Some (evicted, db')"
  shows "tbl db' k = (case tbl db k of None \<Rightarrow> None
    | Some r \<Rightarrow> if sw_in_use r = 0 \<and> sn_Older D now (sw_last_accessed r) (sw_ttl_seconds r) then None else Some r)"
  using snapshot_db.EvictExpired_exact [OF assms] by simp



text \<open>
  A record that is put is found again, with its time to live cut to whole seconds, and the other records stay.
\<close>

theorem snapshot_put_get:
  assumes "snapshot_db D ok tbl" and "ok db" and "Snap_Put D rec db = Some db'" and "Snap_Get D c t db' = Some x"
  shows "x = (if (c, t) = recKey rec then Some (scanRecord (snapRow rec)) else map_option scanRecord (tbl db (c, t))) \<and>
    (\<forall>n. sn_TTL rec = n * Second \<longrightarrow> \<bar>n\<bar> \<le> 9000000000 \<longrightarrow> scanRecord (snapRow rec) = rec)"
proof -
  have "scanRecord (snapRow rec) = rec" if "sn_TTL rec = n * Second" "\<bar>n\<bar> \<le> 9000000000" for n
  proof -
    have "to_integer (Duration_Seconds (n * Second)) = n"
      using that(2) by (subst Duration_Seconds_whole) (simp_all add: to_integer_def)
    moreover have "in_s64 (n * Second)" using that(2) by (auto simp: in_s64_def)
    ultimately show ?thesis using that(1) by (cases rec) (simp add: scanRecord_def snapRow_def inUseColumn_def)
  qed
  then show ?thesis using snapshot_db.put_get [OF assms] by blast
qed

end
